(* ===== verification/Obl_Prelude.thy ===== *)
theory Obl_Prelude
  imports Complex_Main "HOL-Library.Sublist"
begin

text \<open>
  Shared vocabulary of the development.

  \<^item> JavaScript values: a property that may be missing, \<open>null\<close> or present (\<open>'a jsprop\<close>),
    numbers as exact rationals with one constructor for the non-finite ones, the string helpers
    the server uses (\<open>startsWith\<close>, \<open>split\<close>, \<open>join\<close>, \<open>trim\<close>, \<open>toLowerCase\<close>, \<open>includes\<close>,
    decimal printing and reading).
  \<^item> Tables: a database table is a list of rows; \<open>tbl_update\<close>, \<open>tbl_delete\<close> and
    \<open>List.find\<close> are \<open>UPDATE\<close>, \<open>DELETE\<close> and \<open>.first()\<close>.
  \<^item> Interfaces used by several components: \<open>layered_override\<close> (a cascade in which the
    innermost layer that sets a value wins) and \<open>guarded_machine\<close> (an invariant kept by
    every step of a machine).
\<close>

named_theorems tbl_simps \<open>rewriting of table operations\<close>
named_theorems str_simps \<open>evaluation of string helpers\<close>

section \<open>JavaScript values\<close>

datatype 'a jsprop = Absent | Null | Val 'a

datatype jsnum = Fin rat | NonFin

primrec nullish :: "'a jsprop \<Rightarrow> bool" where
  "nullish Absent = True"
| "nullish Null = True"
| "nullish (Val v) = False"

primrec field_opt :: "'a jsprop \<Rightarrow> 'a option" where
  "field_opt Absent = None"
| "field_opt Null = None"
| "field_opt (Val v) = Some v"

lemma field_opt_eq_None [simp]: "field_opt f = None \<longleftrightarrow> nullish f"
  by (cases f) auto

lemma field_opt_eq_Some [simp]: "field_opt f = Some v \<longleftrightarrow> f = Val v"
  by (cases f) auto

text \<open>The operator \<open>a ?? b\<close>.\<close>

definition orElse :: "'a option \<Rightarrow> 'a option \<Rightarrow> 'a option" where
  "orElse a b = (case a of None \<Rightarrow> b | Some x \<Rightarrow> Some x)"

lemma orElse_simps [simp]:
  "orElse None b = b" "orElse (Some x) b = Some x" "orElse a None = a"
  by (simp_all add: orElse_def split: option.split)

text \<open>A number is truthy when it is present and not zero.\<close>

definition truthy_id :: "nat option \<Rightarrow> bool" where
  "truthy_id x \<longleftrightarrow> (case x of None \<Rightarrow> False | Some n \<Rightarrow> n \<noteq> 0)"

lemma truthy_id_simps [simp]: "\<not> truthy_id None" "truthy_id (Some n) \<longleftrightarrow> n \<noteq> 0"
  by (simp_all add: truthy_id_def)

section \<open>Strings\<close>

definition starts_with :: "string \<Rightarrow> string \<Rightarrow> bool" where
  "starts_with p s \<longleftrightarrow> take (length p) s = p"

lemma starts_with_append [simp]: "starts_with p (p @ s)"
  by (simp add: starts_with_def)

lemma starts_with_prefix: "starts_with p s \<longleftrightarrow> prefix p s"
  by (auto simp: starts_with_def prefix_def) (metis append_take_drop_id)

definition lower_char :: "char \<Rightarrow> char" where
  "lower_char c = (let n = of_char c :: nat in if 65 \<le> n \<and> n \<le> 90 then char_of (n + 32) else c)"

definition to_lower :: "string \<Rightarrow> string" where
  "to_lower s = map lower_char s"

definition is_digit :: "char \<Rightarrow> bool" where
  "is_digit c \<longleftrightarrow> (let n = of_char c :: nat in 48 \<le> n \<and> n \<le> 57)"

definition is_space :: "char \<Rightarrow> bool" where
  "is_space c \<longleftrightarrow> (let n = of_char c :: nat in n = 32 \<or> (9 \<le> n \<and> n \<le> 13) \<or> n = 160)"

definition trim :: "string \<Rightarrow> string" where
  "trim s = rev (dropWhile is_space (rev (dropWhile is_space s)))"

text \<open>\<open>s.split(c)\<close> for a one-character separator, and \<open>xs.join(sep)\<close>.\<close>

fun split_on :: "char \<Rightarrow> string \<Rightarrow> string list" where
  "split_on c [] = [[]]"
| "split_on c (x # xs) =
     (if x = c then [] # split_on c xs
      else case split_on c xs of [] \<Rightarrow> [[x]] | y # ys \<Rightarrow> (x # y) # ys)"

fun join_with :: "string \<Rightarrow> string list \<Rightarrow> string" where
  "join_with sep [] = []"
| "join_with sep [x] = x"
| "join_with sep (x # y # ys) = x @ sep @ join_with sep (y # ys)"

lemma split_on_nonempty [simp]: "split_on c s \<noteq> []"
  by (induction s) (auto split: list.split)

lemma split_on_append [str_simps]: "c \<notin> set xs \<Longrightarrow> split_on c (xs @ c # ys) = xs # split_on c ys"
  by (induction xs) auto

lemma split_on_sep: "split_on c (xs @ c # ys) = split_on c xs @ split_on c ys"
  by (induction xs) (auto split: list.split)

lemma split_on_no_sep [str_simps]: "c \<notin> set xs \<Longrightarrow> split_on c xs = [xs]"
  by (induction xs) auto

lemma split_join:
  assumes "xs \<noteq> []" "\<forall>x \<in> set xs. c \<notin> set x"
  shows "split_on c (join_with [c] xs) = xs"
  using assms by (induction "[c]" xs rule: join_with.induct) (auto simp: split_on_no_sep split_on_append)

text \<open>Decimal numerals, as \<open>String(n)\<close> prints them and \<open>Number(s)\<close> reads a run of digits.\<close>

definition digit_char :: "nat \<Rightarrow> char" where
  "digit_char d = char_of (48 + d)"

definition digit_val :: "char \<Rightarrow> nat" where
  "digit_val c = of_char c - 48"

fun show_nat :: "nat \<Rightarrow> string" where
  "show_nat n = (if n < 10 then [digit_char n] else show_nat (n div 10) @ [digit_char (n mod 10)])"

declare show_nat.simps [simp del]

definition read_nat :: "string \<Rightarrow> nat" where
  "read_nat s = foldl (\<lambda>acc c. acc * 10 + digit_val c) 0 s"

lemma of_char_digit_char: "d < 10 \<Longrightarrow> of_char (digit_char d) = 48 + d"
  by (simp add: digit_char_def)

lemma digit_val_digit_char [simp]: "d < 10 \<Longrightarrow> digit_val (digit_char d) = d"
  by (simp add: digit_val_def of_char_digit_char)

lemma is_digit_digit_char [simp]: "d < 10 \<Longrightarrow> is_digit (digit_char d)"
  by (simp add: is_digit_def of_char_digit_char)

lemma show_nat_nonempty [simp]: "show_nat n \<noteq> []"
  by (subst show_nat.simps) simp

lemma show_nat_digits: "\<forall>c \<in> set (show_nat n). is_digit c"
proof (induction n rule: show_nat.induct)
  case (1 n)
  then show ?case by (subst show_nat.simps) auto
qed

lemma show_nat_no_sep: "\<not> is_digit c \<Longrightarrow> c \<notin> set (show_nat n)"
  using show_nat_digits by blast

lemma colon_not_digit [simp]: "\<not> is_digit CHR '':''" "CHR '':'' \<notin> set (show_nat n)"
proof -
  show "\<not> is_digit CHR '':''" by (simp add: is_digit_def)
  then show "CHR '':'' \<notin> set (show_nat n)" by (rule show_nat_no_sep)
qed

lemma read_show_nat [simp]: "read_nat (show_nat n) = n"
proof (induction n rule: show_nat.induct)
  case (1 n)
  show ?case
  proof (cases "n < 10")
    case True
    then show ?thesis by (subst show_nat.simps) (simp add: read_nat_def)
  next
    case False
    with 1 have "read_nat (show_nat (n div 10)) = n div 10" by simp
    with False show ?thesis by (subst show_nat.simps) (simp add: read_nat_def)
  qed
qed

lemma show_nat_inject [simp]: "show_nat m = show_nat n \<longleftrightarrow> m = n"
  by (metis read_show_nat)

section \<open>Tables\<close>

definition tbl_update :: "('r \<Rightarrow> bool) \<Rightarrow> ('r \<Rightarrow> 'r) \<Rightarrow> 'r list \<Rightarrow> 'r list" where
  "tbl_update P f rows = map (\<lambda>r. if P r then f r else r) rows"

definition tbl_delete :: "('r \<Rightarrow> bool) \<Rightarrow> 'r list \<Rightarrow> 'r list" where
  "tbl_delete P rows = filter (\<lambda>r. \<not> P r) rows"

text \<open>Rows with distinct keys: the primary key of a table.\<close>

definition keyed :: "('r \<Rightarrow> 'k) \<Rightarrow> 'r list \<Rightarrow> bool" where
  "keyed key rows \<longleftrightarrow> distinct (map key rows)"

lemma set_tbl_update [tbl_simps]:
  "set (tbl_update P f rows) = (\<lambda>r. if P r then f r else r) ` set rows"
  by (simp add: tbl_update_def)

lemma set_tbl_delete [tbl_simps]: "set (tbl_delete P rows) = {r \<in> set rows. \<not> P r}"
  by (auto simp: tbl_delete_def)

lemma tbl_update_Nil [simp]: "tbl_update P f [] = []"
  by (simp add: tbl_update_def)

lemma tbl_update_append [tbl_simps]:
  "tbl_update P f (xs @ ys) = tbl_update P f xs @ tbl_update P f ys"
  by (simp add: tbl_update_def)

lemma length_tbl_update [simp]: "length (tbl_update P f rows) = length rows"
  by (simp add: tbl_update_def)

lemma map_tbl_update:
  assumes "\<And>r. g (f r) = g r"
  shows "map g (tbl_update P f rows) = map g rows"
  using assms by (simp add: tbl_update_def)

lemma keyed_tbl_update:
  assumes "\<And>r. key (f r) = key r"
  shows "keyed key (tbl_update P f rows) = keyed key rows"
  using assms by (simp add: keyed_def map_tbl_update)

lemma keyed_tbl_delete: "keyed key rows \<Longrightarrow> keyed key (tbl_delete P rows)"
  by (simp add: keyed_def tbl_delete_def distinct_map_filter)

lemma keyed_snoc:
  "keyed key (rows @ [r]) \<longleftrightarrow> keyed key rows \<and> key r \<notin> key ` set rows"
  by (auto simp: keyed_def)

lemma tbl_update_ident: "(\<And>r. r \<in> set rows \<Longrightarrow> \<not> P r) \<Longrightarrow> tbl_update P f rows = rows"
  by (simp add: tbl_update_def map_idI)

lemma find_SomeD: "find P xs = Some x \<Longrightarrow> x \<in> set xs \<and> P x"
  by (induction xs) (auto split: if_splits)

lemma find_key_update:
  assumes "\<And>r. key (f r) = key r"
  shows "find (\<lambda>r. key r = k) (tbl_update (\<lambda>r. key r = k) f rows) =
         map_option f (find (\<lambda>r. key r = k) rows)"
  using assms by (induction rows) (auto simp: tbl_update_def)

lemma find_key_update_other:
  assumes "\<And>r. key (f r) = key r" and "\<And>r. key r = k \<Longrightarrow> \<not> P r"
  shows "find (\<lambda>r. key r = k) (tbl_update P f rows) = find (\<lambda>r. key r = k) rows"
  using assms by (induction rows) (auto simp: tbl_update_def)

lemma find_keyed:
  assumes "keyed key rows" and "r \<in> set rows"
  shows "find (\<lambda>x. key x = key r) rows = Some r"
  using assms by (induction rows) (auto simp: keyed_def)

lemma find_append [tbl_simps]: "find P (xs @ ys) = orElse (find P xs) (find P ys)"
  by (induction xs) auto

lemma find_sorted_least:
  assumes "sorted (map f xs)" "find P xs = Some r" "y \<in> set xs" "P y"
  shows "f r \<le> f y"
  using assms by (induction xs) (auto split: if_splits)

lemma filter_keyed:
  assumes "keyed key rows" and "r \<in> set rows"
  shows "filter (\<lambda>x. key x = key r) rows = [r]"
  using assms
proof (induction rows)
  case (Cons a rows)
  show ?case
  proof (cases "r = a")
    case True
    with Cons.prems(1) have "filter (\<lambda>x. key x = key r) rows = []"
      by (auto simp: keyed_def filter_empty_conv image_iff)
    with True show ?thesis by simp
  next
    case False
    with Cons show ?thesis by (auto simp: keyed_def image_iff)
  qed
qed simp

text \<open>\<open>[...new Set(xs)]\<close>: the elements in the order of their first occurrence.\<close>

fun uniq :: "'a list \<Rightarrow> 'a list" where
  "uniq [] = []"
| "uniq (x # xs) = x # filter (\<lambda>y. y \<noteq> x) (uniq xs)"

lemma set_uniq [simp]: "set (uniq xs) = set xs"
  by (induction xs) auto

lemma distinct_uniq [simp]: "distinct (uniq xs)"
  by (induction xs) auto

lemma uniq_eq_Nil [simp]: "uniq xs = [] \<longleftrightarrow> xs = []"
  by (cases xs) auto

section \<open>Interfaces\<close>

text \<open>
  A cascade: \<open>pick l\<close> is what layer \<open>l\<close> sets, \<open>resolve\<close> folds the layers from the outermost
  to the innermost one. The two laws say how one more inner layer acts.
\<close>

locale layered_override =
  fixes pick :: "'l \<Rightarrow> 'v option" and base :: 'v and resolve :: "'l list \<Rightarrow> 'v"
  assumes resolve_Nil: "resolve [] = base"
    and resolve_snoc: "resolve (ls @ [l]) = (case pick l of None \<Rightarrow> resolve ls | Some v \<Rightarrow> v)"
begin

lemma resolve_silent:
  assumes "\<forall>l \<in> set inner. pick l = None"
  shows "resolve (outer @ inner) = resolve outer"
  using assms
proof (induction inner rule: rev_induct)
  case Nil
  then show ?case by simp
next
  case (snoc l ls)
  then show ?case using resolve_snoc [of "outer @ ls" l] by simp
qed

lemma innermost_wins:
  assumes "pick l = Some v" and "\<forall>m \<in> set inner. pick m = None"
  shows "resolve (outer @ l # inner) = v"
proof -
  have "resolve ((outer @ [l]) @ inner) = resolve (outer @ [l])"
    using assms(2) by (rule resolve_silent)
  then show ?thesis using assms(1) resolve_snoc [of outer l] by simp
qed

lemma nobody_sets: "\<forall>l \<in> set ls. pick l = None \<Longrightarrow> resolve ls = base"
  using resolve_silent [of ls "[]"] by (simp add: resolve_Nil)

lemma resolve_find:
  "resolve ls = (case find (\<lambda>l. pick l \<noteq> None) (rev ls) of None \<Rightarrow> base | Some l \<Rightarrow> the (pick l))"
proof (induction ls rule: rev_induct)
  case Nil
  then show ?case by (simp add: resolve_Nil)
next
  case (snoc l ls)
  then show ?case by (auto simp: resolve_snoc split: option.split)
qed

lemma resolve_filter: "resolve (filter (\<lambda>l. pick l \<noteq> None) ls) = resolve ls"
proof (induction ls rule: rev_induct)
  case Nil
  then show ?case by simp
next
  case (snoc l ls)
  then show ?case by (auto simp: resolve_snoc split: option.split)
qed

end

text \<open>
  A machine whose steps keep an invariant. \<open>step\<close> is the step relation of one component; the
  client gets the invariant on every state reached from a good one.
\<close>

locale guarded_machine =
  fixes inv :: "'s \<Rightarrow> bool" and step :: "'s \<Rightarrow> 's \<Rightarrow> bool"
  assumes step_inv: "inv s \<Longrightarrow> step s t \<Longrightarrow> inv t"
begin

lemma reach_inv: "step\<^sup>*\<^sup>* s t \<Longrightarrow> inv s \<Longrightarrow> inv t"
  by (induction rule: rtranclp_induct) (auto intro: step_inv)

end

text \<open>
  Grants that expire and can be revoked: \<open>active s t k\<close> says that the grant for \<open>k\<close> is honoured at time \<open>t\<close>.
\<close>

locale grant_store =
  fixes active :: "'s \<Rightarrow> int \<Rightarrow> 'k \<Rightarrow> bool" and grant :: "'s \<Rightarrow> int \<Rightarrow> 'k \<Rightarrow> 's" and revoke :: "'s \<Rightarrow> 'k \<Rightarrow> 's"
  assumes revoked: "\<not> active (revoke s k) t k"
    and grant_other: "k' \<noteq> k \<Longrightarrow> active (grant s t0 k) t k' = active s t k'"
begin

lemma grants_other: "k \<notin> snd ` set gs \<Longrightarrow> active (foldl (\<lambda>s g. grant s (fst g) (snd g)) s gs) t k = active s t k"
  by (induction gs arbitrary: s) (auto simp: grant_other)

lemma revoked_until_granted: "k \<notin> snd ` set gs \<Longrightarrow> \<not> active (foldl (\<lambda>s g. grant s (fst g) (snd g)) (revoke s k) gs) t k"
  by (simp add: grants_other revoked)

end

end
