(* ===== verification/Threshold_Cascade.thy ===== *)
theory Threshold_Cascade
  imports Obl_Prelude
begin

text \<open>
  The metric-threshold cascade (\<^verbatim>\<open>server/src/services/thresholdCascade.ts\<close>, its types and
  \<^verbatim>\<open>isMountNotified\<close> in \<^verbatim>\<open>shared/src/types.ts\<close>) and the metric section of
  \<^verbatim>\<open>handlePush\<close> (\<^verbatim>\<open>device.service.ts\<close>) that drives it: resolution of the layers,
  evaluation of one push, the alert switch, the transition plan and the silent re-baseline.
\<close>

section \<open>Data\<close>

datatype metric_kind = Disk | Cpu | Ram

datatype threshold_layer = LSystem | LGlobal | LTenant | LGroup | LDevice

record threshold_origin =
  o_layer :: threshold_layer
  o_id :: "nat option"
  o_name :: "string option"

record metric_threshold =
  mt_warn :: "rat jsprop"
  mt_crit :: "rat jsprop"
  mt_notify :: "bool jsprop"

record metric_thresholds =
  mts_disk :: "metric_threshold option"
  mts_cpu :: "metric_threshold option"
  mts_ram :: "metric_threshold option"
  mts_byMount :: "(string \<times> metric_threshold option) list option"

record cascade_layer =
  cl_origin :: threshold_origin
  cl_thresholds :: "metric_thresholds option"
  cl_values :: bool

record resolved_metric =
  rm_warn :: rat
  rm_crit :: rat
  rm_notify :: bool
  rm_o_warn :: threshold_origin
  rm_o_crit :: threshold_origin
  rm_o_notify :: threshold_origin

record resolved_thresholds =
  rt_disk :: resolved_metric
  rt_cpu :: resolved_metric
  rt_ram :: resolved_metric
  rt_byMount :: "string \<Rightarrow> resolved_metric option"

datatype metric_level = Ok | Warning | Critical

fun metric_severity :: "metric_level \<Rightarrow> nat" where
  "metric_severity Ok = 0"
| "metric_severity Warning = 1"
| "metric_severity Critical = 2"

text \<open>The levels are ordered by \<open>METRIC_SEVERITY\<close>.\<close>

instantiation metric_level :: linorder
begin

definition less_eq_metric_level :: "metric_level \<Rightarrow> metric_level \<Rightarrow> bool" where
  "less_eq_metric_level a b \<longleftrightarrow> metric_severity a \<le> metric_severity b"

definition less_metric_level :: "metric_level \<Rightarrow> metric_level \<Rightarrow> bool" where
  "less_metric_level a b \<longleftrightarrow> metric_severity a < metric_severity b"

instance
proof
  fix x y :: metric_level
  show "x \<le> y \<Longrightarrow> y \<le> x \<Longrightarrow> x = y"
    by (cases x; cases y) (simp_all add: less_eq_metric_level_def)
qed (auto simp: less_eq_metric_level_def less_metric_level_def)

end

lemma level_le_simps [simp]:
  "Ok \<le> x" "x \<le> Critical" "Warning \<le> Critical" "\<not> Warning \<le> Ok" "\<not> Critical \<le> x \<longleftrightarrow> x \<noteq> Critical"
  "x \<le> Ok \<longleftrightarrow> x = Ok" "Warning \<le> x \<longleftrightarrow> x \<noteq> Ok"
  by (cases x; simp add: less_eq_metric_level_def)+

record metric_breach =
  b_metric :: metric_kind
  b_percent :: rat
  b_level :: metric_level
  b_mount :: "string option"

record disk_metric =
  d_mount :: "string option"
  d_percent :: "jsnum option"
  d_fstype :: "string option"
  d_removable :: "bool option"

record push_metrics =
  pm_cpu :: "jsnum option"
  pm_memory :: "jsnum option"
  pm_disks :: "disk_metric option list option"

section \<open>Resolution of the layers\<close>

definition system_origin :: threshold_origin where
  "system_origin = \<lparr>o_layer = LSystem, o_id = None, o_name = None\<rparr>"

fun sys_warn :: "metric_kind \<Rightarrow> rat" where
  "sys_warn Disk = 85"
| "sys_warn Cpu = 80"
| "sys_warn Ram = 80"

fun sys_crit :: "metric_kind \<Rightarrow> rat" where
  "sys_crit k = 95"

fun mts_slot :: "metric_kind \<Rightarrow> metric_thresholds \<Rightarrow> metric_threshold option" where
  "mts_slot Disk t = mts_disk t"
| "mts_slot Cpu t = mts_cpu t"
| "mts_slot Ram t = mts_ram t"

definition layer_slot :: "metric_kind \<Rightarrow> cascade_layer \<Rightarrow> metric_threshold option" where
  "layer_slot k l = Option.bind (cl_thresholds l) (mts_slot k)"

definition slot_init :: "metric_kind \<Rightarrow> resolved_metric" where
  "slot_init k = \<lparr>rm_warn = sys_warn k, rm_crit = sys_crit k, rm_notify = True,
     rm_o_warn = system_origin, rm_o_crit = system_origin, rm_o_notify = system_origin\<rparr>"

definition slot_step :: "metric_kind \<Rightarrow> resolved_metric \<Rightarrow> cascade_layer \<Rightarrow> resolved_metric" where
  "slot_step k acc l =
     (case layer_slot k l of
        None \<Rightarrow> acc
      | Some t \<Rightarrow>
          let acc1 = (case mt_warn t of
                        Val w \<Rightarrow> if cl_values l then acc\<lparr>rm_warn := w, rm_o_warn := cl_origin l\<rparr> else acc
                      | _ \<Rightarrow> acc);
              acc2 = (case mt_crit t of
                        Val c \<Rightarrow> if cl_values l then acc1\<lparr>rm_crit := c, rm_o_crit := cl_origin l\<rparr> else acc1
                      | _ \<Rightarrow> acc1)
          in (case mt_notify t of
                Val b \<Rightarrow> acc2\<lparr>rm_notify := b, rm_o_notify := cl_origin l\<rparr>
              | _ \<Rightarrow> acc2))"

definition resolveSlot :: "metric_kind \<Rightarrow> cascade_layer list \<Rightarrow> resolved_metric" where
  "resolveSlot k layers = foldl (slot_step k) (slot_init k) layers"

text \<open>
  Per-mount accumulator. \<open>values\<close> and \<open>valuesOrigin\<close> are always written together, so they are
  one optional pair.
\<close>

record mount_acc =
  ma_values :: "(metric_threshold \<times> threshold_origin) option"
  ma_notify :: bool
  ma_notifyOrigin :: threshold_origin

definition newAcc :: mount_acc where
  "newAcc = \<lparr>ma_values = None, ma_notify = True, ma_notifyOrigin = system_origin\<rparr>"

definition only_notify :: "metric_threshold \<Rightarrow> bool" where
  "only_notify e \<longleftrightarrow> mt_warn e = Absent \<and> mt_crit e = Absent \<and> mt_notify e \<noteq> Absent"

definition mount_entry ::
    "cascade_layer \<Rightarrow> metric_threshold \<Rightarrow> mount_acc option \<Rightarrow> mount_acc option" where
  "mount_entry l e acc0 =
     (let acc1 = (if cl_values l \<and> \<not> only_notify e
                  then Some ((case acc0 of None \<Rightarrow> newAcc | Some a \<Rightarrow> a)
                               \<lparr>ma_values := Some (e, cl_origin l)\<rparr>)
                  else acc0)
      in case mt_notify e of
           Val b \<Rightarrow> Some ((case acc1 of None \<Rightarrow> newAcc | Some a \<Rightarrow> a)
                            \<lparr>ma_notify := b, ma_notifyOrigin := cl_origin l\<rparr>)
         | _ \<Rightarrow> acc1)"

fun mount_entries ::
    "cascade_layer \<Rightarrow> (string \<times> metric_threshold option) list \<Rightarrow>
     (string \<Rightarrow> mount_acc option) \<Rightarrow> (string \<Rightarrow> mount_acc option)" where
  "mount_entries l [] mounts = mounts"
| "mount_entries l ((m, None) # es) mounts = mount_entries l es mounts"
| "mount_entries l ((m, Some e) # es) mounts =
     mount_entries l es (mounts(m := mount_entry l e (mounts m)))"

definition layer_mounts :: "cascade_layer \<Rightarrow> (string \<times> metric_threshold option) list" where
  "layer_mounts l = (case Option.bind (cl_thresholds l) mts_byMount of None \<Rightarrow> [] | Some es \<Rightarrow> es)"

definition resolveMounts :: "cascade_layer list \<Rightarrow> (string \<Rightarrow> mount_acc option)" where
  "resolveMounts layers = foldl (\<lambda>m l. mount_entries l (layer_mounts l) m) (\<lambda>_. None) layers"

definition mount_result :: "resolved_metric \<Rightarrow> mount_acc \<Rightarrow> resolved_metric" where
  "mount_result disk acc =
     (let ownWarn = Option.bind (ma_values acc) (\<lambda>(v, org). map_option (\<lambda>w. (w, org)) (field_opt (mt_warn v)));
          ownCrit = Option.bind (ma_values acc) (\<lambda>(v, org). map_option (\<lambda>c. (c, org)) (field_opt (mt_crit v)))
      in \<lparr>rm_warn = (case ownWarn of Some (w, _) \<Rightarrow> w | None \<Rightarrow> rm_warn disk),
          rm_crit = (case ownCrit of Some (c, _) \<Rightarrow> c | None \<Rightarrow> rm_crit disk),
          rm_notify = ma_notify acc,
          rm_o_warn = (case ownWarn of Some (_, org) \<Rightarrow> org | None \<Rightarrow> rm_o_warn disk),
          rm_o_crit = (case ownCrit of Some (_, org) \<Rightarrow> org | None \<Rightarrow> rm_o_crit disk),
          rm_o_notify = ma_notifyOrigin acc\<rparr>)"

definition resolveCascade :: "cascade_layer list \<Rightarrow> resolved_thresholds" where
  "resolveCascade layers =
     (let disk = resolveSlot Disk layers
      in \<lparr>rt_disk = disk, rt_cpu = resolveSlot Cpu layers, rt_ram = resolveSlot Ram layers,
          rt_byMount = (\<lambda>m. map_option (mount_result disk) (resolveMounts layers m))\<rparr>)"

section \<open>Evaluation of one push\<close>

text \<open>The mount test \<^verbatim>\<open>/^\/(media|mnt|run\/media)(\/|$)/\<close>.\<close>

definition mounted_under :: "string \<Rightarrow> string \<Rightarrow> bool" where
  "mounted_under p mount \<longleftrightarrow> mount = p \<or> starts_with (p @ ''/'') mount"

definition isExcludedDisk :: "disk_metric \<Rightarrow> bool" where
  "isExcludedDisk d =
     (if d_removable d = Some True then True
      else let fs = to_lower (case d_fstype d of None \<Rightarrow> [] | Some f \<Rightarrow> f);
               mount = (case d_mount d of None \<Rightarrow> [] | Some m \<Rightarrow> m)
           in if fs = ''iso9660'' \<or> fs = ''udf'' \<or> fs = ''cdfs'' then True
              else if mounted_under ''/media'' mount \<or> mounted_under ''/mnt'' mount
                      \<or> mounted_under ''/run/media'' mount then True
              else starts_with ''/Volumes/'' mount)"

fun worst_loop :: "metric_level \<Rightarrow> metric_breach list \<Rightarrow> metric_level" where
  "worst_loop st [] = st"
| "worst_loop st (b # bs) =
     (if b_level b = Critical then Critical
      else worst_loop (if b_level b = Warning then Warning else st) bs)"

definition worstLevel :: "metric_breach list \<Rightarrow> metric_level" where
  "worstLevel bs = worst_loop Ok bs"

definition evalAgainst ::
    "metric_kind \<Rightarrow> jsnum option \<Rightarrow> resolved_metric \<Rightarrow> string option \<Rightarrow> metric_breach list" where
  "evalAgainst k pct t mount =
     (case pct of
        Some (Fin p) \<Rightarrow>
          (if p \<ge> rm_crit t
           then [\<lparr>b_metric = k, b_percent = p, b_level = Critical, b_mount = mount\<rparr>]
           else if p \<ge> rm_warn t
           then [\<lparr>b_metric = k, b_percent = p, b_level = Warning, b_mount = mount\<rparr>]
           else [])
      | _ \<Rightarrow> [])"

definition mount_threshold :: "resolved_thresholds \<Rightarrow> string option \<Rightarrow> resolved_metric" where
  "mount_threshold th mount =
     (case mount of
        None \<Rightarrow> rt_disk th
      | Some m \<Rightarrow> if m = [] then rt_disk th
                  else (case rt_byMount th m of Some t \<Rightarrow> t | None \<Rightarrow> rt_disk th))"

definition disk_breaches :: "resolved_thresholds \<Rightarrow> disk_metric option \<Rightarrow> metric_breach list" where
  "disk_breaches th d =
     (case d of
        None \<Rightarrow> []
      | Some dm \<Rightarrow> if isExcludedDisk dm then []
                   else evalAgainst Disk (d_percent dm) (mount_threshold th (d_mount dm)) (d_mount dm))"

definition computeMetricStatus ::
    "push_metrics option \<Rightarrow> resolved_thresholds \<Rightarrow> metric_level \<times> metric_breach list" where
  "computeMetricStatus metrics th =
     (case metrics of
        None \<Rightarrow> (Ok, [])
      | Some m \<Rightarrow>
          let breaches = evalAgainst Cpu (pm_cpu m) (rt_cpu th) None
                @ evalAgainst Ram (pm_memory m) (rt_ram th) None
                @ (case pm_disks m of None \<Rightarrow> [] | Some ds \<Rightarrow> concat (map (disk_breaches th) ds))
          in (worstLevel breaches, breaches))"

definition isMountNotified :: "resolved_thresholds \<Rightarrow> string option \<Rightarrow> bool" where
  "isMountNotified r mount =
     (if \<not> rm_notify (rt_disk r) then False
      else case mount of
             None \<Rightarrow> True
           | Some m \<Rightarrow> if m = [] then True
                       else (case rt_byMount r m of None \<Rightarrow> True | Some t \<Rightarrow> rm_notify t))"

fun breach_notified :: "resolved_thresholds \<Rightarrow> metric_breach \<Rightarrow> bool" where
  "breach_notified th b =
     (case b_metric b of
        Cpu \<Rightarrow> rm_notify (rt_cpu th)
      | Ram \<Rightarrow> rm_notify (rt_ram th)
      | Disk \<Rightarrow> isMountNotified th (b_mount b))"

definition filterNotifiedBreaches ::
    "metric_breach list \<Rightarrow> resolved_thresholds \<Rightarrow> metric_breach list" where
  "filterNotifiedBreaches bs th = filter (breach_notified th) bs"

section \<open>Transitions\<close>

definition becameBad :: "metric_level option \<Rightarrow> metric_level \<Rightarrow> bool" where
  "becameBad prev nxt \<longleftrightarrow>
     nxt \<noteq> Ok \<and> (prev = None \<or> prev = Some Ok \<or> (prev = Some Warning \<and> nxt = Critical))"

definition recovered :: "metric_level option \<Rightarrow> metric_level \<Rightarrow> bool" where
  "recovered prev nxt \<longleftrightarrow> nxt = Ok \<and> prev \<noteq> Some Ok \<and> prev \<noteq> None"

definition levelTransition :: "metric_level option \<Rightarrow> metric_level \<Rightarrow> bool \<times> bool" where
  "levelTransition prev nxt = (becameBad prev nxt, recovered prev nxt)"

datatype notify_kind = Alert | Recovery

record metric_plan =
  pl_status :: "metric_level option"
  pl_alert_status :: "metric_level option"
  pl_prevAlert :: "metric_level option"
  pl_notify :: "notify_kind option"
  pl_trigger :: bool

definition planMetricTransitions ::
    "metric_level option \<Rightarrow> metric_level option \<Rightarrow> metric_level \<Rightarrow> metric_level \<Rightarrow> bool \<Rightarrow> metric_plan" where
  "planMetricTransitions prevMetric rawPrevAlert metric alert evaluated =
     (let prevAlert = orElse rawPrevAlert prevMetric
      in \<lparr>pl_status = (if prevMetric \<noteq> Some metric then Some metric else None),
          pl_alert_status = (if rawPrevAlert \<noteq> Some alert then Some alert else None),
          pl_prevAlert = prevAlert,
          pl_notify = (if evaluated \<and> prevAlert \<noteq> Some alert
                       then (case levelTransition prevAlert alert of
                               (bad, rec) \<Rightarrow> if bad then Some Alert else if rec then Some Recovery else None)
                       else None),
          pl_trigger = (evaluated \<and> prevMetric \<noteq> Some metric \<and> fst (levelTransition prevMetric metric))\<rparr>)"

definition rebaselineAlertLevel ::
    "metric_level \<Rightarrow> metric_level \<Rightarrow> metric_level \<Rightarrow> metric_level option" where
  "rebaselineAlertLevel prevAlert alertLevel fullLevel =
     (if metric_severity alertLevel \<ge> metric_severity prevAlert then None
      else if fullLevel = Ok then None
      else Some alertLevel)"

definition inlineRebaselinePrevAlert ::
    "metric_level option \<Rightarrow> metric_level \<Rightarrow> push_metrics option \<Rightarrow> resolved_thresholds \<Rightarrow> metric_level option" where
  "inlineRebaselinePrevAlert storedPrevAlert alert prevMetrics th =
     (case (storedPrevAlert, prevMetrics) of
        (Some stored, Some pm) \<Rightarrow>
          (if metric_severity alert \<ge> metric_severity stored then None
           else let prevFull = computeMetricStatus (Some pm) th;
                    prevAlertable = worstLevel (filterNotifiedBreaches (snd prevFull) th)
                in rebaselineAlertLevel stored prevAlertable (fst prevFull))
      | _ \<Rightarrow> None)"

text \<open>
  The metric section of \<^verbatim>\<open>handlePush\<close>. \<open>ms_*\<close> are the columns \<^verbatim>\<open>last_metric_status\<close>,
  \<^verbatim>\<open>last_metric_alert_status\<close> and \<^verbatim>\<open>latest_metrics\<close> of the device row. The argument \<open>th\<close> is the
  result of the threshold resolution; \<open>None\<close> stands for the switch being off or the resolution
  failing. A push without metrics is never evaluated.
\<close>

record metric_state =
  ms_metric :: "metric_level option"
  ms_alert :: "metric_level option"
  ms_latest :: "push_metrics option"

record push_effects =
  pe_notify :: "notify_kind option"
  pe_trigger :: bool
  pe_resolve_muted :: bool
  pe_breaches :: "metric_breach list"

definition alertsEnabled :: "bool option \<Rightarrow> bool option \<Rightarrow> bool" where
  "alertsEnabled device_flag group_flag =
     (case device_flag of Some b \<Rightarrow> b | None \<Rightarrow> (case group_flag of Some b \<Rightarrow> b | None \<Rightarrow> True))"

definition metric_push ::
    "metric_state \<Rightarrow> push_metrics option \<Rightarrow> resolved_thresholds option \<Rightarrow> metric_state \<times> push_effects" where
  "metric_push s metrics th0 =
     (let th = (if metrics = None then None else th0);
          r = (case th of None \<Rightarrow> (Ok, []) | Some t \<Rightarrow> computeMetricStatus metrics t);
          metricStatus = fst r;
          alertBreaches = (case th of None \<Rightarrow> [] | Some t \<Rightarrow> filterNotifiedBreaches (snd r) t);
          alertStatus = worstLevel alertBreaches;
          rebased = (case th of
                       None \<Rightarrow> None
                     | Some t \<Rightarrow> inlineRebaselinePrevAlert (orElse (ms_alert s) (ms_metric s)) alertStatus (ms_latest s) t);
          effRawPrevAlert = orElse rebased (ms_alert s);
          plan = planMetricTransitions (ms_metric s) effRawPrevAlert metricStatus alertStatus (th \<noteq> None);
          alertUpdate = (if rebased \<noteq> None then Some alertStatus else pl_alert_status plan);
          prevAlertLevel = orElse effRawPrevAlert (ms_metric s);
          levelsResetUnevaluated = (th = None \<and> (prevAlertLevel = Some Warning \<or> prevAlertLevel = Some Critical))
      in (\<lparr>ms_metric = orElse (pl_status plan) (ms_metric s),
           ms_alert = orElse alertUpdate (ms_alert s),
           ms_latest = orElse metrics (ms_latest s)\<rparr>,
          \<lparr>pe_notify = (if th \<noteq> None then pl_notify plan else None),
           pe_trigger = pl_trigger plan,
           pe_resolve_muted = (rebased = Some Ok \<or> levelsResetUnevaluated),
           pe_breaches = alertBreaches\<rparr>))"

section \<open>The cascade picks the innermost layer\<close>

definition pick_warn :: "metric_kind \<Rightarrow> cascade_layer \<Rightarrow> (rat \<times> threshold_origin) option" where
  "pick_warn k l =
     (if cl_values l
      then Option.bind (layer_slot k l) (\<lambda>t. map_option (\<lambda>w. (w, cl_origin l)) (field_opt (mt_warn t)))
      else None)"

definition pick_crit :: "metric_kind \<Rightarrow> cascade_layer \<Rightarrow> (rat \<times> threshold_origin) option" where
  "pick_crit k l =
     (if cl_values l
      then Option.bind (layer_slot k l) (\<lambda>t. map_option (\<lambda>c. (c, cl_origin l)) (field_opt (mt_crit t)))
      else None)"

definition pick_notify :: "metric_kind \<Rightarrow> cascade_layer \<Rightarrow> (bool \<times> threshold_origin) option" where
  "pick_notify k l =
     Option.bind (layer_slot k l) (\<lambda>t. map_option (\<lambda>b. (b, cl_origin l)) (field_opt (mt_notify t)))"

lemmas pick_defs = pick_warn_def pick_crit_def pick_notify_def

text \<open>The specification of a cascade: the last layer that sets the slot, else the default.\<close>

definition innermost :: "('l \<Rightarrow> 'v option) \<Rightarrow> 'v \<Rightarrow> 'l list \<Rightarrow> 'v" where
  "innermost pick base ls =
     (case find (\<lambda>l. pick l \<noteq> None) (rev ls) of None \<Rightarrow> base | Some l \<Rightarrow> the (pick l))"

lemma resolveSlot_snoc: "resolveSlot k (ls @ [l]) = slot_step k (resolveSlot k ls) l"
  by (simp add: resolveSlot_def)

interpretation warn_slot: layered_override "pick_warn k" "(sys_warn k, system_origin)"
    "\<lambda>ls. (rm_warn (resolveSlot k ls), rm_o_warn (resolveSlot k ls))" for k
  by unfold_locales
    (auto simp: resolveSlot_def slot_init_def slot_step_def pick_defs Let_def
          split: option.splits jsprop.splits)

interpretation crit_slot: layered_override "pick_crit k" "(sys_crit k, system_origin)"
    "\<lambda>ls. (rm_crit (resolveSlot k ls), rm_o_crit (resolveSlot k ls))" for k
  by unfold_locales
    (auto simp: resolveSlot_def slot_init_def slot_step_def pick_defs Let_def
          split: option.splits jsprop.splits)

interpretation notify_slot: layered_override "pick_notify k" "(True, system_origin)"
    "\<lambda>ls. (rm_notify (resolveSlot k ls), rm_o_notify (resolveSlot k ls))" for k
  by unfold_locales
    (auto simp: resolveSlot_def slot_init_def slot_step_def pick_defs Let_def
          split: option.splits jsprop.splits)

text \<open>
  Slot by slot, the resolved warn, crit and alerts switch of a metric are those of the
  innermost layer that sets them (and carry that layer as their origin), the system default when
  no layer does; group ancestors take part in the alerts switch only.
\<close>

theorem resolveSlot_innermost:
  "(rm_warn (resolveSlot k ls), rm_o_warn (resolveSlot k ls)) =
     innermost (pick_warn k) (sys_warn k, system_origin) (filter cl_values ls) \<and>
   (rm_crit (resolveSlot k ls), rm_o_crit (resolveSlot k ls)) =
     innermost (pick_crit k) (sys_crit k, system_origin) (filter cl_values ls) \<and>
   (rm_notify (resolveSlot k ls), rm_o_notify (resolveSlot k ls)) =
     innermost (pick_notify k) (True, system_origin) ls"
proof -
  have "find (\<lambda>l. pick_warn k l \<noteq> None) (rev (filter cl_values ls)) = find (\<lambda>l. pick_warn k l \<noteq> None) (rev ls)"
    by (induction ls rule: rev_induct) (auto simp: pick_defs)
  moreover
  have "find (\<lambda>l. pick_crit k l \<noteq> None) (rev (filter cl_values ls)) = find (\<lambda>l. pick_crit k l \<noteq> None) (rev ls)"
    by (induction ls rule: rev_induct) (auto simp: pick_defs)
  ultimately show ?thesis
    using warn_slot.resolve_find [of k ls] crit_slot.resolve_find [of k ls] notify_slot.resolve_find [of k ls]
    by (simp add: innermost_def del: sys_crit.simps)
qed

section \<open>The alerts switch never changes the evaluation\<close>

text \<open>
  What is left of the layers when every alerts switch is erased: ancestors disappear, \<open>notify\<close>
  is removed, and so are the mount entries that carry nothing else.
\<close>

definition strip_metric :: "metric_threshold \<Rightarrow> metric_threshold" where
  "strip_metric t = t\<lparr>mt_notify := Absent\<rparr>"

definition strip_entries ::
    "(string \<times> metric_threshold option) list \<Rightarrow> (string \<times> metric_threshold option) list" where
  "strip_entries es =
     map (\<lambda>(m, e). (m, map_option strip_metric e))
       (filter (\<lambda>(m, e). case e of None \<Rightarrow> True | Some t \<Rightarrow> \<not> only_notify t) es)"

definition strip_thresholds :: "metric_thresholds \<Rightarrow> metric_thresholds" where
  "strip_thresholds t =
     \<lparr>mts_disk = map_option strip_metric (mts_disk t), mts_cpu = map_option strip_metric (mts_cpu t),
      mts_ram = map_option strip_metric (mts_ram t), mts_byMount = map_option strip_entries (mts_byMount t)\<rparr>"

definition strip_layer :: "cascade_layer \<Rightarrow> cascade_layer" where
  "strip_layer l = l\<lparr>cl_thresholds := map_option strip_thresholds (cl_thresholds l)\<rparr>"

definition without_switches :: "cascade_layer list \<Rightarrow> cascade_layer list" where
  "without_switches ls = map strip_layer (filter cl_values ls)"

lemma mts_slot_strip [simp]: "mts_slot k (strip_thresholds t) = map_option strip_metric (mts_slot k t)"
  by (cases k) (simp_all add: strip_thresholds_def)

lemma layer_slot_strip [simp]: "layer_slot k (strip_layer l) = map_option strip_metric (layer_slot k l)"
  by (cases "cl_thresholds l") (simp_all add: layer_slot_def strip_layer_def)

lemma strip_layer_sel [simp]:
  "cl_values (strip_layer l) = cl_values l" "cl_origin (strip_layer l) = cl_origin l"
  "layer_mounts (strip_layer l) = strip_entries (layer_mounts l)"
  by (simp_all add: strip_layer_def layer_mounts_def)
    (cases "cl_thresholds l"; simp add: strip_thresholds_def strip_entries_def split: option.split)

lemma strip_metric_sel [simp]:
  "mt_warn (strip_metric t) = mt_warn t" "mt_crit (strip_metric t) = mt_crit t"
  "mt_notify (strip_metric t) = Absent"
  by (simp_all add: strip_metric_def)

lemma pick_strip [simp]:
  "pick_warn k (strip_layer l) = pick_warn k l" "pick_crit k (strip_layer l) = pick_crit k l"
  by (cases "layer_slot k l"; simp add: pick_defs)+

lemma slot_without_switches:
  "rm_warn (resolveSlot k (without_switches ls)) = rm_warn (resolveSlot k ls)"
  "rm_crit (resolveSlot k (without_switches ls)) = rm_crit (resolveSlot k ls)"
proof (induction ls rule: rev_induct)
  case Nil
  { case 1 then show ?case by (simp add: without_switches_def) }
  { case 2 then show ?case by (simp add: without_switches_def) }
next
  case (snoc l ls)
  { case 1 then show ?case using snoc
      by (auto simp: without_switches_def resolveSlot_snoc slot_step_def Let_def
               split: option.splits jsprop.splits) }
  { case 2 then show ?case using snoc
      by (auto simp: without_switches_def resolveSlot_snoc slot_step_def Let_def
               split: option.splits jsprop.splits) }
qed

text \<open>The part of a mount accumulator the evaluation reads.\<close>

definition mount_values :: "mount_acc option \<Rightarrow> (rat jsprop \<times> rat jsprop) option" where
  "mount_values acc = Option.bind acc (\<lambda>a. map_option (\<lambda>(v, _). (mt_warn v, mt_crit v)) (ma_values a))"

lemma mount_values_entry:
  "mount_values (mount_entry l e acc) =
     (if cl_values l \<and> \<not> only_notify e then Some (mt_warn e, mt_crit e) else mount_values acc)"
  by (auto simp: mount_values_def mount_entry_def newAcc_def Let_def split: option.splits jsprop.splits)

lemma mount_values_ancestor:
  "\<not> cl_values l \<Longrightarrow> mount_values (mount_entries l es mounts m) = mount_values (mounts m)"
  by (induction l es mounts rule: mount_entries.induct) (auto simp: mount_values_entry)

lemma mount_values_strip:
  assumes "cl_values l" and "\<And>m. mount_values (M m) = mount_values (N m)"
  shows "mount_values (mount_entries (strip_layer l) (strip_entries es) M m) =
         mount_values (mount_entries l es N m)"
  using assms(2)
proof (induction es arbitrary: M N)
  case Nil
  then show ?case by (simp add: strip_entries_def)
next
  case (Cons p es)
  obtain x e where p: "p = (x, e)" by (cases p)
  show ?case
  proof (cases e)
    case None
    with Cons p show ?thesis by (simp add: strip_entries_def)
  next
    case (Some t)
    show ?thesis
    proof (cases "only_notify t")
      case True
      have "mount_values (mount_entries (strip_layer l) (strip_entries es) M m) =
            mount_values (mount_entries l es (N(x := mount_entry l t (N x))) m)"
        by (rule Cons.IH) (use Cons.prems True in \<open>simp add: mount_values_entry\<close>)
      with p Some True show ?thesis by (simp add: strip_entries_def)
    next
      case False
      then have "\<not> only_notify (strip_metric t)" by (simp add: only_notify_def)
      then have "mount_values (mount_entries (strip_layer l) (strip_entries es)
              (M(x := mount_entry (strip_layer l) (strip_metric t) (M x))) m) =
            mount_values (mount_entries l es (N(x := mount_entry l t (N x))) m)"
        by (intro Cons.IH) (use Cons.prems False assms(1) in \<open>simp add: mount_values_entry\<close>)
      with p Some False show ?thesis by (simp add: strip_entries_def)
    qed
  qed
qed

lemma resolveMounts_snoc:
  "resolveMounts (ls @ [l]) = mount_entries l (layer_mounts l) (resolveMounts ls)"
  by (simp add: resolveMounts_def)

lemma mount_values_without_switches:
  "mount_values (resolveMounts (without_switches ls) m) = mount_values (resolveMounts ls m)"
proof (induction ls arbitrary: m rule: rev_induct)
  case Nil
  then show ?case by (simp add: without_switches_def)
next
  case (snoc l ls)
  then show ?case
    by (cases "cl_values l")
      (simp_all add: without_switches_def resolveMounts_snoc mount_values_strip mount_values_ancestor)
qed

lemma mount_threshold_values:
  "rm_warn (mount_threshold (resolveCascade ls) mo) =
     (case mo of None \<Rightarrow> rm_warn (resolveSlot Disk ls)
      | Some m \<Rightarrow> if m = [] then rm_warn (resolveSlot Disk ls)
          else (case mount_values (resolveMounts ls m) of
                  Some (Val w, _) \<Rightarrow> w | _ \<Rightarrow> rm_warn (resolveSlot Disk ls)))"
  "rm_crit (mount_threshold (resolveCascade ls) mo) =
     (case mo of None \<Rightarrow> rm_crit (resolveSlot Disk ls)
      | Some m \<Rightarrow> if m = [] then rm_crit (resolveSlot Disk ls)
          else (case mount_values (resolveMounts ls m) of
                  Some (_, Val c) \<Rightarrow> c | _ \<Rightarrow> rm_crit (resolveSlot Disk ls)))"
  by (auto simp: mount_threshold_def resolveCascade_def mount_result_def mount_values_def Let_def
           split: option.splits prod.splits jsprop.splits)

lemma evalAgainst_cong:
  "rm_warn t = rm_warn t' \<Longrightarrow> rm_crit t = rm_crit t' \<Longrightarrow> evalAgainst k p t mo = evalAgainst k p t' mo"
  by (auto simp: evalAgainst_def split: option.splits jsnum.splits)

text \<open>
  C26. The alerts switch never changes the evaluation: erasing every \<open>notify\<close> flag of every layer
  (group ancestors, which carry nothing else, included) gives the same status and the same
  breaches for every push. In particular muting one mount never changes its thresholds.
\<close>

theorem switches_never_change_evaluation:
  "computeMetricStatus metrics (resolveCascade (without_switches ls)) =
   computeMetricStatus metrics (resolveCascade ls)"
proof -
  let ?a = "resolveCascade (without_switches ls)" and ?b = "resolveCascade ls"
  have disk: "disk_breaches ?a = disk_breaches ?b"
    by (rule ext) (auto simp: disk_breaches_def mount_threshold_values slot_without_switches
          mount_values_without_switches split: option.split jsprop.split intro!: evalAgainst_cong)
  have cpu: "evalAgainst Cpu p (rt_cpu ?a) None = evalAgainst Cpu p (rt_cpu ?b) None"
    and ram: "evalAgainst Ram p (rt_ram ?a) None = evalAgainst Ram p (rt_ram ?b) None" for p
    by (rule evalAgainst_cong; simp add: resolveCascade_def Let_def slot_without_switches)+
  show ?thesis
    by (simp add: computeMetricStatus_def disk cpu ram split: option.split)
qed

section \<open>Levels and transitions\<close>

lemma fold_max_Critical [simp]: "fold max xs Critical = Critical"
  by (induction xs) (simp_all add: max_def)

lemma worst_loop_max: "st \<noteq> Critical \<Longrightarrow> worst_loop st bs = fold max (map b_level bs) st"
proof (induction st bs rule: worst_loop.induct)
  case (1 st)
  then show ?case by simp
next
  case (2 st b bs)
  have "max (b_level b) st = (if b_level b = Critical then Critical else if b_level b = Warning \<and> st \<noteq> Critical
          then Warning else st)"
    by (cases "b_level b"; cases st) (simp_all add: max_def)
  with 2 show ?case by (cases "b_level b"; cases st) simp_all
qed

text \<open>
  C11. The level of a push is the greatest level among its breaches, \<open>ok\<close> when there is none.
\<close>

theorem worstLevel_Max: "worstLevel bs = Max (insert Ok (b_level ` set bs))"
proof -
  have "worstLevel bs = fold max (map b_level bs) Ok"
    by (simp add: worstLevel_def worst_loop_max)
  also have "\<dots> = Max (set (Ok # map b_level bs))"
    by (rule Max.set_eq_fold [symmetric])
  finally show ?thesis by simp
qed

lemma worstLevel_Nil [simp]: "worstLevel [] = Ok"
  by (simp add: worstLevel_def)

lemma worstLevel_attained:
  assumes "worstLevel bs \<noteq> Ok"
  shows "\<exists>b \<in> set bs. b_level b = worstLevel bs"
proof -
  have "fold max (map b_level bs) Ok = Ok \<or> (\<exists>b \<in> set bs. b_level b = fold max (map b_level bs) Ok)"
    by (induction bs rule: rev_induct) (auto simp: max_def)
  with assms show ?thesis by (simp add: worstLevel_def worst_loop_max)
qed

text \<open>The level in force before a push: the alert column, read as the full level when it is NULL.\<close>

definition stored_level :: "metric_state \<Rightarrow> metric_level option" where
  "stored_level s = orElse (ms_alert s) (ms_metric s)"

lemma metric_push_unevaluated:
  assumes "th = None \<or> metrics = None"
  shows "metric_push s metrics th =
    (\<lparr>ms_metric = Some Ok, ms_alert = Some Ok, ms_latest = orElse metrics (ms_latest s)\<rparr>,
     \<lparr>pe_notify = None, pe_trigger = False,
      pe_resolve_muted = (stored_level s \<in> {Some Warning, Some Critical}), pe_breaches = []\<rparr>)"
  using assms
  by (auto simp: metric_push_def planMetricTransitions_def stored_level_def Let_def orElse_def
           split: option.splits if_splits)

definition alert_breaches :: "push_metrics \<Rightarrow> resolved_thresholds \<Rightarrow> metric_breach list" where
  "alert_breaches m t = filterNotifiedBreaches (snd (computeMetricStatus (Some m) t)) t"

definition effective_prev :: "metric_state \<Rightarrow> push_metrics \<Rightarrow> resolved_thresholds \<Rightarrow> metric_level option" where
  "effective_prev s m t =
     orElse (inlineRebaselinePrevAlert (stored_level s) (worstLevel (alert_breaches m t)) (ms_latest s) t)
            (stored_level s)"

lemma metric_push_evaluated_state:
  "fst (metric_push s (Some m) (Some t)) =
     \<lparr>ms_metric = Some (fst (computeMetricStatus (Some m) t)),
      ms_alert = Some (worstLevel (alert_breaches m t)), ms_latest = Some m\<rparr>"
  by (auto simp: metric_push_def planMetricTransitions_def alert_breaches_def Let_def orElse_def
           split: option.splits if_splits)

lemma metric_push_evaluated_effects:
  "pe_breaches (snd (metric_push s (Some m) (Some t))) = alert_breaches m t"
  "pe_notify (snd (metric_push s (Some m) (Some t))) =
     (let p = effective_prev s m t; a = worstLevel (alert_breaches m t)
      in if p = Some a then None
         else if becameBad p a then Some Alert
         else if recovered p a then Some Recovery else None)"
  by (auto simp: metric_push_def planMetricTransitions_def alert_breaches_def effective_prev_def
        stored_level_def levelTransition_def Let_def orElse_def split: option.splits)

lemma rebase_lowers:
  "inlineRebaselinePrevAlert st a pm th = Some x \<Longrightarrow>
     \<exists>l. st = Some l \<and> l \<noteq> Ok \<and> metric_severity x < metric_severity l"
  by (auto simp: inlineRebaselinePrevAlert_def rebaselineAlertLevel_def Let_def not_le
           split: option.splits if_splits)

lemma effective_prev_bad:
  "effective_prev s m t \<in> {Some Warning, Some Critical} \<Longrightarrow> stored_level s \<in> {Some Warning, Some Critical}"
  by (auto simp: effective_prev_def orElse_def split: option.splits dest!: rebase_lowers)
    (metis metric_level.exhaust)+

text \<open>
  A muted metric never produces a false "back to normal": when the previous push, read with
  the current switches, still breaches a threshold but only on muted metrics, the push sends no
  recovery, whatever level is stored.
\<close>

theorem muted_no_false_recovery:
  assumes "ms_latest s = Some pm"
    and "fst (computeMetricStatus (Some pm) t) \<noteq> Ok"
    and "worstLevel (alert_breaches pm t) = Ok"
  shows "pe_notify (snd (metric_push s (Some m) (Some t))) \<noteq> Some Recovery"
proof
  let ?a = "worstLevel (alert_breaches m t)"
  assume "pe_notify (snd (metric_push s (Some m) (Some t))) = Some Recovery"
  then have a: "?a = Ok" and p: "effective_prev s m t \<noteq> Some Ok" "effective_prev s m t \<noteq> None"
    by (auto simp: metric_push_evaluated_effects Let_def recovered_def split: if_splits)
  obtain st where st: "stored_level s = Some st" "st \<noteq> Ok"
    using p by (auto simp: effective_prev_def orElse_def split: option.splits dest: rebase_lowers)
  have "metric_severity Ok < metric_severity st" using st(2) by (cases st) auto
  then have "inlineRebaselinePrevAlert (stored_level s) ?a (ms_latest s) t = Some Ok"
    using assms st a
    by (auto simp: inlineRebaselinePrevAlert_def rebaselineAlertLevel_def alert_breaches_def Let_def)
  with p show False by (simp add: effective_prev_def)
qed

text \<open>
  The inline re-baseline is a no-op when nothing was muted since the previous push: a push
  evaluated with the same thresholds as the one before it never re-bases the stored level.
\<close>

theorem rebaseline_noop_same_thresholds:
  "inlineRebaselinePrevAlert (stored_level (fst (metric_push s (Some m) (Some t)))) a
     (ms_latest (fst (metric_push s (Some m) (Some t)))) t = None"
  by (auto simp: metric_push_evaluated_state stored_level_def inlineRebaselinePrevAlert_def
        rebaselineAlertLevel_def alert_breaches_def Let_def)

text \<open>
  An alert is sent only for metrics whose alerts are on: the message lists at least one
  breach at the stored level, and every breach listed is one the switches let through.
\<close>

theorem alert_only_for_unmuted:
  assumes "pe_notify (snd (metric_push s (Some m) (Some t))) = Some Alert"
  shows "(\<exists>b \<in> set (pe_breaches (snd (metric_push s (Some m) (Some t)))).
            Some (b_level b) = ms_alert (fst (metric_push s (Some m) (Some t)))) \<and>
         (\<forall>b \<in> set (pe_breaches (snd (metric_push s (Some m) (Some t)))).
            breach_notified t b \<and> b \<in> set (snd (computeMetricStatus (Some m) t)))"
proof -
  from assms have "worstLevel (alert_breaches m t) \<noteq> Ok"
    by (auto simp: metric_push_evaluated_effects becameBad_def recovered_def Let_def split: if_splits)
  then obtain b where "b \<in> set (alert_breaches m t)" "b_level b = worstLevel (alert_breaches m t)"
    using worstLevel_attained by blast
  then show ?thesis
    by (auto simp: metric_push_evaluated_effects metric_push_evaluated_state alert_breaches_def
          filterNotifiedBreaches_def)
qed

text \<open>A run: the pushes of one device, each with the thresholds resolved for it.\<close>

type_synonym push_event = "push_metrics option \<times> resolved_thresholds option"

fun metric_run :: "metric_state \<Rightarrow> push_event list \<Rightarrow> notify_kind list" where
  "metric_run s [] = []"
| "metric_run s ((metrics, th) # evs) =
     (case metric_push s metrics th of
        (s', e) \<Rightarrow> (case pe_notify e of None \<Rightarrow> [] | Some n \<Rightarrow> [n]) @ metric_run s' evs)"

definition debt :: "metric_state \<Rightarrow> nat" where
  "debt s = (if stored_level s \<in> {Some Warning, Some Critical} then 1 else 0)"

lemma metric_push_debt:
  assumes "metric_push s metrics th = (s', e)"
  shows "(if pe_notify e = Some Recovery then 1 else 0) + debt s' \<le>
         (if pe_notify e = Some Alert then 1 else 0) + debt s"
proof (cases "th = None \<or> metrics = None")
  case True
  with assms show ?thesis by (auto simp: metric_push_unevaluated debt_def stored_level_def)
next
  case False
  then obtain m t where mt: "metrics = Some m" "th = Some t" by auto
  let ?a = "worstLevel (alert_breaches m t)" and ?p = "effective_prev s m t"
  have s': "stored_level s' = Some ?a"
    using assms mt metric_push_evaluated_state [of s m t] by (simp add: stored_level_def)
  have n: "pe_notify e = (if ?p = Some ?a then None else if becameBad ?p ?a then Some Alert
             else if recovered ?p ?a then Some Recovery else None)"
    using assms mt metric_push_evaluated_effects(2) [of s m t] by (simp add: Let_def)
  have bad: "?p \<in> {Some Warning, Some Critical} \<Longrightarrow> debt s = 1"
    using effective_prev_bad [of s m t] by (simp add: debt_def)
  show ?thesis
  proof (cases ?p)
    case None
    then show ?thesis using s' n by (cases ?a) (auto simp: debt_def becameBad_def recovered_def)
  next
    case (Some l)
    then show ?thesis using s' n bad
      by (cases ?a; cases l) (auto simp: debt_def becameBad_def recovered_def)
  qed
qed

lemma metric_run_balance:
  "count_list (metric_run s evs) Recovery \<le> count_list (metric_run s evs) Alert + debt s"
proof (induction evs arbitrary: s)
  case Nil
  then show ?case by simp
next
  case (Cons ev evs)
  obtain metrics th where ev: "ev = (metrics, th)" by (cases ev)
  obtain s' e where p: "metric_push s metrics th = (s', e)" by (cases "metric_push s metrics th")
  show ?case
    using Cons.IH [of s'] metric_push_debt [OF p] ev p
    by (cases "pe_notify e"; cases "the (pe_notify e)") auto
qed


section \<open>Witnesses\<close>

text \<open>A device whose CPU alerts are muted on its group, at 99 percent on the previous push.\<close>

definition ex_layer :: "bool \<Rightarrow> cascade_layer" where
  "ex_layer on = \<lparr>cl_origin = \<lparr>o_layer = LGroup, o_id = Some 7, o_name = Some ''servers''\<rparr>,
     cl_thresholds = Some \<lparr>mts_disk = None,
       mts_cpu = Some \<lparr>mt_warn = Val 70, mt_crit = Absent, mt_notify = Val on\<rparr>,
       mts_ram = None, mts_byMount = None\<rparr>,
     cl_values = True\<rparr>"

definition ex_cpu :: "rat \<Rightarrow> push_metrics" where
  "ex_cpu p = \<lparr>pm_cpu = Some (Fin p), pm_memory = None, pm_disks = None\<rparr>"

definition ex_state :: "metric_level \<Rightarrow> metric_state" where
  "ex_state l = \<lparr>ms_metric = Some l, ms_alert = Some l, ms_latest = Some (ex_cpu 99)\<rparr>"

lemmas ex_eval = ex_layer_def ex_cpu_def ex_state_def resolveCascade_def resolveSlot_def slot_init_def
  slot_step_def layer_slot_def computeMetricStatus_def evalAgainst_def worstLevel_def
  alert_breaches_def filterNotifiedBreaches_def stored_level_def Let_def

theorem muted_no_false_recovery_witness:
  "pe_notify (snd (metric_push (ex_state Critical) (Some (ex_cpu 20))
     (Some (resolveCascade [ex_layer False])))) \<noteq> Some Recovery"
  by (rule muted_no_false_recovery [where pm = "ex_cpu 99"]) (simp_all add: ex_eval)

theorem alert_only_for_unmuted_witness:
  "pe_notify (snd (metric_push (ex_state Ok) (Some (ex_cpu 99)) (Some (resolveCascade [ex_layer True])))) = Some Alert \<and>
   (\<exists>b \<in> set (pe_breaches (snd (metric_push (ex_state Ok) (Some (ex_cpu 99)) (Some (resolveCascade [ex_layer True]))))).
      Some (b_level b) = ms_alert (fst (metric_push (ex_state Ok) (Some (ex_cpu 99)) (Some (resolveCascade [ex_layer True])))))"
proof -
  let ?n = "pe_notify (snd (metric_push (ex_state Ok) (Some (ex_cpu 99)) (Some (resolveCascade [ex_layer True]))))"
  have n: "?n = Some Alert"
    by (simp add: metric_push_evaluated_effects effective_prev_def inlineRebaselinePrevAlert_def
          becameBad_def ex_eval)
  from alert_only_for_unmuted [OF n] n show ?thesis by blast
qed


end
