(* ===== verification/Forest.thy ===== *)
theory Forest
  imports Main
begin

text \<open>
  Parent relations without cycles, and how the ancestor chain of a node changes when one parent
  pointer is set. Used by the proofs about the device-group closure table.
\<close>

primrec nth_anc :: "('n \<Rightarrow> 'n option) \<Rightarrow> nat \<Rightarrow> 'n \<Rightarrow> 'n option" where
  "nth_anc par 0 d = Some d"
| "nth_anc par (Suc n) d = Option.bind (par d) (nth_anc par n)"

definition forest :: "'n set \<Rightarrow> ('n \<Rightarrow> 'n option) \<Rightarrow> bool" where
  "forest ids par \<longleftrightarrow>
     (\<forall>d p. par d = Some p \<longrightarrow> d \<in> ids \<and> p \<in> ids) \<and> (\<forall>d n. nth_anc par (Suc n) d \<noteq> Some d)"

definition subtree :: "('n \<Rightarrow> 'n option) \<Rightarrow> 'n \<Rightarrow> 'n set" where
  "subtree par g = {d. \<exists>n. nth_anc par n d = Some g}"

definition anc_spec :: "'n set \<Rightarrow> ('n \<Rightarrow> 'n option) \<Rightarrow> ('n \<times> 'n \<times> nat) set" where
  "anc_spec ids par = {(a, d, n). d \<in> ids \<and> nth_anc par n d = Some a}"

lemma nth_anc_add: "nth_anc par (m + n) d = Option.bind (nth_anc par m d) (nth_anc par n)"
  by (induction m arbitrary: d) (auto split: bind_split)

lemma forest_parent: "forest ids par \<Longrightarrow> par d = Some p \<Longrightarrow> d \<in> ids \<and> p \<in> ids"
  by (auto simp: forest_def)

lemma forest_acyclic: "forest ids par \<Longrightarrow> 0 < n \<Longrightarrow> nth_anc par n d \<noteq> Some d"
  by (cases n) (auto simp: forest_def simp del: nth_anc.simps)

lemma nth_anc_in: "forest ids par \<Longrightarrow> d \<in> ids \<Longrightarrow> nth_anc par n d = Some a \<Longrightarrow> a \<in> ids"
proof (induction n arbitrary: d)
  case 0
  then show ?case by simp
next
  case (Suc n)
  then show ?case by (auto split: bind_splits dest: forest_parent)
qed

lemma nth_anc_unique_le:
  assumes "forest ids par" "nth_anc par m d = Some a" "nth_anc par n d = Some a" "m \<le> n"
  shows "m = n"
proof (rule ccontr)
  assume "m \<noteq> n"
  with assms(4) obtain j where j: "n = m + j" "0 < j" by (metis le_iff_add less_add_eq_less add_0_right nat_neq_iff not_le zero_less_iff_neq_zero)
  with assms(2,3) have "nth_anc par j a = Some a" by (simp add: nth_anc_add)
  with forest_acyclic [OF assms(1) j(2)] show False by blast
qed

lemma nth_anc_unique:
  assumes "forest ids par" "nth_anc par m d = Some a" "nth_anc par n d = Some a"
  shows "m = n"
  using nth_anc_unique_le [OF assms] nth_anc_unique_le [OF assms(1,3,2)] by (cases "m \<le> n") auto

lemma nth_anc_upd_avoid:
  "(\<And>m. m < n \<Longrightarrow> nth_anc par m d \<noteq> Some g) \<Longrightarrow> nth_anc (par(g := x)) n d = nth_anc par n d"
proof (induction n arbitrary: d)
  case 0
  then show ?case by simp
next
  case (Suc n)
  from Suc.prems [of 0] have "d \<noteq> g" by simp
  moreover have "nth_anc (par(g := x)) n p = nth_anc par n p" if "par d = Some p" for p
  proof (rule Suc.IH)
    fix m assume "m < n"
    with Suc.prems [of "Suc m"] that show "nth_anc par m p \<noteq> Some g" by simp
  qed
  ultimately have "Option.bind ((par(g := x)) d) (nth_anc (par(g := x)) n) = Option.bind (par d) (nth_anc par n)"
    by (cases "par d") (simp_all del: fun_upd_apply add: fun_upd_other)
  then show ?case by (simp only: nth_anc.simps)
qed

lemma subtree_upd_outside: "d \<notin> subtree par g \<Longrightarrow> nth_anc (par(g := x)) n d = nth_anc par n d"
  by (rule nth_anc_upd_avoid) (auto simp: subtree_def)

lemma subtree_upd_below:
  assumes "forest ids par" "nth_anc par k d = Some g" "n \<le> k"
  shows "nth_anc (par(g := x)) n d = nth_anc par n d"
  by (rule nth_anc_upd_avoid) (use assms nth_anc_unique in fastforce)

lemma subtree_upd_above:
  assumes "forest ids par" "nth_anc par k d = Some g"
  shows "nth_anc (par(g := x)) (k + Suc n) d = Option.bind x (nth_anc (par(g := x)) n)"
proof -
  have "nth_anc (par(g := x)) k d = Some g" using assms by (simp add: subtree_upd_below)
  then show ?thesis by (simp only: nth_anc_add) simp
qed

lemma subtree_down: "nth_anc par n d = Some a \<Longrightarrow> a \<in> subtree par g \<Longrightarrow> d \<in> subtree par g"
  by (auto simp: subtree_def) (metis bind.bind_lunit nth_anc_add)

lemma subtree_cut:
  assumes "forest ids par" "nth_anc par k d = Some g" "nth_anc par n d = Some a"
  shows "a \<in> subtree par g \<longleftrightarrow> n \<le> k"
proof
  assume "n \<le> k"
  then have "nth_anc par (k - n) a = Some g"
    using assms(2,3) nth_anc_add [of par n "k - n" d] by simp
  then show "a \<in> subtree par g" by (auto simp: subtree_def)
next
  assume "a \<in> subtree par g"
  then obtain m where "nth_anc par m a = Some g" by (auto simp: subtree_def)
  with assms(3) have "nth_anc par (n + m) d = Some g" by (simp add: nth_anc_add)
  with assms(1,2) have "n + m = k" by (metis nth_anc_unique)
  then show "n \<le> k" by simp
qed

lemma forest_reparent:
  assumes f: "forest ids par" and g: "g \<in> ids"
    and x: "\<And>p. x = Some p \<Longrightarrow> p \<in> ids \<and> p \<notin> subtree par g"
  shows "forest ids (par(g := x))"
proof -
  have edge: "d \<in> ids \<and> p \<in> ids" if "(par(g := x)) d = Some p" for d p
    using that f g x by (cases "d = g") (auto dest: forest_parent)
  have "nth_anc (par(g := x)) (Suc n) d \<noteq> Some d" for d n
  proof (cases "d \<in> subtree par g")
    case False
    then show ?thesis using subtree_upd_outside forest_acyclic [OF f, of "Suc n" d] by (metis zero_less_Suc)
  next
    case True
    then obtain k where k: "nth_anc par k d = Some g" by (auto simp: subtree_def)
    show ?thesis
    proof (cases "Suc n \<le> k")
      case True
      then show ?thesis using subtree_upd_below [OF f k] forest_acyclic [OF f, of "Suc n" d] by (metis zero_less_Suc)
    next
      case above: False
      then obtain j where j: "Suc n = k + Suc j" by (metis Suc_diff_Suc le_add_diff_inverse less_imp_le not_le)
      show ?thesis
      proof
        assume "nth_anc (par(g := x)) (Suc n) d = Some d"
        then obtain p where p: "x = Some p" "nth_anc (par(g := x)) j p = Some d"
          unfolding j subtree_upd_above [OF f k] by (auto split: bind_splits)
        then have "nth_anc par j p = Some d" using x subtree_upd_outside by metis
        then have "p \<in> subtree par g" using \<open>d \<in> subtree par g\<close> by (rule subtree_down)
        with x p show False by blast
      qed
    qed
  qed
  with edge show ?thesis unfolding forest_def by blast
qed

text \<open>Adding a fresh node below \<open>x\<close>.\<close>

lemma fresh_not_reached:
  assumes "forest ids par" "g \<notin> ids" "d \<in> ids"
  shows "d \<notin> subtree par g"
  using assms nth_anc_in by (fastforce simp: subtree_def)

lemma forest_insert:
  assumes f: "forest ids par" and g: "g \<notin> ids" and x: "\<And>p. x = Some p \<Longrightarrow> p \<in> ids"
  shows "forest (insert g ids) (par(g := x))"
proof (rule forest_reparent)
  show "forest (insert g ids) par" using f by (auto simp: forest_def)
  show "p \<in> insert g ids \<and> p \<notin> subtree par g" if "x = Some p" for p
    using x [OF that] fresh_not_reached [OF f g] by auto
qed simp

lemma anc_spec_insert:
  assumes f: "forest ids par" and g: "g \<notin> ids" and x: "\<And>p. x = Some p \<Longrightarrow> p \<in> ids"
  shows "anc_spec (insert g ids) (par(g := x)) =
    anc_spec ids par \<union> {(g, g, 0)} \<union>
    {(a, g, Suc n) | a n. \<exists>p. x = Some p \<and> nth_anc par n p = Some a}"
proof -
  have old: "nth_anc (par(g := x)) n d = nth_anc par n d" if "d \<in> ids" for n d
    using fresh_not_reached [OF f g that] by (rule subtree_upd_outside)
  have new: "nth_anc (par(g := x)) n g = Some a \<longleftrightarrow>
      (n = 0 \<and> a = g) \<or> (\<exists>m p. n = Suc m \<and> x = Some p \<and> nth_anc par m p = Some a)" for n a
    using x old by (cases n; cases x) auto
  have "g = d \<or> d \<in> ids \<longleftrightarrow> d \<in> ids \<or> d = g \<and> d \<notin> ids" for d by auto
  show ?thesis
  proof (intro set_eqI, clarify)
    fix a d n
    show "(a, d, n) \<in> anc_spec (insert g ids) (par(g := x)) \<longleftrightarrow>
      (a, d, n) \<in> anc_spec ids par \<union> {(g, g, 0)} \<union>
        {(a, g, Suc n) | a n. \<exists>p. x = Some p \<and> nth_anc par n p = Some a}"
      using new [of n a] old [of d n] g by (auto simp: anc_spec_def)
  qed
qed

text \<open>Moving the subtree of \<open>g\<close> below \<open>x\<close>: what the reconnection has to add.\<close>

lemma anc_spec_reparent:
  assumes f: "forest ids par" and g: "g \<in> ids"
    and x: "\<And>p. x = Some p \<Longrightarrow> p \<in> ids \<and> p \<notin> subtree par g"
  shows "anc_spec ids (par(g := x)) =
    {(a, d, n) \<in> anc_spec ids par. \<not> (d \<in> subtree par g \<and> a \<notin> subtree par g)} \<union>
    {(a, d, n + k + 1) | a d n k p. x = Some p \<and> d \<in> ids \<and> nth_anc par n p = Some a \<and> nth_anc par k d = Some g}"
    (is "_ = ?kept \<union> ?added")
proof (intro set_eqI, clarify)
  fix a d n
  show "(a, d, n) \<in> anc_spec ids (par(g := x)) \<longleftrightarrow> (a, d, n) \<in> ?kept \<union> ?added"
  proof (cases "d \<in> subtree par g")
    case False
    then have "(a, d, n) \<notin> ?added" by (auto simp: subtree_def)
    then show ?thesis using False subtree_upd_outside [OF False] by (auto simp: anc_spec_def)
  next
    case True
    then obtain k where k: "nth_anc par k d = Some g" by (auto simp: subtree_def)
    show ?thesis
    proof (cases "n \<le> k")
      case below: True
      have "(a, d, n) \<notin> ?added"
        using nth_anc_unique [OF f k] below by fastforce
      moreover have "nth_anc par n d = Some a \<Longrightarrow> a \<in> subtree par g"
        using subtree_cut [OF f k] below by blast
      ultimately show ?thesis using subtree_upd_below [OF f k below] True by (auto simp: anc_spec_def)
    next
      case above: False
      then obtain j where j: "n = k + Suc j" by (metis Suc_diff_Suc le_add_diff_inverse less_imp_le not_le)
      have kept: "(a, d, n) \<notin> ?kept"
        using subtree_cut [OF f k] above True by (auto simp: anc_spec_def)
      have "nth_anc (par(g := x)) n d = Some a \<longleftrightarrow> (\<exists>p. x = Some p \<and> nth_anc par j p = Some a)"
      proof (cases x)
        case None
        then show ?thesis unfolding j subtree_upd_above [OF f k] by simp
      next
        case (Some p)
        then have "nth_anc (par(g := x)) j p = nth_anc par j p" using x by (metis subtree_upd_outside)
        with Some show ?thesis unfolding j subtree_upd_above [OF f k] by simp
      qed
      moreover have "(a, d, n) \<in> ?added \<longleftrightarrow> d \<in> ids \<and> (\<exists>p. x = Some p \<and> nth_anc par j p = Some a)"
      proof
        assume "(a, d, n) \<in> ?added"
        then obtain m k' p where *: "n = m + k' + 1" "x = Some p" "d \<in> ids" "nth_anc par m p = Some a"
          "nth_anc par k' d = Some g" by auto
        then have "k' = k" using nth_anc_unique [OF f] k by metis
        with * j have "m = j" by simp
        with * show "d \<in> ids \<and> (\<exists>p. x = Some p \<and> nth_anc par j p = Some a)" by blast
      next
        assume "d \<in> ids \<and> (\<exists>p. x = Some p \<and> nth_anc par j p = Some a)"
        then obtain p where "d \<in> ids" "x = Some p" "nth_anc par j p = Some a" by blast
        moreover have "n = j + k + 1" using j by simp
        ultimately show "(a, d, n) \<in> ?added" using k by blast
      qed
      ultimately show ?thesis using kept by (auto simp: anc_spec_def)
    qed
  qed
qed

text \<open>Cutting \<open>g\<close> out: its children become roots.\<close>

definition cut_par :: "('n \<Rightarrow> 'n option) \<Rightarrow> 'n \<Rightarrow> 'n \<Rightarrow> 'n option" where
  "cut_par par g d = (if d = g \<or> par d = Some g then None else par d)"

lemma nth_anc_cut:
  "d \<noteq> g \<Longrightarrow> nth_anc (cut_par par g) n d =
     (if \<exists>m \<le> n. nth_anc par m d = Some g then None else nth_anc par n d)"
proof (induction n arbitrary: d)
  case 0
  then show ?case by simp
next
  case (Suc n)
  have ex: "(\<exists>m \<le> Suc n. nth_anc par m d = Some g) \<longleftrightarrow> (\<exists>m \<le> n. nth_anc par (Suc m) d = Some g)"
    using Suc.prems by (metis Suc_le_mono nth_anc.simps(1) not0_implies_Suc option.inject)
  show ?case
  proof (cases "par d")
    case None
    then show ?thesis by (simp add: cut_par_def)
  next
    case (Some p)
    show ?thesis
    proof (cases "p = g")
      case True
      then have "\<exists>m \<le> n. nth_anc par (Suc m) d = Some g" using Some by (intro exI [of _ 0]) simp
      then show ?thesis unfolding ex using True Some by (simp add: cut_par_def)
    next
      case False
      then have "nth_anc (cut_par par g) (Suc n) d = nth_anc (cut_par par g) n p"
        using Some Suc.prems by (simp add: cut_par_def)
      then show ?thesis unfolding ex using Some Suc.IH [OF False] by auto
    qed
  qed
qed

end
