(* ===== verification/Threshold_Service.thy ===== *)
theory Threshold_Service
  imports Threshold_Cascade Forest
begin

text \<open>
  Loading of the threshold layers (\<^verbatim>\<open>server/src/services/threshold.service.ts\<close>): the cached global and tenant
  defaults, the in-memory walk over the ancestors of a group, the layer list of a device or a group and
  the resolutions built on it. The row readers (database) are arguments: \<open>fetch\<close> is what a query returns
  now. JSON columns hold their parsed value.
\<close>

section \<open>Caches\<close>

definition cache_ttl_ms :: int where "cache_ttl_ms = 60000"

text \<open>\<open>loadGlobal\<close> and \<open>loadTenant\<close>: the cached value while it is fresh, else the row read now.\<close>

definition load_cached :: "int \<Rightarrow> ('v \<times> int) option \<Rightarrow> 'v \<Rightarrow> 'v \<times> ('v \<times> int) option" where
  "load_cached now cache fetch =
     (case cache of
        Some (v, at0) \<Rightarrow> if now - at0 < cache_ttl_ms then (v, cache) else (fetch, Some (fetch, now))
      | None \<Rightarrow> (fetch, Some (fetch, now)))"

record tenant_layer =
  tl_thresholds :: "metric_thresholds option"
  tl_name :: "string option"

definition loadGlobal ::
    "int \<Rightarrow> (metric_thresholds option \<times> int) option \<Rightarrow> metric_thresholds option \<Rightarrow>
     metric_thresholds option \<times> (metric_thresholds option \<times> int) option" where
  "loadGlobal now cache row = load_cached now cache row"

definition loadTenant ::
    "int \<Rightarrow> (nat \<Rightarrow> (tenant_layer \<times> int) option) \<Rightarrow> (nat \<Rightarrow> tenant_layer) \<Rightarrow> nat \<Rightarrow>
     tenant_layer \<times> (nat \<Rightarrow> (tenant_layer \<times> int) option)" where
  "loadTenant now cache fetch t =
     (case load_cached now (cache t) (fetch t) of (v, c) \<Rightarrow> (v, cache(t := c)))"

definition invalidateGlobalThresholdCache :: "(metric_thresholds option \<times> int) option \<Rightarrow> (metric_thresholds option \<times> int) option" where
  "invalidateGlobalThresholdCache c = None"

definition invalidateTenantThresholdCache ::
    "(nat \<Rightarrow> (tenant_layer \<times> int) option) \<Rightarrow> nat \<Rightarrow> (nat \<Rightarrow> (tenant_layer \<times> int) option)" where
  "invalidateTenantThresholdCache c t = c(t := None)"

section \<open>Groups and layers\<close>

record group_node =
  gn_id :: nat
  gn_parent :: "nat option"
  gn_tenant :: nat
  gn_name :: string
  gn_thresholds :: "metric_thresholds option"

type_synonym group_index = "nat \<Rightarrow> group_node option"

definition group_index_of :: "group_node list \<Rightarrow> group_index" where
  "group_index_of rows = map_of (rev (map (\<lambda>r. (gn_id r, r)) rows))"

text \<open>The walk of \<open>ancestorsOf\<close>: \<open>chain\<close> is built nearest first and reversed at the end.\<close>

function anc_loop :: "group_index \<Rightarrow> nat option \<Rightarrow> nat list \<Rightarrow> group_node list \<Rightarrow> group_node list" where
  "anc_loop index parentId seen chain =
     (case parentId of
        None \<Rightarrow> chain
      | Some p \<Rightarrow>
          if p \<notin> set seen \<and> length chain < 64
          then (case index p of
                  None \<Rightarrow> chain
                | Some node \<Rightarrow> anc_loop index (gn_parent node) (seen @ [gn_id node]) (chain @ [node]))
          else chain)"
  by pat_completeness auto
termination by (relation "measure (\<lambda>(index, parentId, seen, chain). 64 - length chain)") auto

declare anc_loop.simps [simp del]

definition ancestorsOf :: "group_index \<Rightarrow> nat \<Rightarrow> group_node list" where
  "ancestorsOf index g = rev (anc_loop index (Option.bind (index g) gn_parent) [g] [])"

definition lay :: "threshold_layer \<Rightarrow> nat option \<Rightarrow> string option \<Rightarrow> metric_thresholds option \<Rightarrow> bool \<Rightarrow> cascade_layer" where
  "lay l i nm th v = \<lparr>cl_origin = \<lparr>o_layer = l, o_id = i, o_name = nm\<rparr>, cl_thresholds = th, cl_values = v\<rparr>"

definition buildLayers ::
    "metric_thresholds option \<Rightarrow> (nat \<times> tenant_layer) option \<Rightarrow> group_node list \<Rightarrow>
     (nat \<times> string option \<times> metric_thresholds option) option \<Rightarrow> (nat \<times> string option \<times> metric_thresholds option) option \<Rightarrow>
     cascade_layer list" where
  "buildLayers glb ten ancestors grp device =
     [lay LGlobal None None glb True]
     @ (case ten of None \<Rightarrow> [] | Some (i, t) \<Rightarrow> [lay LTenant (Some i) (tl_name t) (tl_thresholds t) True])
     @ map (\<lambda>a. lay LGroup (Some (gn_id a)) (Some (gn_name a)) (gn_thresholds a) False) ancestors
     @ (case grp of None \<Rightarrow> [] | Some (i, nm, th) \<Rightarrow> [lay LGroup (Some i) nm th True])
     @ (case device of None \<Rightarrow> [] | Some (i, nm, th) \<Rightarrow> [lay LDevice (Some i) nm th True])"

record device_threshold_row =
  dt_id :: nat
  dt_tenant :: nat
  dt_group :: "nat option"
  dt_hostname :: "string option"
  dt_display_name :: "string option"
  dt_override :: "metric_thresholds option"
  dt_group_thresholds :: "metric_thresholds option"
  dt_group_name :: "string option"

text \<open>\<open>a || b\<close> on names: an empty string counts as missing.\<close>

definition name_or :: "string option \<Rightarrow> string option \<Rightarrow> string option" where
  "name_or a b = (case a of Some s \<Rightarrow> if s = [] then b else a | None \<Rightarrow> b)"

definition layersForDeviceRow ::
    "device_threshold_row \<Rightarrow> metric_thresholds option \<Rightarrow> tenant_layer \<Rightarrow> group_index \<Rightarrow> bool \<Rightarrow> cascade_layer list" where
  "layersForDeviceRow row glb ten index includeDevice =
     buildLayers glb (Some (dt_tenant row, ten))
       (case dt_group row of None \<Rightarrow> [] | Some g \<Rightarrow> ancestorsOf index g)
       (case dt_group row of
          None \<Rightarrow> None
        | Some g \<Rightarrow> Some (g, orElse (dt_group_name row) (map_option gn_name (index g)), dt_group_thresholds row))
       (if includeDevice
        then Some (dt_id row, name_or (dt_display_name row) (name_or (dt_hostname row) None), dt_override row)
        else None)"

definition thresholdResolveForDevice ::
    "device_threshold_row option \<Rightarrow> metric_thresholds option \<Rightarrow> (nat \<Rightarrow> tenant_layer) \<Rightarrow> group_index \<Rightarrow> bool \<Rightarrow> resolved_thresholds" where
  "thresholdResolveForDevice row glb ten index includeDevice =
     (case row of
        None \<Rightarrow> resolveCascade []
      | Some r \<Rightarrow> resolveCascade (layersForDeviceRow r glb (ten (dt_tenant r)) index includeDevice))"

definition thresholdResolveMany ::
    "device_threshold_row list \<Rightarrow> metric_thresholds option \<Rightarrow> (nat \<Rightarrow> tenant_layer) \<Rightarrow> group_index \<Rightarrow> (nat \<Rightarrow> resolved_thresholds option)" where
  "thresholdResolveMany rows glb ten index =
     map_of (rev (map (\<lambda>r. (dt_id r, resolveCascade (layersForDeviceRow r glb (ten (dt_tenant r)) index True))) rows))"

definition thresholdResolveGlobal :: "metric_thresholds option \<Rightarrow> resolved_thresholds" where
  "thresholdResolveGlobal glb = resolveCascade (buildLayers glb None [] None None)"

definition thresholdResolveForTenant :: "metric_thresholds option \<Rightarrow> (nat \<Rightarrow> tenant_layer) \<Rightarrow> nat \<Rightarrow> resolved_thresholds" where
  "thresholdResolveForTenant glb ten t = resolveCascade (buildLayers glb (Some (t, ten t)) [] None None)"

definition thresholdResolveForGroup ::
    "group_node option \<Rightarrow> metric_thresholds option \<Rightarrow> (nat \<Rightarrow> tenant_layer) \<Rightarrow> group_index \<Rightarrow> bool \<Rightarrow> resolved_thresholds option" where
  "thresholdResolveForGroup row glb ten index includeSelf =
     (case row of
        None \<Rightarrow> None
      | Some r \<Rightarrow> Some (resolveCascade (buildLayers glb (Some (gn_tenant r, ten (gn_tenant r))) (ancestorsOf index (gn_id r))
          (if includeSelf then Some (gn_id r, Some (gn_name r), gn_thresholds r) else None) None)))"

section \<open>The walk over the ancestors\<close>

fun anc_chain :: "('n \<Rightarrow> 'n option) \<Rightarrow> nat \<Rightarrow> 'n \<Rightarrow> 'n list" where
  "anc_chain par 0 g = []"
| "anc_chain par (Suc n) g = (case par g of None \<Rightarrow> [] | Some p \<Rightarrow> p # anc_chain par n p)"

definition node_par :: "group_index \<Rightarrow> nat \<Rightarrow> nat option" where
  "node_par index g = Option.bind (index g) gn_parent"

definition index_ok :: "group_index \<Rightarrow> bool" where
  "index_ok index \<longleftrightarrow> (\<forall>g node. index g = Some node \<longrightarrow> gn_id node = g) \<and> forest (dom index) (node_par index)"

lemma anc_loop_chain:
  assumes ok: "index_ok index" and seen: "\<forall>s \<in> set seen. \<exists>n. nth_anc (node_par index) n s = Some g" and len: "length chain \<le> 64"
  shows "map gn_id (anc_loop index (node_par index g) seen chain) = map gn_id chain @ anc_chain (node_par index) (64 - length chain) g"
  using seen len
proof (induction "64 - length chain" arbitrary: g seen chain)
  case 0
  then show ?case by (subst anc_loop.simps) (auto split: option.split)
next
  case (Suc k)
  show ?case
  proof (cases "node_par index g")
    case None
    then show ?thesis using Suc.hyps(2) by (subst anc_loop.simps) (simp flip: Suc.hyps(2))
  next
    case (Some p)
    have f: "forest (dom index) (node_par index)" using ok by (simp add: index_ok_def)
    from forest_parent [OF f Some] obtain node where node: "index p = Some node" by auto
    then have id: "gn_id node = p" using ok by (simp add: index_ok_def)
    have fresh: "p \<notin> set seen"
    proof
      assume "p \<in> set seen"
      with Suc.prems(1) obtain n where "nth_anc (node_par index) n p = Some g" by blast
      then have "nth_anc (node_par index) (n + 1) p = Some p" using Some by (simp only: nth_anc_add) simp
      with forest_acyclic [OF f, of "n + 1" p] show False by simp
    qed
    have "\<forall>s \<in> set (seen @ [gn_id node]). \<exists>n. nth_anc (node_par index) n s = Some p"
    proof
      fix s assume "s \<in> set (seen @ [gn_id node])"
      then consider "s \<in> set seen" | "s = p" using id by auto
      then show "\<exists>n. nth_anc (node_par index) n s = Some p"
      proof cases
        case 1
        with Suc.prems(1) obtain n where "nth_anc (node_par index) n s = Some g" by blast
        then have "nth_anc (node_par index) (n + 1) s = Some p" using Some by (simp only: nth_anc_add) simp
        then show ?thesis by blast
      next
        case 2
        then show ?thesis by (auto intro: exI [of _ 0])
      qed
    qed
    moreover have "k = 64 - length (chain @ [node])" "length (chain @ [node]) \<le> 64" using Suc.hyps(2) Suc.prems(2) by simp_all
    ultimately have "map gn_id (anc_loop index (node_par index p) (seen @ [gn_id node]) (chain @ [node])) =
        map gn_id (chain @ [node]) @ anc_chain (node_par index) (64 - length (chain @ [node])) p"
      using Suc.hyps(1) by blast
    moreover have "anc_loop index (node_par index g) seen chain =
        anc_loop index (node_par index p) (seen @ [gn_id node]) (chain @ [node])"
      using Some node fresh \<open>length (chain @ [node]) \<le> 64\<close> by (subst anc_loop.simps) (simp add: node_par_def)
    moreover have "64 - length chain = Suc (64 - length (chain @ [node]))" using Suc.hyps(2) by simp
    ultimately show ?thesis using Some id by simp
  qed
qed

text \<open>
  C24. The walk ends, and on a group table whose parent pointers form a forest it returns the ancestors of
  the group, root first and without the group itself, up to the cap of 64: neither the \<open>seen\<close> set nor a
  missing node ever cuts it short.
\<close>

theorem ancestorsOf_is_parent_chain:
  assumes "index_ok index"
  shows "map gn_id (ancestorsOf index g) = rev (anc_chain (node_par index) 64 g)"
proof -
  have "\<forall>s \<in> set [g]. \<exists>n. nth_anc (node_par index) n s = Some g" by (auto intro: exI [of _ 0])
  from anc_loop_chain [OF assms this, of "[]"] show ?thesis
    by (simp add: ancestorsOf_def node_par_def flip: rev_map)
qed

section \<open>Ancestors contribute only their alert switches\<close>

lemma slot_warn_filter:
  "rm_warn (resolveSlot k (filter cl_values ls)) = rm_warn (resolveSlot k ls) \<and>
   rm_crit (resolveSlot k (filter cl_values ls)) = rm_crit (resolveSlot k ls)"
proof (induction ls rule: rev_induct)
  case (snoc l ls)
  then show ?case using warn_slot.resolve_snoc [of k ls l] crit_slot.resolve_snoc [of k ls l]
      warn_slot.resolve_snoc [of k "filter cl_values ls" l] crit_slot.resolve_snoc [of k "filter cl_values ls" l]
    by (auto simp: pick_warn_def pick_crit_def split: option.splits)
qed simp

text \<open>
  The warn and crit values of a device are those of the cascade without the ancestor groups (the
  direct group only), while its alerts switch is the innermost one set by the device, its group, any
  ancestor group from the nearest up, the tenant or the global default.
\<close>

theorem ancestors_only_switch_alerts:
  assumes "dt_group row = Some g"
  shows "let ls = layersForDeviceRow row glb ten index True;
             flat = buildLayers glb (Some (dt_tenant row, ten)) []
               (Some (g, orElse (dt_group_name row) (map_option gn_name (index g)), dt_group_thresholds row))
               (Some (dt_id row, name_or (dt_display_name row) (name_or (dt_hostname row) None), dt_override row))
         in rm_warn (resolveSlot k ls) = rm_warn (resolveSlot k flat) \<and>
            rm_crit (resolveSlot k ls) = rm_crit (resolveSlot k flat) \<and>
            rm_notify (resolveSlot k ls) = fst (innermost (pick_notify k) (True, system_origin) ls)"
proof -
  define ls where "ls = layersForDeviceRow row glb ten index True"
  define flat where "flat = buildLayers glb (Some (dt_tenant row, ten)) []
               (Some (g, orElse (dt_group_name row) (map_option gn_name (index g)), dt_group_thresholds row))
               (Some (dt_id row, name_or (dt_display_name row) (name_or (dt_hostname row) None), dt_override row))"
  have "filter cl_values ls = filter cl_values flat"
    using assms by (simp add: ls_def flat_def layersForDeviceRow_def buildLayers_def lay_def filter_empty_conv)
  then have "rm_warn (resolveSlot k ls) = rm_warn (resolveSlot k flat) \<and> rm_crit (resolveSlot k ls) = rm_crit (resolveSlot k flat)"
    using slot_warn_filter [of k ls] slot_warn_filter [of k flat] by simp
  moreover have "rm_notify (resolveSlot k ls) = fst (innermost (pick_notify k) (True, system_origin) ls)"
    using notify_slot.resolve_find [of k ls] by (auto simp: innermost_def split: option.splits) (metis fst_conv)+
  ultimately show ?thesis unfolding Let_def ls_def [symmetric] flat_def [symmetric] by blast
qed

section \<open>Staleness of the caches\<close>

text \<open>A sequence of reads and invalidations; \<open>db\<close> gives the stored row at each time.\<close>

datatype cache_op = CRead | CInvalidate

fun cache_run :: "(int \<Rightarrow> 'v) \<Rightarrow> ('v \<times> int) option \<Rightarrow> (int \<times> cache_op) list \<Rightarrow> ('v \<times> int) option" where
  "cache_run db c [] = c"
| "cache_run db c ((t, CRead) # ops) = cache_run db (snd (load_cached t c (db t))) ops"
| "cache_run db c ((t, CInvalidate) # ops) = cache_run db None ops"

lemma cache_run_holds: "(\<forall>v at0. c = Some (v, at0) \<longrightarrow> v = db at0) \<Longrightarrow> cache_run db c ops = Some (v, at0) \<Longrightarrow> v = db at0"
proof (induction db c ops rule: cache_run.induct)
  case (2 db c t ops)
  have "\<forall>v at0. snd (load_cached t c (db t)) = Some (v, at0) \<longrightarrow> v = db at0"
    using 2(2) by (auto simp: load_cached_def split: option.splits if_splits)
  with 2 show ?case by simp
qed simp_all

text \<open>
  A cached read returns a value that was the stored one at some moment at most 60 seconds earlier, and
  right after an invalidation it returns the value stored now.
\<close>

theorem cached_read_fresh:
  "(\<exists>at0. fst (load_cached now (cache_run db None ops) (db now)) = db at0 \<and> (at0 = now \<or> now - at0 < 60000)) \<and>
   fst (load_cached now (cache_run db None (ops @ [(t, CInvalidate)])) (db now)) = db now"
proof
  show "\<exists>at0. fst (load_cached now (cache_run db None ops) (db now)) = db at0 \<and> (at0 = now \<or> now - at0 < 60000)"
  proof (cases "cache_run db None ops")
    case None
    then show ?thesis by (auto simp: load_cached_def)
  next
    case (Some c)
    obtain v at0 where c: "c = (v, at0)" by fastforce
    have "v = db at0" using cache_run_holds [of None db ops v at0] Some c by simp
    then show ?thesis using Some c by (auto simp: load_cached_def cache_ttl_ms_def)
  qed
  have "cache_run db c (ops @ [(t, CInvalidate)]) = None" for c
    by (induction db c ops rule: cache_run.induct) simp_all
  then show "fst (load_cached now (cache_run db None (ops @ [(t, CInvalidate)])) (db now)) = db now"
    by (simp add: load_cached_def)
qed

definition ex_nodes :: group_index where
  "ex_nodes = group_index_of
     [\<lparr>gn_id = 1, gn_parent = None, gn_tenant = 1, gn_name = ''Acme'', gn_thresholds = None\<rparr>,
      \<lparr>gn_id = 2, gn_parent = Some 1, gn_tenant = 1, gn_name = ''Paris'', gn_thresholds = None\<rparr>]"

lemma ex_nodes_at: "ex_nodes g = (if g = 2 then Some \<lparr>gn_id = 2, gn_parent = Some 1, gn_tenant = 1, gn_name = ''Paris'', gn_thresholds = None\<rparr>
    else if g = 1 then Some \<lparr>gn_id = 1, gn_parent = None, gn_tenant = 1, gn_name = ''Acme'', gn_thresholds = None\<rparr> else None)"
  by (simp add: ex_nodes_def group_index_of_def)

lemma ex_nodes_ok: "index_ok ex_nodes"
proof -
  have par: "node_par ex_nodes g = (if g = 2 then Some 1 else None)" for g by (simp add: node_par_def ex_nodes_at)
  have "nth_anc (node_par ex_nodes) (Suc n) d \<noteq> Some d" for n d
    by (cases n) (auto simp: par)
  moreover have "node_par ex_nodes d = Some p \<Longrightarrow> d \<in> dom ex_nodes \<and> p \<in> dom ex_nodes" for d p
    by (auto simp: par ex_nodes_at split: if_splits)
  ultimately show ?thesis by (auto simp: index_ok_def forest_def ex_nodes_at split: if_splits simp del: nth_anc.simps)
qed

lemma ancestorsOf_is_parent_chain_witness: "map gn_id (ancestorsOf ex_nodes 2) = [1]"
proof -
  have "anc_chain (node_par ex_nodes) 64 2 = [1]"
    by (simp add: node_par_def ex_nodes_at eval_nat_numeral)
  with ancestorsOf_is_parent_chain [OF ex_nodes_ok, of 2] show ?thesis by simp
qed

definition ex_dt_row :: device_threshold_row where
  "ex_dt_row = \<lparr>dt_id = 9, dt_tenant = 1, dt_group = Some 2, dt_hostname = Some ''pc'', dt_display_name = None,
     dt_override = None, dt_group_thresholds = None, dt_group_name = Some ''Paris''\<rparr>"

lemma ancestors_only_switch_alerts_witness:
  "rm_warn (resolveSlot Cpu (layersForDeviceRow ex_dt_row None \<lparr>tl_thresholds = None, tl_name = None\<rparr> ex_nodes True)) =
   rm_warn (resolveSlot Cpu (buildLayers None (Some (1, \<lparr>tl_thresholds = None, tl_name = None\<rparr>)) []
     (Some (2, Some ''Paris'', None)) (Some (9, Some ''pc'', None))))"
proof -
  have "dt_group ex_dt_row = Some 2" by (simp add: ex_dt_row_def)
  from ancestors_only_switch_alerts [OF this, of None "\<lparr>tl_thresholds = None, tl_name = None\<rparr>" ex_nodes Cpu]
  show ?thesis by (simp add: ex_dt_row_def name_or_def Let_def)
qed

end
