(* ===== verification/Obl_Schema.thy ===== *)
theory Obl_Schema
  imports Obl_Prelude
begin

text \<open>
  The relational state the organisation-level services share: devices, device groups and their
  closure table, users, teams, permission sets, agent keys, tenants and settings, with the columns
  the modelled code reads or writes (\<^verbatim>\<open>server/src/db/migrations\<close>). JSON columns hold their parsed
  value. The clock (\<open>Date.now()\<close>, in milliseconds) is part of the state: one handler reads one
  instant. Later theories extend \<open>org\<close> with the tables of the command queue and the automations.
\<close>

record device_row =
  dev_id :: nat
  dev_tenant :: nat
  dev_group :: "nat option"
  dev_api_key :: "nat option"
  dev_privacy :: bool
  dev_status :: string
  dev_os_type :: string
  dev_tags :: "string list"
  dev_hostname :: string
  dev_display_name :: "string option"

record group_row =
  grp_id :: nat
  grp_tenant :: nat
  grp_parent :: "nat option"
  grp_name :: string
  grp_slug :: string
  grp_sort :: int
  grp_notifications :: bool

record closure_row =
  cl_anc :: nat
  cl_desc :: nat
  cl_depth :: nat

record user_row =
  usr_id :: nat
  usr_role :: string
  usr_active :: bool
  usr_username :: string
  usr_foreign :: "string option"

record user_tenant_row =
  ut_user :: nat
  ut_tenant :: nat
  ut_role :: string

record permission_set_row =
  ps_slug :: string
  ps_caps :: "string list"

record team_row =
  team_id :: nat
  team_can_create :: bool

record membership_row =
  tm_team :: nat
  tm_user :: nat

datatype team_scope = ScGroup | ScDevice | ScUngrouped

datatype permission_level = Ro | Rw

record team_perm_row =
  tp_team :: nat
  tp_scope :: team_scope
  tp_scope_id :: nat
  tp_level :: permission_level
  tp_caps :: "string list"

record api_key_row =
  ak_id :: nat
  ak_default_group :: "nat option"

datatype setting_scope = SGlobal | SGroup | SDevice

datatype setting_value = SNum rat | SBool bool

record setting_row =
  set_tenant :: nat
  set_scope :: setting_scope
  set_scope_id :: "nat option"
  set_key :: string
  set_value :: setting_value

record org =
  now_ms :: int
  devices :: "device_row list"
  device_groups :: "group_row list"
  group_seq :: nat
  group_closure :: "closure_row list"
  users :: "user_row list"
  user_tenants :: "user_tenant_row list"
  permission_sets :: "permission_set_row list"
  user_teams :: "team_row list"
  team_memberships :: "membership_row list"
  team_permissions :: "team_perm_row list"
  agent_api_keys :: "api_key_row list"
  settings :: "setting_row list"

definition empty_org :: org where
  "empty_org = \<lparr>now_ms = 0, devices = [], device_groups = [], group_seq = 1, group_closure = [],
     users = [], user_tenants = [], permission_sets = [], user_teams = [], team_memberships = [],
     team_permissions = [], agent_api_keys = [], settings = []\<rparr>"

lemma closure_row_eta: "\<lparr>cl_anc = cl_anc r, cl_desc = cl_desc r, cl_depth = cl_depth r\<rparr> = r"
  by simp

definition device_by_id :: "'a org_scheme \<Rightarrow> nat \<Rightarrow> device_row option" where
  "device_by_id w d = find (\<lambda>r. dev_id r = d) (devices w)"

end
