(* ===== verification/Group_Closure.thy ===== *)
theory Group_Closure
  imports Obl_Schema Forest
begin

text \<open>
  Device groups and their closure table (\<^verbatim>\<open>server/src/services/group.service.ts\<close>; the foreign
  keys of \<^verbatim>\<open>device_groups\<close> and \<^verbatim>\<open>device_group_closure\<close> in
  \<^verbatim>\<open>server/src/db/migrations/001_initial_schema.ts\<close>). The specification of the closure table is the
  parent relation: a row \<open>(a, d, n)\<close> for every group \<open>d\<close> and every \<open>n\<close>-th ancestor \<open>a\<close> of \<open>d\<close>.
\<close>

section \<open>Operations\<close>

datatype group_error = FkViolation | MoveIntoDescendant

text \<open>\<open>slugify\<close>: lower case, runs of other characters become one dash, one dash trimmed at each end.\<close>

definition slug_char :: "char \<Rightarrow> bool" where
  "slug_char c \<longleftrightarrow> (let n = of_char c :: nat in (97 \<le> n \<and> n \<le> 122) \<or> (48 \<le> n \<and> n \<le> 57))"

fun dash_runs :: "bool \<Rightarrow> string \<Rightarrow> string" where
  "dash_runs inrun [] = []"
| "dash_runs inrun (c # cs) =
     (if slug_char c then c # dash_runs False cs
      else if inrun then dash_runs True cs
      else CHR ''-'' # dash_runs True cs)"

definition trim_dashes :: "string \<Rightarrow> string" where
  "trim_dashes s =
     (let s1 = (case s of [] \<Rightarrow> [] | c # cs \<Rightarrow> if c = CHR ''-'' then cs else s)
      in if s1 \<noteq> [] \<and> last s1 = CHR ''-'' then butlast s1 else s1)"

definition slugify :: "string \<Rightarrow> string" where
  "slugify name = trim_dashes (dash_runs False (to_lower name))"

definition slug_candidate :: "string \<Rightarrow> nat \<Rightarrow> string" where
  "slug_candidate slug i = slug @ ''-'' @ show_nat i"

text \<open>The slugs \<open>ensureUniqueSlug\<close> sees as taken.\<close>

definition taken_slugs :: "group_row list \<Rightarrow> nat option \<Rightarrow> string list" where
  "taken_slugs groups excludeId =
     map grp_slug (filter (\<lambda>g. \<not> (truthy_id excludeId \<and> excludeId = Some (grp_id g))) groups)"

lemma slug_candidate_inject [simp]: "slug_candidate s i = slug_candidate s j \<longleftrightarrow> i = j"
  by (simp add: slug_candidate_def)

lemma finite_taken_candidates: "finite {j. i \<le> j \<and> slug_candidate s j \<in> set taken}"
proof -
  have "finite (slug_candidate s -` set taken)"
    by (rule finite_vimageI) (auto intro: injI)
  then show ?thesis by (rule rev_finite_subset) auto
qed

function ensure_loop :: "string list \<Rightarrow> string \<Rightarrow> nat \<Rightarrow> string" where
  "ensure_loop taken slug i =
     (let candidate = slug_candidate slug i
      in if candidate \<notin> set taken then candidate else ensure_loop taken slug (Suc i))"
  by pat_completeness auto
termination
proof (relation "measure (\<lambda>(taken, slug, i). card {j. i \<le> j \<and> slug_candidate slug j \<in> set taken})")
  fix taken slug i candidate
  assume "candidate = slug_candidate slug i" "\<not> candidate \<notin> set taken"
  then have "{j. Suc i \<le> j \<and> slug_candidate slug j \<in> set taken} \<subset>
             {j. i \<le> j \<and> slug_candidate slug j \<in> set taken}"
    by (auto simp: psubset_eq set_eq_iff intro: exI [of _ i])
  from psubset_card_mono [OF finite_taken_candidates this]
  show "((taken, slug, Suc i), taken, slug, i) \<in>
      measure (\<lambda>(taken, slug, i). card {j. i \<le> j \<and> slug_candidate slug j \<in> set taken})"
    by simp
qed simp

declare ensure_loop.simps [simp del]

definition ensureUniqueSlug :: "group_row list \<Rightarrow> string \<Rightarrow> nat option \<Rightarrow> string" where
  "ensureUniqueSlug groups slug excludeId =
     (let taken = taken_slugs groups excludeId
      in if slug \<notin> set taken then slug else ensure_loop taken slug 1)"

record group_data =
  gd_name :: string
  gd_parent :: "nat option"
  gd_sort :: int
  gd_notifications :: bool

definition group_ids :: "'a org_scheme \<Rightarrow> nat set" where
  "group_ids w = grp_id ` set (device_groups w)"

definition parent_known :: "'a org_scheme \<Rightarrow> nat option \<Rightarrow> bool" where
  "parent_known w p = (case p of None \<Rightarrow> True | Some q \<Rightarrow> list_ex (\<lambda>g. grp_id g = q) (device_groups w))"

definition groupCreate ::
    "'a org_scheme \<Rightarrow> group_data \<Rightarrow> nat \<Rightarrow> 'a org_scheme \<times> (group_error + group_row)" where
  "groupCreate w d tenantId =
     (if \<not> parent_known w (gd_parent d) then (w, Inl FkViolation)
      else
        let slug = ensureUniqueSlug (device_groups w) (slugify (gd_name d)) None;
            row = \<lparr>grp_id = group_seq w, grp_tenant = tenantId, grp_parent = gd_parent d,
                   grp_name = gd_name d, grp_slug = slug, grp_sort = gd_sort d,
                   grp_notifications = gd_notifications d\<rparr>;
            self = \<lparr>cl_anc = grp_id row, cl_desc = grp_id row, cl_depth = 0\<rparr>;
            paths = (case gd_parent d of
                       None \<Rightarrow> []
                     | Some p \<Rightarrow> if p = 0 then []
                         else map (\<lambda>r. \<lparr>cl_anc = cl_anc r, cl_desc = grp_id row, cl_depth = cl_depth r + 1\<rparr>)
                                (filter (\<lambda>r. cl_desc r = p) (group_closure w @ [self])))
        in (w\<lparr>device_groups := device_groups w @ [row], group_seq := Suc (group_seq w),
              group_closure := group_closure w @ [self] @ paths\<rparr>, Inr row))"

text \<open>
  \<open>move\<close> runs outside a transaction: when the final \<open>UPDATE\<close> breaks the foreign key of an unknown
  parent, the closure rows are already gone.
\<close>

definition isDescendant :: "'a org_scheme \<Rightarrow> nat \<Rightarrow> nat \<Rightarrow> bool" where
  "isDescendant w a d \<longleftrightarrow> list_ex (\<lambda>r. cl_anc r = a \<and> cl_desc r = d) (group_closure w)"

definition getDescendantIds :: "'a org_scheme \<Rightarrow> nat \<Rightarrow> nat list" where
  "getDescendantIds w g = map cl_desc (filter (\<lambda>r. cl_anc r = g) (group_closure w))"

definition reconnect :: "closure_row list \<Rightarrow> nat \<Rightarrow> nat \<Rightarrow> closure_row list" where
  "reconnect rows newParent g =
     concat (map (\<lambda>p. map (\<lambda>s. \<lparr>cl_anc = cl_anc p, cl_desc = cl_desc s,
                                 cl_depth = cl_depth p + cl_depth s + 1\<rparr>)
                       (filter (\<lambda>s. cl_anc s = g) rows))
       (filter (\<lambda>p. cl_desc p = newParent) rows))"

definition groupMove ::
    "'a org_scheme \<Rightarrow> nat \<Rightarrow> nat option \<Rightarrow> 'a org_scheme \<times> (group_error + group_row option)" where
  "groupMove w g newParent =
     (case find (\<lambda>r. grp_id r = g) (device_groups w) of
        None \<Rightarrow> (w, Inr None)
      | Some row \<Rightarrow>
          if (case newParent of None \<Rightarrow> False | Some p \<Rightarrow> isDescendant w g p)
          then (w, Inl MoveIntoDescendant)
          else
            let descIds = getDescendantIds w g;
                kept = tbl_delete (\<lambda>r. cl_desc r \<in> set descIds \<and> cl_anc r \<notin> set descIds) (group_closure w);
                added = (case newParent of None \<Rightarrow> [] | Some p \<Rightarrow> reconnect kept p g);
                w1 = w\<lparr>group_closure := kept @ added\<rparr>
            in if \<not> parent_known w newParent then (w1, Inl FkViolation)
               else (w1\<lparr>device_groups :=
                         tbl_update (\<lambda>r. grp_id r = g) (\<lambda>r. r\<lparr>grp_parent := newParent\<rparr>) (device_groups w)\<rparr>,
                     Inr (Some (row\<lparr>grp_parent := newParent\<rparr>))))"

text \<open>
  \<open>delete\<close> with the foreign keys of the schema: the closure rows of the group go (CASCADE), its
  children become roots and its devices ungrouped (SET NULL), and so do the default groups of the
  agent keys.
\<close>

definition groupDelete :: "'a org_scheme \<Rightarrow> nat \<Rightarrow> 'a org_scheme \<times> bool" where
  "groupDelete w g =
     (w\<lparr>device_groups :=
          tbl_update (\<lambda>r. grp_parent r = Some g) (\<lambda>r. r\<lparr>grp_parent := None\<rparr>)
            (tbl_delete (\<lambda>r. grp_id r = g) (device_groups w)),
        group_closure := tbl_delete (\<lambda>r. cl_anc r = g \<or> cl_desc r = g) (group_closure w),
        devices := tbl_update (\<lambda>r. dev_group r = Some g) (\<lambda>r. r\<lparr>dev_group := None\<rparr>) (devices w),
        agent_api_keys := tbl_update (\<lambda>r. ak_default_group r = Some g)
          (\<lambda>r. r\<lparr>ak_default_group := None\<rparr>) (agent_api_keys w)\<rparr>,
      list_ex (\<lambda>r. grp_id r = g) (device_groups w))"

definition groupReorder :: "'a org_scheme \<Rightarrow> (nat \<times> int) list \<Rightarrow> 'a org_scheme" where
  "groupReorder w items =
     foldl (\<lambda>w (g, so). w\<lparr>device_groups :=
         tbl_update (\<lambda>r. grp_id r = g) (\<lambda>r. r\<lparr>grp_sort := so\<rparr>) (device_groups w)\<rparr>) w items"

text \<open>Ancestors ordered by depth, root first; the nearest ancestor with group notifications.\<close>

definition depth_desc :: "closure_row list \<Rightarrow> closure_row list" where
  "depth_desc rows = rev (sort_key cl_depth (rev rows))"

definition ancestor_rows :: "'a org_scheme \<Rightarrow> nat \<Rightarrow> closure_row list" where
  "ancestor_rows w g = depth_desc (filter (\<lambda>r. cl_desc r = g) (group_closure w))"

definition groups_of :: "'a org_scheme \<Rightarrow> closure_row list \<Rightarrow> group_row list" where
  "groups_of w rows = concat (map (\<lambda>r. filter (\<lambda>x. grp_id x = cl_anc r) (device_groups w)) rows)"

definition getAncestors :: "'a org_scheme \<Rightarrow> nat \<Rightarrow> group_row list" where
  "getAncestors w g = groups_of w (filter (\<lambda>r. cl_depth r > 0) (ancestor_rows w g))"

definition findGroupNotificationAncestor :: "'a org_scheme \<Rightarrow> nat \<Rightarrow> group_row option" where
  "findGroupNotificationAncestor w g =
     find grp_notifications
       (groups_of w (sort_key cl_depth (filter (\<lambda>r. cl_desc r = g) (group_closure w))))"

section \<open>The specification of the closure table\<close>

definition par_of :: "'a org_scheme \<Rightarrow> nat \<Rightarrow> nat option" where
  "par_of w d = Option.bind (find (\<lambda>r. grp_id r = d) (device_groups w)) grp_parent"

definition cl_triple :: "closure_row \<Rightarrow> nat \<times> nat \<times> nat" where
  "cl_triple r = (cl_anc r, cl_desc r, cl_depth r)"

definition cl_key :: "closure_row \<Rightarrow> nat \<times> nat" where
  "cl_key r = (cl_anc r, cl_desc r)"

definition groups_ok :: "'a org_scheme \<Rightarrow> bool" where
  "groups_ok w \<longleftrightarrow> keyed grp_id (device_groups w) \<and> 0 < group_seq w \<and> (\<forall>g \<in> group_ids w. 0 < g \<and> g < group_seq w) \<and>
     forest (group_ids w) (par_of w)"

definition closure_ok :: "'a org_scheme \<Rightarrow> bool" where
  "closure_ok w \<longleftrightarrow> groups_ok w \<and> keyed cl_key (group_closure w) \<and>
     cl_triple ` set (group_closure w) = anc_spec (group_ids w) (par_of w)"

lemma cl_triple_inject [simp]: "cl_triple r = cl_triple s \<longleftrightarrow> r = s"
  by (cases r; cases s) (simp add: cl_triple_def)

lemma closure_ok_mem:
  assumes "closure_ok w"
  shows "r \<in> set (group_closure w) \<longleftrightarrow>
     cl_desc r \<in> group_ids w \<and> nth_anc (par_of w) (cl_depth r) (cl_desc r) = Some (cl_anc r)"
proof -
  have "r \<in> set (group_closure w) \<longleftrightarrow> cl_triple r \<in> cl_triple ` set (group_closure w)" by auto
  also have "\<dots> \<longleftrightarrow> cl_triple r \<in> anc_spec (group_ids w) (par_of w)"
    using assms by (simp add: closure_ok_def)
  finally show ?thesis by (simp add: anc_spec_def cl_triple_def)
qed

lemma closure_row_exists:
  assumes "closure_ok w" "d \<in> group_ids w"
  shows "nth_anc (par_of w) n d = Some a \<longleftrightarrow> \<lparr>cl_anc = a, cl_desc = d, cl_depth = n\<rparr> \<in> set (group_closure w)"
  using closure_ok_mem [OF assms(1), of "\<lparr>cl_anc = a, cl_desc = d, cl_depth = n\<rparr>"] assms(2) by simp

lemma closure_ok_forest: "closure_ok w \<Longrightarrow> forest (group_ids w) (par_of w)"
  by (simp add: closure_ok_def groups_ok_def)

lemma closure_ok_cong:
  assumes "device_groups w' = device_groups w" "group_closure w' = group_closure w" "group_seq w' = group_seq w"
  shows "closure_ok w' = closure_ok w"
proof -
  have "par_of w' = par_of w" using assms by (auto simp: par_of_def fun_eq_iff)
  then show ?thesis using assms by (simp add: closure_ok_def groups_ok_def group_ids_def)
qed

lemma isDescendant_iff:
  assumes "closure_ok w"
  shows "isDescendant w a d \<longleftrightarrow> d \<in> group_ids w \<and> d \<in> subtree (par_of w) a"
proof
  assume "isDescendant w a d"
  then obtain r where "r \<in> set (group_closure w)" "cl_anc r = a" "cl_desc r = d"
    by (auto simp: isDescendant_def list_ex_iff)
  then show "d \<in> group_ids w \<and> d \<in> subtree (par_of w) a"
    using closure_ok_mem [OF assms, of r] by (auto simp: subtree_def)
next
  assume "d \<in> group_ids w \<and> d \<in> subtree (par_of w) a"
  then obtain n where "d \<in> group_ids w" "nth_anc (par_of w) n d = Some a" by (auto simp: subtree_def)
  then have "\<lparr>cl_anc = a, cl_desc = d, cl_depth = n\<rparr> \<in> set (group_closure w)"
    using closure_row_exists [OF assms] by blast
  then show "isDescendant w a d" by (force simp: isDescendant_def list_ex_iff)
qed

lemma descendants_iff: "d \<in> set (getDescendantIds w a) \<longleftrightarrow> isDescendant w a d"
  by (auto simp: getDescendantIds_def isDescendant_def list_ex_iff)

lemma parent_known_iff: "parent_known w p \<longleftrightarrow> (\<forall>q. p = Some q \<longrightarrow> q \<in> group_ids w)"
  by (auto simp: parent_known_def group_ids_def list_ex_iff split: option.split)

lemma find_group_None: "find (\<lambda>r. grp_id r = d) (device_groups w) = None \<longleftrightarrow> d \<notin> group_ids w"
  by (auto simp: find_None_iff group_ids_def)

section \<open>Creating a group\<close>

lemma par_of_snoc:
  assumes "grp_id row \<notin> group_ids w"
  shows "par_of (w\<lparr>device_groups := device_groups w @ [row], group_seq := n, group_closure := c\<rparr>) =
    (par_of w)(grp_id row := grp_parent row)"
proof
  fix d
  show "par_of (w\<lparr>device_groups := device_groups w @ [row], group_seq := n, group_closure := c\<rparr>) d =
    ((par_of w)(grp_id row := grp_parent row)) d"
    using assms find_group_None [of "grp_id row" w]
    by (cases "find (\<lambda>r. grp_id r = d) (device_groups w)") (auto simp: par_of_def find_append)
qed

lemma group_ids_snoc [simp]:
  "group_ids (w\<lparr>device_groups := device_groups w @ [row], group_seq := n, group_closure := c\<rparr>) =
   insert (grp_id row) (group_ids w)"
  by (simp add: group_ids_def)

definition new_paths :: "closure_row list \<Rightarrow> nat \<Rightarrow> nat option \<Rightarrow> closure_row list" where
  "new_paths rows g p = (case p of None \<Rightarrow> [] | Some q \<Rightarrow>
     map (\<lambda>r. \<lparr>cl_anc = cl_anc r, cl_desc = g, cl_depth = cl_depth r + 1\<rparr>) (filter (\<lambda>r. cl_desc r = q) rows))"

lemma groupCreate_eq:
  assumes "groups_ok w" "parent_known w (gd_parent d)"
  shows "\<exists>row. grp_id row = group_seq w \<and> grp_parent row = gd_parent d \<and> grp_tenant row = tenantId \<and>
    grp_slug row = ensureUniqueSlug (device_groups w) (slugify (gd_name d)) None \<and>
    groupCreate w d tenantId =
     (w\<lparr>device_groups := device_groups w @ [row], group_seq := Suc (group_seq w),
        group_closure := group_closure w @ \<lparr>cl_anc = group_seq w, cl_desc = group_seq w, cl_depth = 0\<rparr> #
          new_paths (group_closure w) (group_seq w) (gd_parent d)\<rparr>, Inr row)"
proof -
  have "p \<noteq> 0 \<and> p \<noteq> group_seq w" if "gd_parent d = Some p" for p
    using assms that by (auto simp: groups_ok_def parent_known_iff)
  then show ?thesis using assms(2)
    by (auto simp: groupCreate_def Let_def new_paths_def split: option.split)
qed

lemma set_new_paths:
  assumes "closure_ok w" "\<And>q. p = Some q \<Longrightarrow> q \<in> group_ids w"
  shows "cl_triple ` set (new_paths (group_closure w) g p) =
    {(a, g, Suc n) | a n. \<exists>q. p = Some q \<and> nth_anc (par_of w) n q = Some a}"
proof (cases p)
  case None
  then show ?thesis by (simp add: new_paths_def)
next
  case (Some q)
  with assms(2) have q: "q \<in> group_ids w" by simp
  show ?thesis
  proof (intro set_eqI iffI)
    fix t assume "t \<in> cl_triple ` set (new_paths (group_closure w) g p)"
    then obtain r where "r \<in> set (group_closure w)" "cl_desc r = q" "t = (cl_anc r, g, Suc (cl_depth r))"
      using Some by (auto simp: new_paths_def cl_triple_def)
    then show "t \<in> {(a, g, Suc n) | a n. \<exists>q. p = Some q \<and> nth_anc (par_of w) n q = Some a}"
      using Some closure_ok_mem [OF assms(1), of r] by auto
  next
    fix t assume "t \<in> {(a, g, Suc n) | a n. \<exists>q. p = Some q \<and> nth_anc (par_of w) n q = Some a}"
    then obtain a n where t: "t = (a, g, Suc n)" "nth_anc (par_of w) n q = Some a" using Some by auto
    then have "\<lparr>cl_anc = a, cl_desc = q, cl_depth = n\<rparr> \<in> set (group_closure w)"
      using closure_row_exists [OF assms(1) q] by blast
    then show "t \<in> cl_triple ` set (new_paths (group_closure w) g p)"
      using t Some by (force simp: new_paths_def cl_triple_def image_iff)
  qed
qed

lemma keyed_new_paths:
  assumes "keyed cl_key rows"
  shows "keyed cl_key (new_paths rows g p)"
proof (cases p)
  case None
  then show ?thesis by (simp add: new_paths_def keyed_def)
next
  case (Some q)
  have "distinct (map cl_anc (filter (\<lambda>r. cl_desc r = q) rows))"
    using assms by (induction rows) (auto simp: keyed_def cl_key_def)
  then have "distinct (map (\<lambda>a. (a, g)) (map cl_anc (filter (\<lambda>r. cl_desc r = q) rows)))"
    unfolding distinct_map [of "\<lambda>a. (a, g)"] by (simp add: inj_on_def)
  moreover have "map cl_key (new_paths rows g p) = map (\<lambda>a. (a, g)) (map cl_anc (filter (\<lambda>r. cl_desc r = q) rows))"
    using Some by (simp add: new_paths_def cl_key_def o_def)
  ultimately show ?thesis unfolding keyed_def by simp
qed

lemma groupCreate_closure_ok:
  assumes ok: "closure_ok w" and p: "parent_known w (gd_parent d)"
  shows "closure_ok (fst (groupCreate w d t))"
proof -
  let ?g = "group_seq w"
  have gok: "groups_ok w" and keys: "keyed cl_key (group_closure w)"
    and trip: "cl_triple ` set (group_closure w) = anc_spec (group_ids w) (par_of w)"
    using ok by (simp_all add: closure_ok_def)
  from groupCreate_eq [OF gok p] obtain row where row: "grp_id row = ?g" "grp_parent row = gd_parent d"
    and eq: "groupCreate w d t = (w\<lparr>device_groups := device_groups w @ [row], group_seq := Suc ?g,
        group_closure := group_closure w @ \<lparr>cl_anc = ?g, cl_desc = ?g, cl_depth = 0\<rparr> #
          new_paths (group_closure w) ?g (gd_parent d)\<rparr>, Inr row)" by blast
  have fresh: "?g \<notin> group_ids w" using gok by (auto simp: groups_ok_def)
  have known: "q \<in> group_ids w" if "gd_parent d = Some q" for q
    using p that by (simp add: parent_known_iff)
  have f: "forest (group_ids w) (par_of w)" using gok by (simp add: groups_ok_def)
  note par = par_of_snoc [of row w, unfolded row(1), OF fresh, unfolded row(2)]
  have anc_old: "cl_anc r \<in> group_ids w \<and> cl_desc r \<in> group_ids w" if "r \<in> set (group_closure w)" for r
    using closure_ok_mem [OF ok, of r] nth_anc_in [OF f] that by blast
  have anc_new: "cl_anc r \<in> group_ids w \<and> cl_desc r = ?g"
    if "r \<in> set (new_paths (group_closure w) ?g (gd_parent d))" for r
    using that anc_old by (auto simp: new_paths_def split: option.splits)
  have "keyed cl_key (group_closure w @ \<lparr>cl_anc = ?g, cl_desc = ?g, cl_depth = 0\<rparr> #
          new_paths (group_closure w) ?g (gd_parent d))"
    using keys keyed_new_paths [OF keys, of ?g "gd_parent d"] fresh anc_old anc_new
    unfolding keyed_def by (force simp: cl_key_def)
  moreover have "cl_triple ` set (group_closure w @ \<lparr>cl_anc = ?g, cl_desc = ?g, cl_depth = 0\<rparr> #
          new_paths (group_closure w) ?g (gd_parent d)) =
      anc_spec (insert ?g (group_ids w)) ((par_of w)(?g := gd_parent d))"
    using anc_spec_insert [OF f fresh known] set_new_paths [where g = ?g, OF ok known] trip
    by (simp add: image_Un) (simp add: cl_triple_def)
  moreover have "groups_ok (fst (groupCreate w d t))"
    using gok fresh row forest_insert [OF f fresh known]
    unfolding groups_ok_def eq by (auto simp: par row keyed_snoc group_ids_def)
  ultimately show ?thesis unfolding closure_ok_def using eq row par by simp
qed

section \<open>Moving a group\<close>

lemma par_of_reparent:
  assumes "g \<in> group_ids w"
  shows "par_of (w\<lparr>group_closure := c, device_groups :=
      tbl_update (\<lambda>r. grp_id r = g) (\<lambda>r. r\<lparr>grp_parent := x\<rparr>) (device_groups w)\<rparr>) = (par_of w)(g := x)"
proof
  fix d
  let ?upd = "tbl_update (\<lambda>r. grp_id r = g) (\<lambda>r. r\<lparr>grp_parent := x\<rparr>) (device_groups w)"
  show "par_of (w\<lparr>group_closure := c, device_groups := ?upd\<rparr>) d = ((par_of w)(g := x)) d"
  proof (cases "d = g")
    case True
    then show ?thesis
      using assms find_group_None [of g w]
        find_key_update [of grp_id "\<lambda>r. r\<lparr>grp_parent := x\<rparr>" g "device_groups w"]
      by (auto simp: par_of_def)
  next
    case False
    then show ?thesis
      using find_key_update_other [of grp_id "\<lambda>r. r\<lparr>grp_parent := x\<rparr>" d "\<lambda>r. grp_id r = g" "device_groups w"]
      by (simp add: par_of_def)
  qed
qed

lemma group_ids_reparent [simp]:
  "group_ids (w\<lparr>group_closure := c, device_groups :=
      tbl_update (\<lambda>r. grp_id r = g) (\<lambda>r. r\<lparr>grp_parent := x\<rparr>) (device_groups w)\<rparr>) = group_ids w"
  using arg_cong [OF map_tbl_update [of grp_id "\<lambda>r. r\<lparr>grp_parent := x\<rparr>" "\<lambda>r. grp_id r = g" "device_groups w"],
    of set]
  by (simp add: group_ids_def)

lemma keys_reconnect:
  "map cl_key (reconnect rows q g) =
   List.product (map cl_anc (filter (\<lambda>p. cl_desc p = q) rows)) (map cl_desc (filter (\<lambda>s. cl_anc s = g) rows))"
  by (simp add: reconnect_def product_concat_map map_concat cl_key_def o_def)

lemma keyed_reconnect:
  assumes "keyed cl_key rows"
  shows "keyed cl_key (reconnect rows q g)"
proof -
  have "distinct (map cl_anc (filter (\<lambda>r. cl_desc r = q) rows))"
    using assms by (induction rows) (auto simp: keyed_def cl_key_def)
  moreover have "distinct (map cl_desc (filter (\<lambda>r. cl_anc r = g) rows))"
    using assms by (induction rows) (auto simp: keyed_def cl_key_def image_iff)
  ultimately show ?thesis unfolding keyed_def keys_reconnect by (rule distinct_product)
qed

lemma set_reconnect:
  "cl_triple ` set (reconnect rows q g) =
   {(cl_anc p, cl_desc s, cl_depth p + cl_depth s + 1) | p s.
      p \<in> set rows \<and> s \<in> set rows \<and> cl_desc p = q \<and> cl_anc s = g}"
  by (fastforce simp: reconnect_def cl_triple_def image_iff)

text \<open>The rows \<open>move\<close> keeps and the rows it adds, against the specification.\<close>

definition detached :: "'a org_scheme \<Rightarrow> nat \<Rightarrow> closure_row list" where
  "detached w g = tbl_delete (\<lambda>r. cl_desc r \<in> set (getDescendantIds w g) \<and> cl_anc r \<notin> set (getDescendantIds w g))
     (group_closure w)"

lemma detached_mem:
  assumes ok: "closure_ok w"
  shows "r \<in> set (detached w g) \<longleftrightarrow> r \<in> set (group_closure w) \<and>
    \<not> (cl_desc r \<in> subtree (par_of w) g \<and> cl_anc r \<notin> subtree (par_of w) g)"
proof -
  have "cl_anc r \<in> group_ids w \<and> cl_desc r \<in> group_ids w" if "r \<in> set (group_closure w)"
    using closure_ok_mem [OF ok, of r] nth_anc_in [OF closure_ok_forest [OF ok]] that by blast
  then show ?thesis
    by (auto simp: detached_def set_tbl_delete descendants_iff isDescendant_iff [OF ok])
qed

lemma set_detached:
  assumes ok: "closure_ok w"
  shows "cl_triple ` set (detached w g) =
    {(a, d, n) \<in> anc_spec (group_ids w) (par_of w). \<not> (d \<in> subtree (par_of w) g \<and> a \<notin> subtree (par_of w) g)}"
proof -
  have "cl_triple ` set (group_closure w) = anc_spec (group_ids w) (par_of w)"
    using ok by (simp add: closure_ok_def)
  moreover have "cl_triple ` set (detached w g) =
    {t \<in> cl_triple ` set (group_closure w). \<not> (fst (snd t) \<in> subtree (par_of w) g \<and> fst t \<notin> subtree (par_of w) g)}"
    by (auto simp: detached_mem [OF ok] cl_triple_def)
  ultimately show ?thesis by auto
qed

lemma set_moved:
  assumes ok: "closure_ok w" and q: "q \<in> group_ids w" "q \<notin> subtree (par_of w) g"
  shows "cl_triple ` set (reconnect (detached w g) q g) =
    {(a, d, n + k + 1) | a d n k p. Some q = Some p \<and> d \<in> group_ids w \<and>
       nth_anc (par_of w) n p = Some a \<and> nth_anc (par_of w) k d = Some g}" (is "_ = ?added")
proof (intro set_eqI iffI)
  fix t assume "t \<in> cl_triple ` set (reconnect (detached w g) q g)"
  then obtain p s where "p \<in> set (detached w g)" "s \<in> set (detached w g)" "cl_desc p = q" "cl_anc s = g"
    "t = (cl_anc p, cl_desc s, cl_depth p + cl_depth s + 1)" unfolding set_reconnect by auto
  then show "t \<in> ?added"
    using closure_ok_mem [OF ok, of p] closure_ok_mem [OF ok, of s] by (auto simp: detached_mem [OF ok])
next
  fix t assume "t \<in> ?added"
  then obtain a d n k where t: "t = (a, d, n + k + 1)" "d \<in> group_ids w"
    "nth_anc (par_of w) n q = Some a" "nth_anc (par_of w) k d = Some g" by auto
  let ?p = "\<lparr>cl_anc = a, cl_desc = q, cl_depth = n\<rparr>" and ?s = "\<lparr>cl_anc = g, cl_desc = d, cl_depth = k\<rparr>"
  have "g \<in> subtree (par_of w) g" by (auto simp: subtree_def intro: exI [of _ 0])
  then have "?p \<in> set (detached w g)" "?s \<in> set (detached w g)"
    using t q closure_row_exists [OF ok] by (auto simp: detached_mem [OF ok])
  then show "t \<in> cl_triple ` set (reconnect (detached w g) q g)"
    unfolding set_reconnect t(1) by force
qed

lemma moved_keys:
  assumes ok: "closure_ok w" and q: "q \<notin> subtree (par_of w) g"
  shows "keyed cl_key (detached w g @ reconnect (detached w g) q g)"
proof -
  have k: "keyed cl_key (detached w g)"
    using ok by (auto simp: detached_def closure_ok_def intro: keyed_tbl_delete)
  have "cl_desc r \<in> subtree (par_of w) g \<and> cl_anc r \<notin> subtree (par_of w) g"
    if "r \<in> set (reconnect (detached w g) q g)" for r
  proof -
    from that obtain p s where "p \<in> set (detached w g)" "s \<in> set (detached w g)" "cl_desc p = q"
      "cl_anc s = g" "cl_anc r = cl_anc p" "cl_desc r = cl_desc s" by (auto simp: reconnect_def)
    then have "nth_anc (par_of w) (cl_depth s) (cl_desc r) = Some g"
      "nth_anc (par_of w) (cl_depth p) q = Some (cl_anc r)"
      using closure_ok_mem [OF ok, of p] closure_ok_mem [OF ok, of s] by (auto simp: detached_mem [OF ok])
    moreover from this have "cl_desc r \<in> subtree (par_of w) g" by (auto simp: subtree_def)
    ultimately show ?thesis using q subtree_down [of "par_of w" "cl_depth p" q "cl_anc r" g] by auto
  qed
  then have "cl_key ` set (detached w g) \<inter> cl_key ` set (reconnect (detached w g) q g) = {}"
    by (fastforce simp: detached_mem [OF ok] cl_key_def)
  then show ?thesis using k keyed_reconnect [OF k] by (simp add: keyed_def)
qed

lemma groupMove_eq:
  assumes "find (\<lambda>r. grp_id r = g) (device_groups w) = Some row" "parent_known w x"
    "\<And>q. x = Some q \<Longrightarrow> \<not> isDescendant w g q"
  shows "groupMove w g x =
    (w\<lparr>group_closure := detached w g @ (case x of None \<Rightarrow> [] | Some q \<Rightarrow> reconnect (detached w g) q g),
       device_groups := tbl_update (\<lambda>r. grp_id r = g) (\<lambda>r. r\<lparr>grp_parent := x\<rparr>) (device_groups w)\<rparr>,
     Inr (Some (row\<lparr>grp_parent := x\<rparr>)))"
  using assms by (auto simp: groupMove_def Let_def detached_def split: option.split)

lemma groupMove_closure_ok:
  assumes ok: "closure_ok w" and moved: "groupMove w g x = (w', Inr (Some row))"
  shows "closure_ok w' \<and> par_of w' = (par_of w)(g := x)"
proof -
  let ?c = "detached w g @ (case x of None \<Rightarrow> [] | Some q \<Rightarrow> reconnect (detached w g) q g)"
  let ?gs = "tbl_update (\<lambda>r. grp_id r = g) (\<lambda>r. r\<lparr>grp_parent := x\<rparr>) (device_groups w)"
  from moved obtain row0 where found: "find (\<lambda>r. grp_id r = g) (device_groups w) = Some row0"
    and known: "parent_known w x" and nodesc: "\<And>q. x = Some q \<Longrightarrow> \<not> isDescendant w g q"
    by (auto simp: groupMove_def Let_def split: option.splits if_splits)
  have w': "w' = w\<lparr>group_closure := ?c, device_groups := ?gs\<rparr>"
    using groupMove_eq [OF found known nodesc] moved by simp
  have g: "g \<in> group_ids w" using found find_group_None [of g w] by auto
  have q: "q \<in> group_ids w \<and> q \<notin> subtree (par_of w) g" if "x = Some q" for q
    using known nodesc [OF that] that by (auto simp: parent_known_iff isDescendant_iff [OF ok])
  note f = closure_ok_forest [OF ok]
  have par: "par_of w' = (par_of w)(g := x)" unfolding w' by (rule par_of_reparent [OF g])
  have ids: "group_ids w' = group_ids w" unfolding w' by simp
  have "groups_ok w'"
    using ok forest_reparent [OF f g q] unfolding closure_ok_def groups_ok_def par ids
    by (auto simp: w' keyed_tbl_update)
  moreover have "keyed cl_key ?c"
  proof (cases x)
    case None
    then show ?thesis using ok by (auto simp: detached_def closure_ok_def intro: keyed_tbl_delete)
  next
    case (Some q)
    then show ?thesis using moved_keys [OF ok] q by simp
  qed
  moreover have "cl_triple ` set ?c = anc_spec (group_ids w) ((par_of w)(g := x))"
  proof -
    have "anc_spec (group_ids w) ((par_of w)(g := x)) =
      {(a, d, n) \<in> anc_spec (group_ids w) (par_of w).
         \<not> (d \<in> subtree (par_of w) g \<and> a \<notin> subtree (par_of w) g)} \<union>
      {(a, d, n + k + 1) | a d n k p. x = Some p \<and> d \<in> group_ids w \<and>
         nth_anc (par_of w) n p = Some a \<and> nth_anc (par_of w) k d = Some g}"
      using q by (intro anc_spec_reparent [OF f g]) simp
    then show ?thesis
      by (cases x) (simp_all add: set_detached [OF ok] set_moved [OF ok] q image_Un)
  qed
  ultimately show ?thesis using par ids by (simp add: closure_ok_def w')
qed

section \<open>Deleting a group\<close>

lemma par_of_delete:
  "par_of (fst (groupDelete w g)) = cut_par (par_of w) g"
proof
  fix d
  have "find (\<lambda>r. grp_id r = d) (tbl_update (\<lambda>r. grp_parent r = Some g) (\<lambda>r. r\<lparr>grp_parent := None\<rparr>)
      (tbl_delete (\<lambda>r. grp_id r = g) rows)) =
    (if d = g then None else map_option (\<lambda>r. if grp_parent r = Some g then r\<lparr>grp_parent := None\<rparr> else r)
       (find (\<lambda>r. grp_id r = d) rows))" for rows :: "group_row list"
    by (induction rows) (auto simp: tbl_update_def tbl_delete_def)
  then show "par_of (fst (groupDelete w g)) d = cut_par (par_of w) g d"
    by (cases "find (\<lambda>r. grp_id r = d) (device_groups w)") (auto simp: groupDelete_def par_of_def cut_par_def)
qed

lemma group_ids_delete: "group_ids (fst (groupDelete w g)) = group_ids w - {g}"
proof -
  have "grp_id ` set (tbl_update (\<lambda>r. grp_parent r = Some g) (\<lambda>r. r\<lparr>grp_parent := None\<rparr>) rows) = grp_id ` set rows"
    for rows :: "group_row list"
    using arg_cong [OF map_tbl_update [of grp_id "\<lambda>r. r\<lparr>grp_parent := None\<rparr>" "\<lambda>r. grp_parent r = Some g" rows], of set]
    by simp
  then show ?thesis by (auto simp: groupDelete_def group_ids_def set_tbl_delete)
qed

lemma forest_cut:
  assumes "forest ids par"
  shows "forest (ids - {g}) (cut_par par g)"
proof -
  have "nth_anc (cut_par par g) (Suc n) d \<noteq> Some d" for n d
  proof (cases "d = g")
    case True
    then show ?thesis by (simp add: cut_par_def)
  next
    case False
    then show ?thesis using nth_anc_cut [OF False, of par "Suc n"] forest_acyclic [OF assms, of "Suc n" d]
      by (auto simp del: nth_anc.simps split: if_splits)
  qed
  moreover have "d \<in> ids - {g} \<and> p \<in> ids - {g}" if "cut_par par g d = Some p" for d p
    using that forest_parent [OF assms, of d p] by (auto simp: cut_par_def split: if_splits)
  ultimately show ?thesis unfolding forest_def by blast
qed

lemma reaches_child: "nth_anc par m d = Some g \<Longrightarrow> d \<noteq> g \<Longrightarrow> \<exists>e. par e = Some g"
proof (induction m arbitrary: d)
  case 0
  then show ?case by simp
next
  case (Suc m)
  then obtain p where "par d = Some p" "nth_anc par m p = Some g" by (auto split: bind_splits)
  then show ?case using Suc.IH [of p] by (cases "p = g") auto
qed

lemma cut_agrees_iff:
  assumes f: "forest ids par"
  shows "{(a, d, n) \<in> anc_spec ids par. a \<noteq> g \<and> d \<noteq> g} = anc_spec (ids - {g}) (cut_par par g) \<longleftrightarrow>
    par g = None \<or> (\<forall>d. par d \<noteq> Some g)"
proof
  assume eq: "{(a, d, n) \<in> anc_spec ids par. a \<noteq> g \<and> d \<noteq> g} = anc_spec (ids - {g}) (cut_par par g)"
  show "par g = None \<or> (\<forall>d. par d \<noteq> Some g)"
  proof (rule ccontr)
    assume "\<not> (par g = None \<or> (\<forall>d. par d \<noteq> Some g))"
    then obtain p d where pd: "par g = Some p" "par d = Some g" by auto
    have "p \<noteq> g" "d \<noteq> g"
      using pd forest_acyclic [OF f, of 1 g] by auto
    then have "(p, d, 2) \<in> {(a, d, n) \<in> anc_spec ids par. a \<noteq> g \<and> d \<noteq> g}"
      using pd forest_parent [OF f pd(2)] by (simp add: anc_spec_def numeral_2_eq_2)
    then have "nth_anc (cut_par par g) 2 d = Some p" unfolding eq by (simp add: anc_spec_def)
    with pd show False by (simp add: numeral_2_eq_2 cut_par_def)
  qed
next
  assume leaf: "par g = None \<or> (\<forall>d. par d \<noteq> Some g)"
  have stop: "n = m" if "nth_anc par n d = Some a" "nth_anc par m d = Some g" "m \<le> n" "d \<noteq> g" for n m d a
  proof -
    have "\<exists>e. par e = Some g" using that(2,4) by (rule reaches_child)
    with leaf have "par g = None" by blast
    moreover have "nth_anc par (n - m) g = Some a" using that nth_anc_add [of par m "n - m" d] by simp
    ultimately show ?thesis using that(3) by (cases "n - m") auto
  qed
  have "nth_anc (cut_par par g) n d = Some a \<longleftrightarrow> nth_anc par n d = Some a \<and> a \<noteq> g" if "d \<noteq> g" for n d a
  proof (cases "\<exists>m \<le> n. nth_anc par m d = Some g")
    case True
    then obtain m where "m \<le> n" "nth_anc par m d = Some g" by blast
    then show ?thesis using nth_anc_cut [OF that, of par n] stop [of n d _ m] that by auto
  next
    case False
    then show ?thesis using nth_anc_cut [OF that, of par n] by auto
  qed
  then show "{(a, d, n) \<in> anc_spec ids par. a \<noteq> g \<and> d \<noteq> g} = anc_spec (ids - {g}) (cut_par par g)"
    by (auto simp: anc_spec_def)
qed

lemma groupDelete_groups_ok: "groups_ok w \<Longrightarrow> groups_ok (fst (groupDelete w g))"
  unfolding groups_ok_def par_of_delete group_ids_delete
  by (auto simp: forest_cut) (auto simp: groupDelete_def keyed_tbl_update keyed_tbl_delete)

lemma groupDelete_closure_ok_iff:
  assumes ok: "closure_ok w"
  shows "closure_ok (fst (groupDelete w g)) \<longleftrightarrow> par_of w g = None \<or> (\<forall>d. par_of w d \<noteq> Some g)"
proof -
  have rows: "cl_triple ` set (group_closure (fst (groupDelete w g))) =
      {(a, d, n) \<in> anc_spec (group_ids w) (par_of w). a \<noteq> g \<and> d \<noteq> g}"
  proof -
    have "cl_triple ` set (group_closure w) = anc_spec (group_ids w) (par_of w)"
      using ok by (simp add: closure_ok_def)
    moreover have "cl_triple ` set (group_closure (fst (groupDelete w g))) =
      {t \<in> cl_triple ` set (group_closure w). fst t \<noteq> g \<and> fst (snd t) \<noteq> g}"
      by (auto simp: groupDelete_def set_tbl_delete cl_triple_def)
    ultimately show ?thesis by auto
  qed
  have "keyed cl_key (group_closure (fst (groupDelete w g)))"
    using ok by (auto simp: groupDelete_def closure_ok_def intro: keyed_tbl_delete)
  moreover have "groups_ok (fst (groupDelete w g))" using ok groupDelete_groups_ok [of w g] by (simp add: closure_ok_def)
  ultimately have "closure_ok (fst (groupDelete w g)) \<longleftrightarrow> cl_triple ` set (group_closure (fst (groupDelete w g))) =
      anc_spec (group_ids (fst (groupDelete w g))) (par_of (fst (groupDelete w g)))" by (simp only: closure_ok_def) simp
  also have "\<dots> \<longleftrightarrow> par_of w g = None \<or> (\<forall>d. par_of w d \<noteq> Some g)"
    unfolding rows par_of_delete group_ids_delete by (rule cut_agrees_iff [OF closure_ok_forest [OF ok]])
  finally show ?thesis .
qed

section \<open>Slugs\<close>

lemma ensure_loop_fresh: "ensure_loop taken slug i \<notin> set taken"
proof (induction taken slug i rule: ensure_loop.induct)
  case (1 taken slug i)
  then show ?case by (subst ensure_loop.simps) (simp add: Let_def)
qed

lemma ensure_loop_form: "\<exists>j \<ge> i. ensure_loop taken slug i = slug_candidate slug j \<and>
    (\<forall>k. i \<le> k \<and> k < j \<longrightarrow> slug_candidate slug k \<in> set taken)"
proof (induction taken slug i rule: ensure_loop.induct)
  case (1 taken slug i)
  show ?case
  proof (cases "slug_candidate slug i \<in> set taken")
    case False
    then show ?thesis by (subst ensure_loop.simps) (auto simp: Let_def intro: exI [of _ i])
  next
    case True
    then obtain j where "Suc i \<le> j" "ensure_loop taken slug (Suc i) = slug_candidate slug j"
      "\<forall>k. Suc i \<le> k \<and> k < j \<longrightarrow> slug_candidate slug k \<in> set taken" using 1 by auto
    moreover from this True have "\<forall>k. i \<le> k \<and> k < j \<longrightarrow> slug_candidate slug k \<in> set taken"
      by (metis Suc_leI le_neq_implies_less)
    ultimately show ?thesis using True
      by (subst ensure_loop.simps) (auto simp: Let_def intro!: exI [of _ j])
  qed
qed

text \<open>
  C14. \<open>ensureUniqueSlug\<close> ends, and its result is a slug no other group has: the slug itself when it is
  free, otherwise \<open>slug-j\<close> for the least \<open>j \<ge> 1\<close> that is free.
\<close>

theorem ensureUniqueSlug_least_free:
  "ensureUniqueSlug groups slug ex \<notin> set (taken_slugs groups ex) \<and>
   (slug \<notin> set (taken_slugs groups ex) \<and> ensureUniqueSlug groups slug ex = slug \<or>
    slug \<in> set (taken_slugs groups ex) \<and>
    (\<exists>j. ensureUniqueSlug groups slug ex = slug_candidate slug j \<and> 1 \<le> j \<and>
      {k. 1 \<le> k \<and> k < j} \<subseteq> {k. slug_candidate slug k \<in> set (taken_slugs groups ex)}))"
proof (cases "slug \<in> set (taken_slugs groups ex)")
  case True
  then show ?thesis
    using ensure_loop_fresh [of "taken_slugs groups ex" slug 1] ensure_loop_form [of 1 "taken_slugs groups ex" slug]
    by (auto simp: ensureUniqueSlug_def Let_def)
qed (simp add: ensureUniqueSlug_def Let_def)

section \<open>The group operations as a machine\<close>

inductive group_step :: "org \<Rightarrow> org \<Rightarrow> bool" where
  create: "groupCreate w d t = (w', res) \<Longrightarrow> group_step w w'"
| move: "parent_known w x \<Longrightarrow> groupMove w g x = (w', res) \<Longrightarrow> group_step w w'"
| reorder: "groupReorder w items = w' \<Longrightarrow> group_step w w'"
| delete: "par_of w g = None \<or> \<not> list_ex (\<lambda>r. grp_parent r = Some g) (device_groups w) \<Longrightarrow>
    groupDelete w g = (w', res) \<Longrightarrow> group_step w w'"

lemma closure_ok_groupCreate: "closure_ok w \<Longrightarrow> closure_ok (fst (groupCreate w d t))"
  using groupCreate_closure_ok [of w d t] by (cases "parent_known w (gd_parent d)") (simp_all add: groupCreate_def)

lemma closure_ok_groupMove:
  assumes "closure_ok w" "parent_known w x" "groupMove w g x = (w', res)"
  shows "closure_ok w'"
proof (cases "\<exists>row. res = Inr (Some row)")
  case True
  then show ?thesis using groupMove_closure_ok assms by blast
next
  case False
  then have "w' = w" using assms(2,3) by (auto simp: groupMove_def Let_def split: option.splits if_splits)
  then show ?thesis using assms(1) by simp
qed

lemma closure_ok_reorder_one:
  assumes "closure_ok w"
  shows "closure_ok (w\<lparr>device_groups := tbl_update (\<lambda>r. grp_id r = g) (\<lambda>r. r\<lparr>grp_sort := so\<rparr>) (device_groups w)\<rparr>)"
proof -
  let ?gs = "tbl_update (\<lambda>r. grp_id r = g) (\<lambda>r. r\<lparr>grp_sort := so\<rparr>) (device_groups w)"
  have ids: "grp_id ` set ?gs = grp_id ` set (device_groups w)"
    using arg_cong [OF map_tbl_update [of grp_id "\<lambda>r. r\<lparr>grp_sort := so\<rparr>" "\<lambda>r. grp_id r = g" "device_groups w"], of set]
    by simp
  have "Option.bind (find (\<lambda>r. grp_id r = d) (tbl_update (\<lambda>r. grp_id r = g) (\<lambda>r. r\<lparr>grp_sort := so\<rparr>) rows)) grp_parent =
    Option.bind (find (\<lambda>r. grp_id r = d) rows) grp_parent" for d and rows :: "group_row list"
    by (induction rows) (auto simp: tbl_update_def)
  then have "par_of (w\<lparr>device_groups := ?gs\<rparr>) = par_of w" by (auto simp: par_of_def fun_eq_iff)
  then show ?thesis using assms ids
    by (simp add: closure_ok_def groups_ok_def group_ids_def keyed_tbl_update)
qed

lemma closure_ok_groupReorder: "closure_ok w \<Longrightarrow> closure_ok (groupReorder w items)"
  unfolding groupReorder_def
proof (induction items arbitrary: w)
  case (Cons it items)
  then show ?case by (cases it) (simp add: closure_ok_reorder_one)
qed simp

lemma par_of_child: "keyed grp_id (device_groups w) \<Longrightarrow>
    (\<exists>d. par_of w d = Some g) \<longleftrightarrow> list_ex (\<lambda>r. grp_parent r = Some g) (device_groups w)"
proof -
  assume k: "keyed grp_id (device_groups w)"
  show ?thesis
  proof
    assume "\<exists>d. par_of w d = Some g"
    then show "list_ex (\<lambda>r. grp_parent r = Some g) (device_groups w)"
      by (auto simp: par_of_def list_ex_iff split: bind_splits dest: find_SomeD)
  next
    assume "list_ex (\<lambda>r. grp_parent r = Some g) (device_groups w)"
    then obtain r where "r \<in> set (device_groups w)" "grp_parent r = Some g" by (auto simp: list_ex_iff)
    then show "\<exists>d. par_of w d = Some g"
      using find_keyed [OF k] by (intro exI [of _ "grp_id r"]) (simp add: par_of_def)
  qed
qed

interpretation group_machine: guarded_machine closure_ok group_step
proof
  fix s t assume ok: "closure_ok s" and st: "group_step s t"
  from st show "closure_ok t"
  proof cases
    case (create d tn res)
    then show ?thesis using closure_ok_groupCreate [OF ok, of d tn] by simp
  next
    case (move x g res)
    then show ?thesis using closure_ok_groupMove [OF ok] by blast
  next
    case (reorder items)
    then show ?thesis using closure_ok_groupReorder [OF ok] by blast
  next
    case (delete g res)
    have "keyed grp_id (device_groups s)" using ok by (simp add: closure_ok_def groups_ok_def)
    then show ?thesis using delete groupDelete_closure_ok_iff [OF ok, of g] par_of_child [of s g] by auto
  qed
qed

lemma closure_ok_empty: "closure_ok empty_org"
  by (simp add: closure_ok_def groups_ok_def empty_org_def keyed_def group_ids_def par_of_def forest_def anc_spec_def)

text \<open>A company, a site in it and a room in the site.\<close>

definition ex_company :: org where
  "ex_company = fst (groupCreate empty_org
     \<lparr>gd_name = ''Acme'', gd_parent = None, gd_sort = 0, gd_notifications = True\<rparr> 1)"

definition ex_site :: org where
  "ex_site = fst (groupCreate ex_company
     \<lparr>gd_name = ''Paris'', gd_parent = Some 1, gd_sort = 0, gd_notifications = False\<rparr> 1)"

definition ex_room :: org where
  "ex_room = fst (groupCreate ex_site
     \<lparr>gd_name = ''Room 1'', gd_parent = Some 2, gd_sort = 0, gd_notifications = False\<rparr> 1)"

lemma ex_room_reached: "group_step\<^sup>*\<^sup>* empty_org ex_room"
proof -
  have "group_step w (fst (groupCreate w d t))" for w d t
    by (rule group_step.create [of w d t _ "snd (groupCreate w d t)"]) simp
  then have "group_step empty_org ex_company" "group_step ex_company ex_site" "group_step ex_site ex_room"
    by (simp_all only: ex_company_def ex_site_def ex_room_def)
  then show ?thesis by (meson rtranclp.rtrancl_into_rtrancl rtranclp.rtrancl_refl)
qed

lemma ex_room_ok: "closure_ok ex_room"
  by (rule group_machine.reach_inv [OF ex_room_reached closure_ok_empty])

lemma ex_room_known: "parent_known ex_room (Some 1)" "3 \<in> group_ids ex_room"
  by code_simp+

text \<open>
  C1. After any sequence of group creations, moves, reorderings and deletions (of a group that has no
  parent or no child group), the closure table is the ancestor relation of the parent pointers: one
  row for each group and each of its ancestors, itself included, with the right depth, and the parent
  pointers form a forest.
\<close>

theorem closure_table_is_ancestor_relation:
  assumes "group_step\<^sup>*\<^sup>* empty_org w"
  shows "forest (group_ids w) (par_of w) \<and> keyed cl_key (group_closure w) \<and>
    cl_triple ` set (group_closure w) =
      {(a, d, n). d \<in> group_ids w \<and> nth_anc (par_of w) n d = Some a}"
  using group_machine.reach_inv [OF assms closure_ok_empty]
  by (simp add: closure_ok_def groups_ok_def anc_spec_def)

lemma closure_table_is_ancestor_relation_witness:
  "group_step\<^sup>*\<^sup>* empty_org ex_room \<and> forest (group_ids ex_room) (par_of ex_room) \<and>
   keyed cl_key (group_closure ex_room) \<and>
   cl_triple ` set (group_closure ex_room) =
     {(a, d, n). d \<in> group_ids ex_room \<and> nth_anc (par_of ex_room) n d = Some a} \<and>
   length (group_closure ex_room) = 6"
proof -
  have "length (group_closure ex_room) = 6" by code_simp
  with closure_table_is_ancestor_relation [OF ex_room_reached] ex_room_reached show ?thesis by blast
qed

text \<open>
  C37. From a correct closure table, \<open>move\<close> is refused exactly when the new parent lies in the subtree of
  the moved group (itself included), an unknown group is left alone, and a successful move changes the
  one parent pointer and nothing else of the tree.
\<close>

theorem groupMove_outcome:
  assumes "closure_ok w" and "parent_known w x" and "g \<in> group_ids w"
  shows "case groupMove w g x of (w', res) \<Rightarrow>
    (res = Inl MoveIntoDescendant \<and> w' = w \<and> (\<exists>q n. x = Some q \<and> nth_anc (par_of w) n q = Some g)) \<or>
    ((\<exists>row. res = Inr (Some row)) \<and> par_of w' = (par_of w)(g := x) \<and> closure_ok w' \<and>
     \<not> (\<exists>q n. x = Some q \<and> nth_anc (par_of w) n q = Some g))"
proof -
  have found: "\<exists>row. find (\<lambda>r. grp_id r = g) (device_groups w) = Some row"
    using assms(3) find_group_None [of g w] by auto
  have desc: "(\<exists>q n. x = Some q \<and> nth_anc (par_of w) n q = Some g) \<longleftrightarrow> (\<exists>q. x = Some q \<and> isDescendant w g q)"
    using assms(2) by (auto simp: isDescendant_iff [OF assms(1)] parent_known_iff subtree_def)
  show ?thesis
  proof (cases "\<exists>q. x = Some q \<and> isDescendant w g q")
    case True
    then show ?thesis using found desc by (auto simp: groupMove_def)
  next
    case False
    obtain row where row: "find (\<lambda>r. grp_id r = g) (device_groups w) = Some row" using found by blast
    obtain w' where "groupMove w g x = (w', Inr (Some (row\<lparr>grp_parent := x\<rparr>)))"
      using groupMove_eq [OF row assms(2)] False by blast
    with groupMove_closure_ok [OF assms(1) this] False desc show ?thesis by auto
  qed
qed

lemma groupMove_outcome_witness:
  "case groupMove ex_room 3 (Some 1) of (w', res) \<Rightarrow> par_of w' = (par_of ex_room)(3 := Some 1) \<and> closure_ok w'"
proof -
  have "\<not> snd (groupMove ex_room 3 (Some 1)) = Inl MoveIntoDescendant" by code_simp
  with groupMove_outcome [OF ex_room_ok ex_room_known] show ?thesis by (auto split: prod.splits)
qed

text \<open>
  Deleting a group keeps the closure table correct exactly when the group had no parent or no child
  group. Otherwise the schema turns the children into roots while the rows that tie them to the former
  grandparent stay, so the table goes on reporting them as its descendants.
\<close>

theorem groupDelete_keeps_closure_iff:
  assumes "closure_ok w"
  shows "closure_ok (fst (groupDelete w g)) \<longleftrightarrow> par_of w g = None \<or> (\<forall>d. par_of w d \<noteq> Some g)"
  using assms by (rule groupDelete_closure_ok_iff)

lemma groupDelete_keeps_closure_iff_witness:
  "closure_ok ex_room \<and> \<not> closure_ok (fst (groupDelete ex_room 2)) \<and>
   isDescendant (fst (groupDelete ex_room 2)) 1 3 \<and> par_of (fst (groupDelete ex_room 2)) 3 = None"
proof -
  have "par_of ex_room 2 = Some 1" "par_of ex_room 3 = Some 2" by code_simp+
  then have "\<not> closure_ok (fst (groupDelete ex_room 2))"
    using groupDelete_keeps_closure_iff [OF ex_room_ok, of 2] by auto
  moreover have "isDescendant (fst (groupDelete ex_room 2)) 1 3" "par_of (fst (groupDelete ex_room 2)) 3 = None"
    by code_simp+
  ultimately show ?thesis using ex_room_ok by blast
qed

end
