(* ===== verification/Settings.thy ===== *)
theory Settings
  imports Group_Closure
begin

text \<open>
  Settings and their inheritance (\<^verbatim>\<open>server/src/services/settings.service.ts\<close>,
  \<^verbatim>\<open>shared/src/settingsDefaults.ts\<close>): hardcoded defaults, then the tenant's global overrides, then the
  groups from the root to the leaf, then the device. Each resolved value carries its source.
\<close>

section \<open>Definitions and defaults\<close>

definition settings_keys :: "string list" where
  "settings_keys = [''pushInterval'', ''scanInterval'', ''fastPollInterval'', ''maxMissedPushes'',
     ''notificationCooldown'', ''inventoryRetentionDays'', ''autoApproveDevices'', ''tfaTrustHours'']"

record setting_definition =
  sd_key :: string
  sd_min :: "rat option"
  sd_max :: "rat option"
  sd_default :: setting_value
  sd_global_only :: bool

definition num_def :: "string \<Rightarrow> rat \<Rightarrow> rat \<Rightarrow> rat \<Rightarrow> bool \<Rightarrow> setting_definition" where
  "num_def k mn mx d gl = \<lparr>sd_key = k, sd_min = Some mn, sd_max = Some mx, sd_default = SNum d, sd_global_only = gl\<rparr>"

definition settings_definitions :: "setting_definition list" where
  "settings_definitions =
     [num_def ''pushInterval'' 10 3600 60 False,
      num_def ''scanInterval'' 0 86400 3600 False,
      num_def ''fastPollInterval'' 3 30 5 False,
      num_def ''maxMissedPushes'' 1 20 3 False,
      num_def ''notificationCooldown'' 0 86400 300 False,
      num_def ''inventoryRetentionDays'' 7 365 90 True,
      \<lparr>sd_key = ''autoApproveDevices'', sd_min = None, sd_max = None, sd_default = SBool False, sd_global_only = True\<rparr>,
      num_def ''tfaTrustHours'' 0 8760 24 True]"

definition hardcoded_defaults :: "(string \<times> setting_value) list" where
  "hardcoded_defaults =
     [(''pushInterval'', SNum 60), (''scanInterval'', SNum 3600), (''fastPollInterval'', SNum 5),
      (''maxMissedPushes'', SNum 3), (''notificationCooldown'', SNum 300),
      (''inventoryRetentionDays'', SNum 90), (''autoApproveDevices'', SBool False), (''tfaTrustHours'', SNum 24)]"

definition hardcoded_default :: "string \<Rightarrow> setting_value" where
  "hardcoded_default k = (case map_of hardcoded_defaults k of Some v \<Rightarrow> v | None \<Rightarrow> SBool False)"

section \<open>Rows\<close>

datatype settings_error =
    UnknownKey string
  | GlobalOnlyKey string setting_scope
  | OutOfRange string "rat option" "rat option"

text \<open>A boolean compares as 0 or 1.\<close>

primrec value_num :: "setting_value \<Rightarrow> rat" where
  "value_num (SNum r) = r"
| "value_num (SBool b) = (if b then 1 else 0)"

definition row_at :: "nat \<Rightarrow> setting_scope \<Rightarrow> nat option \<Rightarrow> setting_row \<Rightarrow> bool" where
  "row_at t sc i r \<longleftrightarrow> set_tenant r = t \<and> set_scope r = sc \<and> set_scope_id r = i"

definition getByScope :: "'a org_scheme \<Rightarrow> nat \<Rightarrow> setting_scope \<Rightarrow> nat option \<Rightarrow> string \<Rightarrow> setting_value option" where
  "getByScope w t sc i =
     map_of (rev (map (\<lambda>r. (set_key r, set_value r)) (filter (row_at t sc i) (settings w))))"

definition out_of_range :: "setting_definition \<Rightarrow> setting_value \<Rightarrow> bool" where
  "out_of_range d v \<longleftrightarrow>
     (case sd_min d of None \<Rightarrow> False | Some m \<Rightarrow> value_num v < m) \<or>
     (case sd_max d of None \<Rightarrow> False | Some m \<Rightarrow> value_num v > m)"

definition upsert_setting :: "setting_row list \<Rightarrow> nat \<Rightarrow> setting_scope \<Rightarrow> nat option \<Rightarrow> string \<Rightarrow> setting_value \<Rightarrow> setting_row list" where
  "upsert_setting rows t sc i k v =
     (if list_ex (\<lambda>r. row_at t sc i r \<and> set_key r = k) rows
      then tbl_update (\<lambda>r. row_at t sc i r \<and> set_key r = k) (\<lambda>r. r\<lparr>set_value := v\<rparr>) rows
      else rows @ [\<lparr>set_tenant = t, set_scope = sc, set_scope_id = i, set_key = k, set_value = v\<rparr>])"

definition settingsSet ::
    "'a org_scheme \<Rightarrow> nat \<Rightarrow> setting_scope \<Rightarrow> nat option \<Rightarrow> string \<Rightarrow> setting_value \<Rightarrow> settings_error + 'a org_scheme" where
  "settingsSet w t sc i k v =
     (case find (\<lambda>d. sd_key d = k) settings_definitions of
        None \<Rightarrow> Inl (UnknownKey k)
      | Some d \<Rightarrow>
          if sd_global_only d \<and> sc \<noteq> SGlobal then Inl (GlobalOnlyKey k sc)
          else if out_of_range d v then Inl (OutOfRange k (sd_min d) (sd_max d))
          else Inr (w\<lparr>settings := upsert_setting (settings w) t sc i k v\<rparr>))"

definition settingsRemove :: "'a org_scheme \<Rightarrow> nat \<Rightarrow> setting_scope \<Rightarrow> nat option \<Rightarrow> string \<Rightarrow> 'a org_scheme \<times> bool" where
  "settingsRemove w t sc i k =
     (w\<lparr>settings := tbl_delete (\<lambda>r. row_at t sc i r \<and> set_key r = k) (settings w)\<rparr>,
      list_ex (\<lambda>r. row_at t sc i r \<and> set_key r = k) (settings w))"

text \<open>\<open>setBulk\<close> stops at the first refused entry; the entries before it stay.\<close>

fun settingsSetBulk ::
    "'a org_scheme \<Rightarrow> nat \<Rightarrow> setting_scope \<Rightarrow> nat option \<Rightarrow> (string \<times> setting_value) list \<Rightarrow>
     'a org_scheme \<times> settings_error option" where
  "settingsSetBulk w t sc i [] = (w, None)"
| "settingsSetBulk w t sc i ((k, v) # rest) =
     (case settingsSet w t sc i k v of
        Inl e \<Rightarrow> (w, Some e)
      | Inr w' \<Rightarrow> settingsSetBulk w' t sc i rest)"

section \<open>Resolution\<close>

datatype setting_source = SrcDefault | SrcGlobal | SrcGroup | SrcDevice

record resolved_setting =
  rs_value :: setting_value
  rs_source :: setting_source
  rs_source_id :: "nat option"
  rs_source_name :: string

type_synonym resolved_settings = "(string \<times> resolved_setting) list"

definition default_layer :: resolved_settings where
  "default_layer = map (\<lambda>k. (k, \<lparr>rs_value = hardcoded_default k, rs_source = SrcDefault,
     rs_source_id = None, rs_source_name = ''Default''\<rparr>)) settings_keys"

text \<open>One pass of \<open>for (const key of allKeys) if (overrides[key] !== undefined) resolved[key] = ...\<close>.\<close>

definition apply_overrides ::
    "(string \<Rightarrow> setting_value option) \<Rightarrow> setting_source \<Rightarrow> nat option \<Rightarrow> string \<Rightarrow> resolved_settings \<Rightarrow> resolved_settings" where
  "apply_overrides ovr src i nm res =
     map (\<lambda>(k, x). case ovr k of
            None \<Rightarrow> (k, x)
          | Some v \<Rightarrow> (k, \<lparr>rs_value = v, rs_source = src, rs_source_id = i, rs_source_name = nm\<rparr>)) res"

definition apply_group :: "'a org_scheme \<Rightarrow> nat \<Rightarrow> resolved_settings \<Rightarrow> group_row \<Rightarrow> resolved_settings" where
  "apply_group w t res g =
     apply_overrides (getByScope w t SGroup (Some (grp_id g))) SrcGroup (Some (grp_id g)) (grp_name g) res"

definition settingsResolveForDevice :: "'a org_scheme \<Rightarrow> nat \<Rightarrow> nat \<Rightarrow> nat option \<Rightarrow> resolved_settings" where
  "settingsResolveForDevice w t dev grp =
     (let r1 = default_layer;
          r2 = apply_overrides (getByScope w t SGlobal None) SrcGlobal None ''Global'' r1;
          r3 = (case grp of None \<Rightarrow> r2
                | Some g \<Rightarrow> foldl (apply_group w t) r2 (groups_of w (ancestor_rows w g)))
      in apply_overrides (getByScope w t SDevice (Some dev)) SrcDevice (Some dev) ''This device'' r3)"

definition settingsResolveForGroup ::
    "'a org_scheme \<Rightarrow> nat \<Rightarrow> nat \<Rightarrow> resolved_settings \<times> (string \<Rightarrow> setting_value option)" where
  "settingsResolveForGroup w t g =
     (let r1 = default_layer;
          r2 = apply_overrides (getByScope w t SGlobal None) SrcGlobal None ''Global'' r1;
          r3 = foldl (apply_group w t) r2 (groups_of w (filter (\<lambda>r. cl_depth r > 0) (ancestor_rows w g)))
      in (r3, getByScope w t SGroup (Some g)))"

definition settingsResolveGlobal :: "'a org_scheme \<Rightarrow> nat \<Rightarrow> resolved_settings \<times> (string \<Rightarrow> setting_value option)" where
  "settingsResolveGlobal w t = (default_layer, getByScope w t SGlobal None)"

definition getGlobalNumber :: "'a org_scheme \<Rightarrow> nat \<Rightarrow> string \<Rightarrow> setting_value" where
  "getGlobalNumber w t k =
     (case getByScope w t SGlobal None k of Some (SNum n) \<Rightarrow> SNum n | _ \<Rightarrow> hardcoded_default k)"

section \<open>The cascade\<close>

text \<open>A layer is a source with what it overrides; the device is resolved from its list of layers.\<close>

datatype setting_layer = SettingLayer (sl_get: "string \<Rightarrow> setting_value option") setting_source "nat option" string

primrec layer_pick :: "string \<Rightarrow> setting_layer \<Rightarrow> resolved_setting option" where
  "layer_pick k (SettingLayer ovr src i nm) =
     map_option (\<lambda>v. \<lparr>rs_value = v, rs_source = src, rs_source_id = i, rs_source_name = nm\<rparr>) (ovr k)"

primrec apply_layer :: "setting_layer \<Rightarrow> resolved_settings \<Rightarrow> resolved_settings" where
  "apply_layer (SettingLayer ovr src i nm) res = apply_overrides ovr src i nm res"

definition resolve_key :: "string \<Rightarrow> setting_layer list \<Rightarrow> resolved_setting option" where
  "resolve_key k ls = map_of (foldl (\<lambda>res l. apply_layer l res) default_layer ls) k"

definition group_layer :: "'a org_scheme \<Rightarrow> nat \<Rightarrow> group_row \<Rightarrow> setting_layer" where
  "group_layer w t g = SettingLayer (getByScope w t SGroup (Some (grp_id g))) SrcGroup (Some (grp_id g)) (grp_name g)"

definition global_layer :: "'a org_scheme \<Rightarrow> nat \<Rightarrow> setting_layer" where
  "global_layer w t = SettingLayer (getByScope w t SGlobal None) SrcGlobal None ''Global''"

definition device_layer :: "'a org_scheme \<Rightarrow> nat \<Rightarrow> nat \<Rightarrow> setting_layer" where
  "device_layer w t d = SettingLayer (getByScope w t SDevice (Some d)) SrcDevice (Some d) ''This device''"

lemma map_of_apply_overrides:
  "map_of (apply_overrides ovr src i nm res) k =
     map_option (\<lambda>x. case ovr k of None \<Rightarrow> x
       | Some v \<Rightarrow> \<lparr>rs_value = v, rs_source = src, rs_source_id = i, rs_source_name = nm\<rparr>) (map_of res k)"
  by (induction res) (auto simp: apply_overrides_def split: option.splits)

lemma map_of_default_layer:
  "map_of default_layer k = (if k \<in> set settings_keys then Some \<lparr>rs_value = hardcoded_default k,
     rs_source = SrcDefault, rs_source_id = None, rs_source_name = ''Default''\<rparr> else None)"
  by (simp add: default_layer_def map_of_map_restrict restrict_map_def)

definition default_setting :: "string \<Rightarrow> resolved_setting" where
  "default_setting k = \<lparr>rs_value = hardcoded_default k, rs_source = SrcDefault, rs_source_id = None,
     rs_source_name = ''Default''\<rparr>"

definition resolve_slot :: "string \<Rightarrow> setting_layer list \<Rightarrow> resolved_setting" where
  "resolve_slot k ls = foldl (\<lambda>x l. case layer_pick k l of None \<Rightarrow> x | Some y \<Rightarrow> y) (default_setting k) ls"

interpretation setting_cascade: layered_override "layer_pick k" "default_setting k" "resolve_slot k" for k
  by unfold_locales (auto simp: resolve_slot_def split: option.split)

lemma resolve_key_slot: "k \<in> set settings_keys \<Longrightarrow> resolve_key k ls = Some (resolve_slot k ls)"
proof (induction ls rule: rev_induct)
  case Nil
  then show ?case by (simp add: resolve_key_def resolve_slot_def map_of_default_layer default_setting_def)
next
  case (snoc l ls)
  then show ?case
    by (cases l) (auto simp: resolve_key_def resolve_slot_def map_of_apply_overrides split: option.split)
qed

definition device_layers :: "'a org_scheme \<Rightarrow> nat \<Rightarrow> nat \<Rightarrow> nat option \<Rightarrow> setting_layer list" where
  "device_layers w t d grp = global_layer w t #
     (case grp of None \<Rightarrow> [] | Some g \<Rightarrow> map (group_layer w t) (groups_of w (ancestor_rows w g))) @ [device_layer w t d]"

lemma foldl_apply_group:
  "foldl (apply_group w t) res gs = foldl (\<lambda>res l. apply_layer l res) res (map (group_layer w t) gs)"
  by (induction gs arbitrary: res) (simp_all add: apply_group_def group_layer_def)

lemma resolveForDevice_layers:
  "map_of (settingsResolveForDevice w t d grp) k = resolve_key k (device_layers w t d grp)"
  by (cases grp) (simp_all add: settingsResolveForDevice_def resolve_key_def device_layers_def foldl_apply_group
    global_layer_def device_layer_def Let_def)

text \<open>The rows of the ancestors of a group, nearest first, against the parent pointers.\<close>

definition grp_of :: "'a org_scheme \<Rightarrow> closure_row \<Rightarrow> group_row" where
  "grp_of w r = the (find (\<lambda>x. grp_id x = cl_anc r) (device_groups w))"

lemma set_ancestor_rows: "set (ancestor_rows w g) = {r \<in> set (group_closure w). cl_desc r = g}"
  by (auto simp: ancestor_rows_def depth_desc_def)

lemma groups_of_closure:
  assumes ok: "closure_ok w" and rows: "set rows \<subseteq> set (group_closure w)"
  shows "groups_of w rows = map (grp_of w) rows \<and> (\<forall>r \<in> set rows. grp_id (grp_of w r) = cl_anc r)"
  using rows
proof (induction rows)
  case Nil
  then show ?case by (simp add: groups_of_def)
next
  case (Cons r rows)
  have k: "keyed grp_id (device_groups w)" using ok by (simp add: closure_ok_def groups_ok_def)
  from Cons.prems have "cl_anc r \<in> group_ids w"
    using closure_ok_mem [OF ok, of r] nth_anc_in [OF closure_ok_forest [OF ok]] by auto
  then obtain x where x: "x \<in> set (device_groups w)" "cl_anc r = grp_id x" by (auto simp: group_ids_def)
  with find_keyed [OF k x(1)] filter_keyed [OF k x(1)] Cons show ?case
    by (simp add: groups_of_def grp_of_def)
qed

lemma find_map_pick: "find P (map f xs) = map_option f (find (\<lambda>x. P (f x)) xs)"
  by (induction xs) auto

lemma nearest_group:
  assumes ok: "closure_ok w" and g: "g \<in> group_ids w"
  shows "case find (\<lambda>x. P (grp_id x)) (rev (groups_of w (ancestor_rows w g))) of
      Some x \<Rightarrow> (\<exists>n. nth_anc (par_of w) n g = Some (grp_id x) \<and> P (grp_id x) \<and>
        (\<forall>m < n. \<forall>b. nth_anc (par_of w) m g = Some b \<longrightarrow> \<not> P b))
    | None \<Rightarrow> (\<forall>n b. nth_anc (par_of w) n g = Some b \<longrightarrow> \<not> P b)"
proof -
  let ?rows = "rev (ancestor_rows w g)"
  have gs: "rev (groups_of w (ancestor_rows w g)) = map (grp_of w) ?rows"
    and ids: "\<forall>r \<in> set ?rows. grp_id (grp_of w r) = cl_anc r"
    using groups_of_closure [OF ok, of "ancestor_rows w g"] by (auto simp: set_ancestor_rows rev_map)
  have sorted: "sorted (map cl_depth ?rows)" by (simp add: ancestor_rows_def depth_desc_def)
  have mem: "r \<in> set ?rows \<longleftrightarrow> nth_anc (par_of w) (cl_depth r) g = Some (cl_anc r) \<and> cl_desc r = g" for r
    using closure_ok_mem [OF ok, of r] g by (auto simp: set_ancestor_rows)
  have row: "\<exists>r \<in> set ?rows. cl_depth r = n \<and> cl_anc r = b" if "nth_anc (par_of w) n g = Some b" for n b
    using mem [of "\<lparr>cl_anc = b, cl_desc = g, cl_depth = n\<rparr>"] that by force
  show ?thesis
  proof (cases "find (\<lambda>r. P (grp_id (grp_of w r))) ?rows")
    case None
    then have "\<not> P (cl_anc r)" if "r \<in> set ?rows" for r
      using that ids by (auto simp: find_None_iff)
    then show ?thesis using None row unfolding gs find_map_pick by fastforce
  next
    case (Some r)
    then have r: "r \<in> set ?rows" "P (cl_anc r)" using find_SomeD [OF Some] ids by auto
    have "\<not> P b" if "m < cl_depth r" "nth_anc (par_of w) m g = Some b" for m b
    proof
      assume "P b"
      with row [OF that(2)] obtain y where "y \<in> set ?rows" "cl_depth y = m" "P (grp_id (grp_of w y))"
        using ids by auto
      with find_sorted_least [OF sorted Some] that(1) show False by fastforce
    qed
    then show ?thesis using Some r ids mem [of r] unfolding gs find_map_pick by auto
  qed
qed

lemma pick_group_layer: "layer_pick k (group_layer w t x) =
    map_option (\<lambda>v. \<lparr>rs_value = v, rs_source = SrcGroup, rs_source_id = Some (grp_id x), rs_source_name = grp_name x\<rparr>)
      (getByScope w t SGroup (Some (grp_id x)) k)"
  by (simp add: group_layer_def)

text \<open>
  C7. The value a device gets for a setting is its own override when it has one; otherwise that of the
  nearest group, walking the parent pointers up from the group of the device, that overrides it;
  otherwise the tenant's global override; otherwise the hardcoded default. The recorded source is the
  layer the value comes from.
\<close>

theorem settings_nearest_wins:
  assumes "closure_ok w" and "g \<in> group_ids w" and "k \<in> set settings_keys"
  shows "\<exists>x. map_of (settingsResolveForDevice w t d (Some g)) k = Some x \<and>
    (case getByScope w t SDevice (Some d) k of
       Some v \<Rightarrow> rs_value x = v \<and> rs_source x = SrcDevice \<and> rs_source_id x = Some d
     | None \<Rightarrow>
        (\<exists>n a v. nth_anc (par_of w) n g = Some a \<and> getByScope w t SGroup (Some a) k = Some v \<and>
           (\<forall>m < n. \<forall>b. nth_anc (par_of w) m g = Some b \<longrightarrow> getByScope w t SGroup (Some b) k = None) \<and>
           rs_value x = v \<and> rs_source x = SrcGroup \<and> rs_source_id x = Some a) \<or>
        ((\<forall>n b. nth_anc (par_of w) n g = Some b \<longrightarrow> getByScope w t SGroup (Some b) k = None) \<and>
         (case getByScope w t SGlobal None k of
            Some v \<Rightarrow> rs_value x = v \<and> rs_source x = SrcGlobal
          | None \<Rightarrow> rs_value x = hardcoded_default k \<and> rs_source x = SrcDefault)))"
proof -
  let ?gs = "groups_of w (ancestor_rows w g)"
  let ?P = "\<lambda>a. getByScope w t SGroup (Some a) k \<noteq> None"
  have x: "map_of (settingsResolveForDevice w t d (Some g)) k = Some (resolve_slot k (device_layers w t d (Some g)))"
    using assms(3) by (simp add: resolveForDevice_layers resolve_key_slot)
  have rv: "rev (device_layers w t d (Some g)) = device_layer w t d # map (group_layer w t) (rev ?gs) @ [global_layer w t]"
    by (simp add: device_layers_def rev_map)
  have fd: "find (\<lambda>l. layer_pick k l \<noteq> None) (map (group_layer w t) (rev ?gs)) =
      map_option (group_layer w t) (find (\<lambda>x. ?P (grp_id x)) (rev ?gs))"
    by (simp add: find_map_pick pick_group_layer)
  note slot = setting_cascade.resolve_find [of k "device_layers w t d (Some g)", unfolded rv]
  show ?thesis
  proof (cases "getByScope w t SDevice (Some d) k")
    case (Some v)
    then show ?thesis using x slot by (simp add: device_layer_def)
  next
    case None
    then have "layer_pick k (device_layer w t d) = None" by (simp add: device_layer_def)
    then have s: "resolve_slot k (device_layers w t d (Some g)) =
        (case orElse (map_option (group_layer w t) (find (\<lambda>x. ?P (grp_id x)) (rev ?gs)))
           (find (\<lambda>l. layer_pick k l \<noteq> None) [global_layer w t]) of
         None \<Rightarrow> default_setting k | Some l \<Rightarrow> the (layer_pick k l))"
      using slot by (simp only: find.simps(2) [of _ "device_layer w t d"] find_append fd simp_thms if_False)
    show ?thesis
    proof (cases "find (\<lambda>x. ?P (grp_id x)) (rev ?gs)")
      case None': None
      then have "\<forall>n b. nth_anc (par_of w) n g = Some b \<longrightarrow> getByScope w t SGroup (Some b) k = None"
        using nearest_group [OF assms(1,2), of ?P] by simp
      then show ?thesis using None None' x s
        by (auto simp: global_layer_def default_setting_def split: option.splits)
    next
      case (Some y)
      then obtain n v where "nth_anc (par_of w) n g = Some (grp_id y)"
          "getByScope w t SGroup (Some (grp_id y)) k = Some v"
          "\<forall>m < n. \<forall>b. nth_anc (par_of w) m g = Some b \<longrightarrow> getByScope w t SGroup (Some b) k = None"
        using nearest_group [OF assms(1,2), of ?P] by auto
      then show ?thesis using None Some x s
        by (auto simp: pick_group_layer intro!: exI [of _ n])
    qed
  qed
qed

text \<open>The site of the example tree, where the company pushes every 120 seconds and the room every 30.\<close>

definition ex_settings :: org where
  "ex_settings = ex_room\<lparr>settings :=
     [\<lparr>set_tenant = 1, set_scope = SGroup, set_scope_id = Some 1, set_key = ''pushInterval'', set_value = SNum 120\<rparr>,
      \<lparr>set_tenant = 1, set_scope = SGlobal, set_scope_id = None, set_key = ''tfaTrustHours'', set_value = SNum 0\<rparr>]\<rparr>"

lemma ex_settings_ok: "closure_ok ex_settings"
  using ex_room_ok closure_ok_cong [of ex_settings ex_room] by (simp add: ex_settings_def)

lemma settings_nearest_wins_witness:
  "\<exists>x. map_of (settingsResolveForDevice ex_settings 1 7 (Some 3)) ''pushInterval'' = Some x \<and>
     getByScope ex_settings 1 SDevice (Some 7) ''pushInterval'' = None \<and>
     rs_value x = SNum 120 \<and> rs_source x = SrcGroup \<and> rs_source_id x = Some 1"
proof -
  have g: "3 \<in> group_ids ex_settings" by code_simp
  have k: "''pushInterval'' \<in> set settings_keys" by code_simp
  have e: "getByScope ex_settings 1 SDevice (Some 7) ''pushInterval'' = None"
    "map_option rs_value (map_of (settingsResolveForDevice ex_settings 1 7 (Some 3)) ''pushInterval'') = Some (SNum 120)"
    "map_option rs_source (map_of (settingsResolveForDevice ex_settings 1 7 (Some 3)) ''pushInterval'') = Some SrcGroup"
    "map_option rs_source_id (map_of (settingsResolveForDevice ex_settings 1 7 (Some 3)) ''pushInterval'') = Some (Some 1)"
    by code_simp+
  from settings_nearest_wins [OF ex_settings_ok g k, of 1 7]
  obtain x where "map_of (settingsResolveForDevice ex_settings 1 7 (Some 3)) ''pushInterval'' = Some x" by blast
  with e show ?thesis by auto
qed

section \<open>Stored rows stay valid\<close>

definition row_valid :: "setting_row \<Rightarrow> bool" where
  "row_valid r \<longleftrightarrow> (case find (\<lambda>d. sd_key d = set_key r) settings_definitions of
      None \<Rightarrow> False
    | Some d \<Rightarrow> (sd_global_only d \<longrightarrow> set_scope r = SGlobal) \<and> \<not> out_of_range d (set_value r))"

definition settings_ok :: "'a org_scheme \<Rightarrow> bool" where
  "settings_ok w \<longleftrightarrow> (\<forall>r \<in> set (settings w). row_valid r) \<and>
     keyed (\<lambda>r. (set_tenant r, set_scope r, set_scope_id r, set_key r)) (settings w)"

lemma settings_ok_set:
  assumes "settings_ok w" "settingsSet w t sc i k v = Inr w'"
  shows "settings_ok w'"
proof -
  from assms(2) obtain d where d: "find (\<lambda>d. sd_key d = k) settings_definitions = Some d"
    "sd_global_only d \<longrightarrow> sc = SGlobal" "\<not> out_of_range d v"
    "w' = w\<lparr>settings := upsert_setting (settings w) t sc i k v\<rparr>"
    by (auto simp: settingsSet_def split: option.splits if_splits)
  then show ?thesis using assms(1)
    by (auto simp: settings_ok_def upsert_setting_def set_tbl_update row_valid_def row_at_def keyed_tbl_update
      keyed_snoc list_ex_iff split: option.splits)
qed

lemma settings_ok_remove: "settings_ok w \<Longrightarrow> settings_ok (fst (settingsRemove w t sc i k))"
  by (auto simp: settings_ok_def settingsRemove_def set_tbl_delete keyed_tbl_delete)

lemma settings_ok_bulk: "settings_ok w \<Longrightarrow> settings_ok (fst (settingsSetBulk w t sc i kvs))"
  by (induction w t sc i kvs rule: settingsSetBulk.induct) (auto split: sum.splits intro: settings_ok_set)

inductive settings_step :: "org \<Rightarrow> org \<Rightarrow> bool" where
  set: "settingsSet w t sc i k v = Inr w' \<Longrightarrow> settings_step w w'"
| remove: "settings_step w (fst (settingsRemove w t sc i k))"
| bulk: "settings_step w (fst (settingsSetBulk w t sc i kvs))"

interpretation settings_machine: guarded_machine settings_ok settings_step
proof
  show "settings_ok s \<Longrightarrow> settings_step s t \<Longrightarrow> settings_ok t" for s t
    by (erule settings_step.cases) (auto intro: settings_ok_set settings_ok_remove settings_ok_bulk)
qed

lemma getByScope_row:
  assumes "getByScope w t sc i k = Some v"
  shows "\<exists>r \<in> set (settings w). row_at t sc i r \<and> set_key r = k \<and> set_value r = v"
  using map_of_SomeD [OF assms [unfolded getByScope_def]] by auto

lemma override_valid:
  assumes "settings_ok w" "getByScope w t sc i k = Some v" "find (\<lambda>d. sd_key d = k) settings_definitions = Some d"
  shows "\<not> out_of_range d v \<and> (sd_global_only d \<longrightarrow> sc = SGlobal)"
  using getByScope_row [OF assms(2)] assms(1,3) by (fastforce simp: settings_ok_def row_valid_def row_at_def)

lemma default_valid:
  assumes "find (\<lambda>d. sd_key d = k) settings_definitions = Some d"
  shows "\<not> out_of_range d (hardcoded_default k)"
proof -
  have "list_all (\<lambda>d. \<not> out_of_range d (hardcoded_default (sd_key d))) settings_definitions" by code_simp
  then show ?thesis using find_SomeD [OF assms] by (auto simp: list_all_iff)
qed

lemma layers_valid:
  assumes "settings_ok w" "find (\<lambda>d. sd_key d = k) settings_definitions = Some d"
    "l \<in> set (device_layers w t dev grp)" "layer_pick k l = Some x"
  shows "\<not> out_of_range d (rs_value x) \<and> (sd_global_only d \<longrightarrow> rs_source x = SrcGlobal)"
proof -
  consider (glob) "l = global_layer w t" | (dev) "l = device_layer w t dev" | (grp) g where "l = group_layer w t g"
    using assms(3) by (auto simp: device_layers_def split: option.splits)
  then show ?thesis
  proof cases
    case glob
    then show ?thesis using assms(4) override_valid [OF assms(1) _ assms(2), of t SGlobal None]
      by (auto simp: global_layer_def)
  next
    case dev
    then show ?thesis using assms(4) override_valid [OF assms(1) _ assms(2), of t SDevice "Some dev"]
      by (auto simp: device_layer_def)
  next
    case (grp g)
    then show ?thesis using assms(4) override_valid [OF assms(1) _ assms(2), of t SGroup "Some (grp_id g)"]
      by (auto simp: group_layer_def)
  qed
qed



definition scope_get :: "nat \<Rightarrow> setting_scope \<Rightarrow> nat option \<Rightarrow> setting_row list \<Rightarrow> string \<Rightarrow> setting_value option" where
  "scope_get t sc i rows = map_of (rev (map (\<lambda>r. (set_key r, set_value r)) (filter (row_at t sc i) rows)))"

lemma getByScope_rows: "getByScope w t sc i k = scope_get t sc i (settings w) k"
  by (simp add: getByScope_def scope_get_def)

lemma scope_get_Nil [simp]: "scope_get t sc i [] k = None"
  by (simp add: scope_get_def)

lemma scope_get_snoc [simp]: "scope_get t sc i (rows @ [r]) k =
    (if row_at t sc i r \<and> set_key r = k then Some (set_value r) else scope_get t sc i rows k)"
  by (simp add: scope_get_def)

lemma scope_get_update:
  "scope_get t' sc' i' (tbl_update (\<lambda>r. row_at t sc i r \<and> set_key r = k) (\<lambda>r. r\<lparr>set_value := v\<rparr>) rows) k' =
    (if (t', sc', i', k') = (t, sc, i, k) \<and> list_ex (\<lambda>r. row_at t sc i r \<and> set_key r = k) rows then Some v
     else scope_get t' sc' i' rows k')"
proof (induction rows rule: rev_induct)
  case (snoc r rows)
  let ?hit = "row_at t sc i r \<and> set_key r = k"
  have row: "tbl_update P f [r] = [if P r then f r else r]" for P and f :: "setting_row \<Rightarrow> setting_row"
    by (simp add: tbl_update_def)
  have at: "row_at a b c (r\<lparr>set_value := v\<rparr>) = row_at a b c r" for a b c by (simp add: row_at_def)
  show ?case
  proof (cases "(t', sc', i', k') = (t, sc, i, k)")
    case True
    then show ?thesis using snoc by (cases ?hit) (simp_all add: tbl_update_append row at split del: if_split, auto)
  next
    case False
    have "\<not> (row_at t' sc' i' r \<and> set_key r = k')" if ?hit using that False by (auto simp: row_at_def)
    then show ?thesis using snoc False
      by (cases ?hit) (simp_all only: tbl_update_append row at scope_get_snoc if_True if_False simp_thms, auto)
  qed
qed simp

lemma scope_get_upsert:
  "scope_get t' sc' i' (upsert_setting rows t sc i k v) k' =
     (if (t', sc', i', k') = (t, sc, i, k) then Some v else scope_get t' sc' i' rows k')"
proof (cases "list_ex (\<lambda>r. row_at t sc i r \<and> set_key r = k) rows")
  case True
  then show ?thesis by (simp add: upsert_setting_def scope_get_update)
next
  case False
  then show ?thesis by (auto simp: upsert_setting_def row_at_def)
qed

text \<open>
  C13. A successful \<open>set\<close> is read back by \<open>getByScope\<close> at its tenant, scope and key, and changes no other
  override of any scope; it succeeds exactly for a known key, in range, and not below the global scope
  when the key is global-only.
\<close>

theorem settings_set_get:
  "case settingsSet w t sc i k v of
     Inr w' \<Rightarrow> getByScope w' t' sc' i' k' =
         (if (t', sc', i', k') = (t, sc, i, k) then Some v else getByScope w t' sc' i' k') \<and>
       (\<exists>d. find (\<lambda>d. sd_key d = k) settings_definitions = Some d \<and> \<not> out_of_range d v \<and>
          \<not> (sd_global_only d \<and> sc \<noteq> SGlobal))
   | Inl e \<Rightarrow> (case find (\<lambda>d. sd_key d = k) settings_definitions of
         None \<Rightarrow> e = UnknownKey k
       | Some d \<Rightarrow> (sd_global_only d \<and> sc \<noteq> SGlobal) \<and> e = GlobalOnlyKey k sc \<or>
           out_of_range d v \<and> e = OutOfRange k (sd_min d) (sd_max d))"
proof -
  have "getByScope (w\<lparr>settings := upsert_setting (settings w) t sc i k v\<rparr>) t' sc' i' k' =
      (if (t', sc', i', k') = (t, sc, i, k) then Some v else getByScope w t' sc' i' k')"
    unfolding getByScope_rows by (simp add: scope_get_upsert)
  then show ?thesis
    by (cases "find (\<lambda>d. sd_key d = k) settings_definitions") (simp_all add: settingsSet_def)
qed

end
