(* ===== verification/Permission.thy ===== *)
theory Permission
  imports Group_Closure "HOL-Library.Option_ord"
begin

text \<open>
  Team permissions (\<^verbatim>\<open>server/src/services/permission.service.ts\<close>): the level and the capabilities of a user
  on a device or a group, the batch and list forms of the same checks, and the tenant role.
\<close>

section \<open>Levels\<close>

instantiation permission_level :: linorder
begin

definition less_eq_permission_level :: "permission_level \<Rightarrow> permission_level \<Rightarrow> bool" where
  "less_eq_permission_level a b \<longleftrightarrow> a = Ro \<or> b = Rw"

definition less_permission_level :: "permission_level \<Rightarrow> permission_level \<Rightarrow> bool" where
  "less_permission_level a b \<longleftrightarrow> a = Ro \<and> b = Rw"

instance
proof
  fix x y z :: permission_level
  show "(x < y) = (x \<le> y \<and> \<not> y \<le> x)" "x \<le> x" "x \<le> y \<Longrightarrow> y \<le> z \<Longrightarrow> x \<le> z" "x \<le> y \<Longrightarrow> y \<le> x \<Longrightarrow> x = y"
    "x \<le> y \<or> y \<le> x"
    by (cases x; cases y; cases z; simp add: less_eq_permission_level_def less_permission_level_def)+
qed

end

lemma perm_level_simps [simp]: "Ro \<le> x" "x \<le> Rw" "Rw \<le> x \<longleftrightarrow> x = Rw"
  by (cases x; simp add: less_eq_permission_level_def)+

section \<open>Queries\<close>

definition getUserTeamIds :: "'a org_scheme \<Rightarrow> nat \<Rightarrow> nat list" where
  "getUserTeamIds w u = map tm_team (filter (\<lambda>m. tm_user m = u) (team_memberships w))"

definition canCreate :: "'a org_scheme \<Rightarrow> nat \<Rightarrow> bool \<Rightarrow> bool" where
  "canCreate w u isAdmin =
     (if isAdmin then True
      else list_ex (\<lambda>t. team_can_create t \<and> list_ex (\<lambda>m. tm_team m = team_id t \<and> tm_user m = u) (team_memberships w))
             (user_teams w))"

text \<open>\<^verbatim>\<open>team_permissions JOIN team_memberships\<close>, restricted to one user.\<close>

definition user_grants :: "'a org_scheme \<Rightarrow> nat \<Rightarrow> team_perm_row list" where
  "user_grants w u =
     concat (map (\<lambda>tp. map (\<lambda>_. tp) (filter (\<lambda>m. tm_team m = tp_team tp \<and> tm_user m = u) (team_memberships w)))
       (team_permissions w))"

definition level_of_rows :: "permission_level list \<Rightarrow> permission_level option" where
  "level_of_rows ls = (if ls = [] then None else if list_ex (\<lambda>l. l = Rw) ls then Some Rw else Some Ro)"

definition getHighestPermission :: "'a org_scheme \<Rightarrow> nat \<Rightarrow> team_scope \<Rightarrow> nat \<Rightarrow> permission_level option" where
  "getHighestPermission w u sc i =
     level_of_rows (map tp_level (filter (\<lambda>tp. tp_scope tp = sc \<and> tp_scope_id tp = i) (user_grants w u)))"

text \<open>... \<^verbatim>\<open>JOIN device_group_closure ON ancestor_id = scope_id WHERE descendant_id = ?\<close>.\<close>

definition group_grants :: "'a org_scheme \<Rightarrow> nat \<Rightarrow> nat \<Rightarrow> team_perm_row list" where
  "group_grants w u g =
     concat (map (\<lambda>tp. map (\<lambda>_. tp) (filter (\<lambda>r. cl_anc r = tp_scope_id tp \<and> cl_desc r = g) (group_closure w)))
       (filter (\<lambda>tp. tp_scope tp = ScGroup) (user_grants w u)))"

definition getGroupPermissionViaClosure :: "'a org_scheme \<Rightarrow> nat \<Rightarrow> nat \<Rightarrow> permission_level option" where
  "getGroupPermissionViaClosure w u g = level_of_rows (map tp_level (group_grants w u g))"

definition highest :: "permission_level option \<Rightarrow> permission_level option \<Rightarrow> permission_level option" where
  "highest a b =
     (if a = Some Rw \<or> b = Some Rw then Some Rw
      else if a = Some Ro \<or> b = Some Ro then Some Ro
      else None)"

definition getDevicePermission :: "'a org_scheme \<Rightarrow> nat \<Rightarrow> nat \<Rightarrow> bool \<Rightarrow> permission_level option" where
  "getDevicePermission w u d isAdmin =
     (if isAdmin then Some Rw
      else case device_by_id w d of
        None \<Rightarrow> None
      | Some row \<Rightarrow>
          let directLevel = getHighestPermission w u ScDevice d;
              groupLevel =
                (if truthy_id (dev_group row) then getGroupPermissionViaClosure w u (the (dev_group row))
                 else
                   let keyLevel =
                     (if truthy_id (dev_api_key row)
                      then (case find (\<lambda>k. Some (ak_id k) = dev_api_key row) (agent_api_keys w) of
                              None \<Rightarrow> None
                            | Some key \<Rightarrow>
                                if truthy_id (ak_default_group key)
                                then getGroupPermissionViaClosure w u (the (ak_default_group key)) else None)
                      else None)
                   in if keyLevel = None then getHighestPermission w u ScUngrouped 0 else keyLevel)
          in highest directLevel groupLevel)"

definition canReadDevice :: "'a org_scheme \<Rightarrow> nat \<Rightarrow> nat \<Rightarrow> bool \<Rightarrow> bool" where
  "canReadDevice w u d isAdmin \<longleftrightarrow> getDevicePermission w u d isAdmin \<noteq> None"

definition canWriteDevice :: "'a org_scheme \<Rightarrow> nat \<Rightarrow> nat \<Rightarrow> bool \<Rightarrow> bool" where
  "canWriteDevice w u d isAdmin \<longleftrightarrow> getDevicePermission w u d isAdmin = Some Rw"

definition userHasTenantCapability :: "'a org_scheme \<Rightarrow> nat \<Rightarrow> nat \<Rightarrow> string \<Rightarrow> bool" where
  "userHasTenantCapability w u t cap =
     (case find (\<lambda>r. ut_user r = u \<and> ut_tenant r = t) (user_tenants w) of
        None \<Rightarrow> False
      | Some ut \<Rightarrow>
          if ut_role ut = ''admin'' then True
          else case find (\<lambda>s. ps_slug s = ut_role ut) (permission_sets w) of
                 None \<Rightarrow> False
               | Some s \<Rightarrow> cap \<in> set (ps_caps s))"

definition listUserTenantCapabilities :: "'a org_scheme \<Rightarrow> nat \<Rightarrow> nat \<Rightarrow> string list" where
  "listUserTenantCapabilities w u t =
     (case find (\<lambda>r. ut_user r = u \<and> ut_tenant r = t) (user_tenants w) of
        None \<Rightarrow> []
      | Some ut \<Rightarrow>
          if ut_role ut = ''admin'' then uniq (concat (map ps_caps (permission_sets w)))
          else case find (\<lambda>s. ps_slug s = ut_role ut) (permission_sets w) of
                 None \<Rightarrow> []
               | Some s \<Rightarrow> ps_caps s)"

definition canUseCapability :: "'a org_scheme \<Rightarrow> nat \<Rightarrow> nat \<Rightarrow> bool \<Rightarrow> string \<Rightarrow> bool" where
  "canUseCapability w u d isAdmin cap =
     (if isAdmin then True
      else case device_by_id w d of
        None \<Rightarrow> False
      | Some row \<Rightarrow>
          if list_ex (\<lambda>tp. cap \<in> set (tp_caps tp))
               (filter (\<lambda>tp. tp_scope tp = ScDevice \<and> tp_scope_id tp = d) (user_grants w u)) then True
          else if truthy_id (dev_group row)
          then list_ex (\<lambda>tp. cap \<in> set (tp_caps tp)) (group_grants w u (the (dev_group row)))
          else False)"

section \<open>The batch form\<close>

definition int_id :: "jsnum \<Rightarrow> nat option" where
  "int_id x = (case x of
     Fin r \<Rightarrow> if r = of_int \<lfloor>r\<rfloor> \<and> 0 < r then Some (nat \<lfloor>r\<rfloor>) else None
   | NonFin \<Rightarrow> None)"

fun chunks :: "nat \<Rightarrow> 'b list \<Rightarrow> 'b list list" where
  "chunks n xs = (if xs = [] \<or> n = 0 then [] else take n xs # chunks n (drop n xs))"

declare chunks.simps [simp del]

definition lacking_chunk :: "'a org_scheme \<Rightarrow> nat \<Rightarrow> string \<Rightarrow> nat list \<Rightarrow> nat list \<Rightarrow> nat list" where
  "lacking_chunk w u cap granted chunk =
     (let devs = filter (\<lambda>d. dev_id d \<in> set chunk) (devices w);
          direct = filter (\<lambda>tp. tp_scope tp = ScDevice \<and> tp_scope_id tp \<in> set chunk) (user_grants w u);
          granted1 = granted @ map tp_scope_id (filter (\<lambda>tp. cap \<in> set (tp_caps tp)) direct);
          groupIds = uniq (List.map_filter dev_group devs);
          grantedGroups = concat (map (\<lambda>tp. map cl_desc (filter (\<lambda>r. cl_anc r = tp_scope_id tp \<and> cl_desc r \<in> set groupIds)
                             (group_closure w)))
                           (filter (\<lambda>tp. tp_scope tp = ScGroup \<and> cap \<in> set (tp_caps tp)) (user_grants w u)));
          granted2 = granted1 @ map dev_id (filter (\<lambda>d. case dev_group d of None \<Rightarrow> False | Some g \<Rightarrow> g \<in> set grantedGroups) devs)
      in filter (\<lambda>i. \<not> (i \<in> set chunk \<and> i \<notin> dev_id ` set devs)) granted2)"

definition devicesLackingCapability :: "'a org_scheme \<Rightarrow> nat \<Rightarrow> jsnum list \<Rightarrow> string \<Rightarrow> nat list" where
  "devicesLackingCapability w u deviceIds cap =
     (let ids = uniq (List.map_filter int_id deviceIds);
          granted = foldl (lacking_chunk w u cap) [] (chunks 5000 ids)
      in filter (\<lambda>i. i \<notin> set granted) ids)"

section \<open>Groups and lists\<close>

definition getGroupPermission :: "'a org_scheme \<Rightarrow> nat \<Rightarrow> nat \<Rightarrow> bool \<Rightarrow> permission_level option" where
  "getGroupPermission w u g isAdmin = (if isAdmin then Some Rw else getGroupPermissionViaClosure w u g)"

definition canReadGroup :: "'a org_scheme \<Rightarrow> nat \<Rightarrow> nat \<Rightarrow> bool \<Rightarrow> bool" where
  "canReadGroup w u g isAdmin \<longleftrightarrow> getGroupPermission w u g isAdmin \<noteq> None"

definition canWriteGroup :: "'a org_scheme \<Rightarrow> nat \<Rightarrow> nat \<Rightarrow> bool \<Rightarrow> bool" where
  "canWriteGroup w u g isAdmin \<longleftrightarrow> getGroupPermission w u g isAdmin = Some Rw"

datatype id_list = AllIds | Ids "nat list"

definition team_grants :: "'a org_scheme \<Rightarrow> nat list \<Rightarrow> team_scope \<Rightarrow> team_perm_row list" where
  "team_grants w teamIds sc = filter (\<lambda>tp. tp_team tp \<in> set teamIds \<and> tp_scope tp = sc) (team_permissions w)"

definition granted_over :: "'a org_scheme \<Rightarrow> nat list \<Rightarrow> nat \<Rightarrow> bool" where
  "granted_over w teamIds g \<longleftrightarrow>
     list_ex (\<lambda>r. cl_desc r = g \<and> list_ex (\<lambda>tp. tp_scope_id tp = cl_anc r) (team_grants w teamIds ScGroup)) (group_closure w)"

definition api_key_claims :: "'a org_scheme \<Rightarrow> nat list \<Rightarrow> device_row \<Rightarrow> bool" where
  "api_key_claims w teamIds d \<longleftrightarrow> dev_group d = None \<and>
     list_ex (\<lambda>k. dev_api_key d = Some (ak_id k) \<and>
       (case ak_default_group k of None \<Rightarrow> False | Some g \<Rightarrow> granted_over w teamIds g)) (agent_api_keys w)"

definition getVisibleDeviceIds :: "'a org_scheme \<Rightarrow> nat \<Rightarrow> bool \<Rightarrow> id_list" where
  "getVisibleDeviceIds w u isAdmin =
     (if isAdmin then AllIds
      else let teamIds = getUserTeamIds w u
      in if teamIds = [] then Ids []
      else
        let groupDevices = filter (\<lambda>d. case dev_group d of None \<Rightarrow> False | Some g \<Rightarrow> granted_over w teamIds g) (devices w);
            directDevices = map tp_scope_id (team_grants w teamIds ScDevice);
            apiKeyClaimed = filter (api_key_claims w teamIds) (devices w);
            ungrouped = (if team_grants w teamIds ScUngrouped \<noteq> []
                         then filter (\<lambda>d. dev_group d = None) (devices w) else [])
        in Ids (uniq (map dev_id groupDevices @ directDevices @ map dev_id apiKeyClaimed @ map dev_id ungrouped)))"

definition getVisibleGroupIds :: "'a org_scheme \<Rightarrow> nat \<Rightarrow> bool \<Rightarrow> id_list" where
  "getVisibleGroupIds w u isAdmin =
     (if isAdmin then AllIds
      else let teamIds = getUserTeamIds w u
      in if teamIds = [] then Ids []
      else
        let permGroupIds = map tp_scope_id (team_grants w teamIds ScGroup);
            descendantIds = map cl_desc (filter (\<lambda>r. cl_anc r \<in> set permGroupIds) (group_closure w));
            deviceIds = map tp_scope_id (team_grants w teamIds ScDevice);
            deviceGroupIds = List.map_filter dev_group (filter (\<lambda>d. dev_id d \<in> set deviceIds) (devices w));
            ancestorIds = map cl_anc (filter (\<lambda>r. cl_desc r \<in> set deviceGroupIds) (group_closure w))
              @ map cl_anc (filter (\<lambda>r. cl_desc r \<in> set permGroupIds) (group_closure w))
        in Ids (uniq (descendantIds @ deviceGroupIds @ ancestorIds)))"

fun scope_name :: "team_scope \<Rightarrow> string" where
  "scope_name ScGroup = ''group''"
| "scope_name ScDevice = ''device''"
| "scope_name ScUngrouped = ''ungrouped''"

definition perm_key :: "team_perm_row \<Rightarrow> string" where
  "perm_key tp = scope_name (tp_scope tp) @ '':'' @ show_nat (tp_scope_id tp)"

definition merge_perm :: "(string \<Rightarrow> permission_level option) \<Rightarrow> team_perm_row \<Rightarrow> (string \<Rightarrow> permission_level option)" where
  "merge_perm m tp =
     (let existing = m (perm_key tp)
      in if existing = None \<or> (existing = Some Ro \<and> tp_level tp = Rw) then m(perm_key tp := Some (tp_level tp)) else m)"

record user_permissions =
  up_canCreate :: bool
  up_teams :: "nat list"
  up_permissions :: "string \<Rightarrow> permission_level option"
  up_tenantCapabilities :: "string list"

definition getUserPermissions :: "'a org_scheme \<Rightarrow> nat \<Rightarrow> bool \<Rightarrow> nat option \<Rightarrow> user_permissions" where
  "getUserPermissions w u isAdmin tenantId =
     (if isAdmin then \<lparr>up_canCreate = True, up_teams = [], up_permissions = Map.empty, up_tenantCapabilities = []\<rparr>
      else
        let teamIds = getUserTeamIds w u
        in \<lparr>up_canCreate = canCreate w u False, up_teams = teamIds,
            up_permissions = foldl merge_perm Map.empty (filter (\<lambda>tp. tp_team tp \<in> set teamIds) (team_permissions w)),
            up_tenantCapabilities = (case tenantId of None \<Rightarrow> [] | Some t \<Rightarrow> listUserTenantCapabilities w u t)\<rparr>)"

definition getUsersWithDeviceAccess :: "'a org_scheme \<Rightarrow> nat \<Rightarrow> nat list" where
  "getUsersWithDeviceAccess w d =
     (case device_by_id w d of
        None \<Rightarrow> []
      | Some row \<Rightarrow>
          let holders = (\<lambda>tp. map tm_user (filter (\<lambda>m. tm_team m = tp_team tp) (team_memberships w)));
              direct = concat (map holders (filter (\<lambda>tp. tp_scope tp = ScDevice \<and> tp_scope_id tp = d) (team_permissions w)));
              group = (if truthy_id (dev_group row)
                       then concat (map holders (filter (\<lambda>tp. tp_scope tp = ScGroup \<and>
                              list_ex (\<lambda>r. cl_anc r = tp_scope_id tp \<and> Some (cl_desc r) = dev_group row) (group_closure w))
                              (team_permissions w)))
                       else [])
          in uniq (direct @ group))"

section \<open>What the queries mean\<close>

definition holds :: "'a org_scheme \<Rightarrow> nat \<Rightarrow> team_perm_row \<Rightarrow> bool" where
  "holds w u tp \<longleftrightarrow> tp \<in> set (team_permissions w) \<and> (\<exists>m \<in> set (team_memberships w). tm_user m = u \<and> tm_team m = tp_team tp)"

lemma set_user_grants: "set (user_grants w u) = {tp. holds w u tp}"
  by (auto simp: user_grants_def holds_def)

lemma set_group_grants: "set (group_grants w u g) = {tp. holds w u tp \<and> tp_scope tp = ScGroup \<and> isDescendant w (tp_scope_id tp) g}"
  by (auto simp: group_grants_def set_user_grants isDescendant_def list_ex_iff)

lemma level_of_rows_None: "level_of_rows ls = None \<longleftrightarrow> ls = []"
  by (simp add: level_of_rows_def)

lemma level_of_rows_ge: "Some l \<le> level_of_rows ls \<longleftrightarrow> (\<exists>x \<in> set ls. l \<le> x)"
  by (cases l; cases ls) (auto simp: level_of_rows_def list_ex_iff less_eq_permission_level_def)

lemma set_getUserTeamIds: "t \<in> set (getUserTeamIds w u) \<longleftrightarrow> (\<exists>m \<in> set (team_memberships w). tm_user m = u \<and> tm_team m = t)"
  by (auto simp: getUserTeamIds_def)

lemma set_team_grants: "set (team_grants w (getUserTeamIds w u) sc) = {tp. holds w u tp \<and> tp_scope tp = sc}"
  by (auto simp: team_grants_def set_getUserTeamIds holds_def)

lemma granted_over_iff: "granted_over w (getUserTeamIds w u) g \<longleftrightarrow>
    (\<exists>tp. holds w u tp \<and> tp_scope tp = ScGroup \<and> isDescendant w (tp_scope_id tp) g)"
  unfolding granted_over_def list_ex_iff set_team_grants isDescendant_def by auto metis+

lemma group_permission_None: "getGroupPermissionViaClosure w u g = None \<longleftrightarrow> \<not> granted_over w (getUserTeamIds w u) g"
proof -
  have "group_grants w u g = [] \<longleftrightarrow> set (group_grants w u g) = {}" by (metis set_empty)
  then show ?thesis by (auto simp: getGroupPermissionViaClosure_def level_of_rows_None granted_over_iff set_group_grants)
qed

lemma direct_permission_None: "getHighestPermission w u sc i = None \<longleftrightarrow> \<not> (\<exists>tp. holds w u tp \<and> tp_scope tp = sc \<and> tp_scope_id tp = i)"
  by (auto simp: getHighestPermission_def level_of_rows_None filter_empty_conv set_user_grants)

lemma group_permission_ge: "Some l \<le> getGroupPermissionViaClosure w u g \<longleftrightarrow>
    (\<exists>tp. holds w u tp \<and> tp_scope tp = ScGroup \<and> isDescendant w (tp_scope_id tp) g \<and> l \<le> tp_level tp)"
  by (auto simp: getGroupPermissionViaClosure_def level_of_rows_ge set_group_grants)

lemma highest_max: "highest a b = max a b"
  by (cases a; cases b; case_tac [!] "the a"; case_tac [!] "the b")
    (auto simp: highest_def max_def less_eq_permission_level_def)

lemma highest_None: "highest a b = None \<longleftrightarrow> a = None \<and> b = None"
  by (cases a; cases b; case_tac [!] "the a"; case_tac [!] "the b") (auto simp: highest_def)

section \<open>Inheritance along the tree\<close>

text \<open>
  C21. With a correct closure table, a user holds at least level \<open>l\<close> on a group exactly when one of the
  user's teams was granted at least \<open>l\<close> on the group or on one of its ancestors by parent pointers; so
  the permission on a group is never below the one on any ancestor.
\<close>

theorem group_permission_inherited:
  assumes "closure_ok w" and "g \<in> group_ids w"
  shows "(Some l \<le> getGroupPermission w u g False \<longleftrightarrow>
      (\<exists>n a tp. nth_anc (par_of w) n g = Some a \<and> holds w u tp \<and> tp_scope tp = ScGroup \<and>
         tp_scope_id tp = a \<and> l \<le> tp_level tp)) \<and>
    (\<forall>n a. nth_anc (par_of w) n g = Some a \<longrightarrow> getGroupPermission w u a False \<le> getGroupPermission w u g False)"
proof -
  have ge: "Some k \<le> getGroupPermission w u h False \<longleftrightarrow>
      (\<exists>n a tp. nth_anc (par_of w) n h = Some a \<and> holds w u tp \<and> tp_scope tp = ScGroup \<and>
         tp_scope_id tp = a \<and> k \<le> tp_level tp)" if "h \<in> group_ids w" for h k
    using that by (auto simp: getGroupPermission_def group_permission_ge isDescendant_iff [OF assms(1)] subtree_def)
  have "getGroupPermission w u a False \<le> getGroupPermission w u g False"
    if a: "nth_anc (par_of w) n g = Some a" for n a
  proof (cases "getGroupPermission w u a False")
    case (Some k)
    have "a \<in> group_ids w" using nth_anc_in [OF closure_ok_forest [OF assms(1)] assms(2) a] .
    with Some ge [of a k] obtain m b tp where "nth_anc (par_of w) m a = Some b" "holds w u tp" "tp_scope tp = ScGroup"
      "tp_scope_id tp = b" "k \<le> tp_level tp" by auto
    moreover from this a have "nth_anc (par_of w) (n + m) g = Some b" by (simp add: nth_anc_add)
    ultimately have "Some k \<le> getGroupPermission w u g False" using ge [OF assms(2), of k] by blast
    with Some show ?thesis by simp
  qed simp
  with ge [OF assms(2)] show ?thesis by blast
qed

section \<open>The list of visible devices and the single check\<close>

definition org_ids_ok :: "'a org_scheme \<Rightarrow> bool" where
  "org_ids_ok w \<longleftrightarrow> keyed dev_id (devices w) \<and> keyed ak_id (agent_api_keys w) \<and>
     list_all (\<lambda>d. dev_group d \<noteq> Some 0 \<and> dev_api_key d \<noteq> Some 0) (devices w) \<and>
     list_all (\<lambda>k. ak_default_group k \<noteq> Some 0) (agent_api_keys w) \<and>
     list_all (\<lambda>tp. tp_scope tp \<noteq> ScUngrouped \<or> tp_scope_id tp = 0) (team_permissions w)"

lemma truthy_ok: "org_ids_ok w \<Longrightarrow> d \<in> set (devices w) \<Longrightarrow>
    (truthy_id (dev_group d) \<longleftrightarrow> dev_group d \<noteq> None) \<and> (truthy_id (dev_api_key d) \<longleftrightarrow> dev_api_key d \<noteq> None)"
  by (cases "dev_group d"; cases "dev_api_key d") (auto simp: org_ids_ok_def list_all_iff)

lemma device_by_id_keyed: "keyed dev_id (devices w) \<Longrightarrow> device_by_id w d = Some row \<longleftrightarrow> row \<in> set (devices w) \<and> dev_id row = d"
  using find_keyed [of dev_id "devices w" row] find_SomeD by (fastforce simp: device_by_id_def)

lemma ungrouped_iff:
  assumes "org_ids_ok w"
  shows "team_grants w (getUserTeamIds w u) ScUngrouped \<noteq> [] \<longleftrightarrow> getHighestPermission w u ScUngrouped 0 \<noteq> None"
proof -
  have "tp_scope_id tp = 0" if "holds w u tp" "tp_scope tp = ScUngrouped" for tp
    using assms that by (auto simp: org_ids_ok_def list_all_iff holds_def)
  moreover have "team_grants w (getUserTeamIds w u) ScUngrouped \<noteq> [] \<longleftrightarrow>
      set (team_grants w (getUserTeamIds w u) ScUngrouped) \<noteq> {}" by (metis set_empty)
  ultimately show ?thesis unfolding direct_permission_None set_team_grants by auto
qed

lemma api_key_claims_iff:
  assumes "org_ids_ok w" "row \<in> set (devices w)"
  shows "api_key_claims w (getUserTeamIds w u) row \<longleftrightarrow> dev_group row = None \<and>
    (case Option.bind (dev_api_key row) (\<lambda>i. find (\<lambda>k. ak_id k = i) (agent_api_keys w)) of
       None \<Rightarrow> False
     | Some k \<Rightarrow> (case ak_default_group k of None \<Rightarrow> False | Some g \<Rightarrow> getGroupPermissionViaClosure w u g \<noteq> None))"
proof (cases "dev_api_key row")
  case None
  then show ?thesis by (simp add: api_key_claims_def list_ex_iff)
next
  case (Some i)
  have k: "keyed ak_id (agent_api_keys w)" using assms by (simp add: org_ids_ok_def)
  show ?thesis
  proof (cases "find (\<lambda>k. ak_id k = i) (agent_api_keys w)")
    case None
    then have "ak_id x \<noteq> i" if "x \<in> set (agent_api_keys w)" for x using that by (auto simp: find_None_iff)
    then show ?thesis using Some None by (auto simp: api_key_claims_def list_ex_iff)
  next
    case key: (Some key)
    then have uq: "x = key" if "x \<in> set (agent_api_keys w)" "ak_id x = i" for x
      using find_keyed [OF k that(1)] that(2) by simp
    have "list_ex (\<lambda>x. dev_api_key row = Some (ak_id x) \<and> Q x) (agent_api_keys w) \<longleftrightarrow> Q key" for Q
      unfolding list_ex_iff Some option.inject using uq find_SomeD [OF key] by metis
    then show ?thesis using Some key
      by (auto simp: api_key_claims_def group_permission_None simp del: not_None_eq split: option.split)
  qed
qed

lemma canReadDevice_iff:
  assumes ok: "org_ids_ok w" and row: "device_by_id w d = Some row"
  shows "canReadDevice w u d False \<longleftrightarrow>
    (\<exists>tp. holds w u tp \<and> tp_scope tp = ScDevice \<and> tp_scope_id tp = d) \<or>
    (case dev_group row of
       Some g \<Rightarrow> granted_over w (getUserTeamIds w u) g
     | None \<Rightarrow> api_key_claims w (getUserTeamIds w u) row \<or> team_grants w (getUserTeamIds w u) ScUngrouped \<noteq> [])"
proof -
  have mem: "row \<in> set (devices w)" using find_SomeD [OF row [unfolded device_by_id_def]] by simp
  have key0: "find (\<lambda>k. Some (ak_id k) = Some i) (agent_api_keys w) = find (\<lambda>k. ak_id k = i) (agent_api_keys w)" for i
    by simp
  have pos: "truthy_id (ak_default_group k) \<longleftrightarrow> ak_default_group k \<noteq> None" if "find P (agent_api_keys w) = Some k" for k P
    using ok find_SomeD [OF that] by (cases "ak_default_group k") (auto simp: org_ids_ok_def list_all_iff)
  note tr = truthy_ok [OF ok mem]
  note none = highest_None direct_permission_None group_permission_None
  show ?thesis
  proof (cases "dev_group row")
    case (Some g)
    then show ?thesis using row tr
      by (auto simp: canReadDevice_def getDevicePermission_def none simp del: not_None_eq)
  next
    case None
    let ?key = "case dev_api_key row of None \<Rightarrow> None | Some i \<Rightarrow>
      (case find (\<lambda>k. ak_id k = i) (agent_api_keys w) of None \<Rightarrow> None
       | Some k \<Rightarrow> (case ak_default_group k of None \<Rightarrow> None | Some g \<Rightarrow> getGroupPermissionViaClosure w u g))"
    have "getDevicePermission w u d False = highest (getHighestPermission w u ScDevice d)
        (if ?key = None then getHighestPermission w u ScUngrouped 0 else ?key)"
      using None row tr pos by (auto simp: getDevicePermission_def key0 Let_def split: option.splits)
    moreover have "api_key_claims w (getUserTeamIds w u) row \<longleftrightarrow> ?key \<noteq> None"
      using None by (auto simp: api_key_claims_iff [OF ok mem] split: option.splits bind_splits)
    ultimately show ?thesis using None ungrouped_iff [OF ok, of u]
      by (auto simp: canReadDevice_def none simp del: not_None_eq)
  qed
qed

text \<open>
  C22. The list and the single check agree: a device that exists is in \<open>getVisibleDeviceIds\<close> of a user who
  is not an administrator exactly when \<open>canReadDevice\<close> lets the user read it, whether by a direct grant,
  a grant on a group above, the claim of its API key or the ungrouped scope.
\<close>

theorem visible_devices_are_readable:
  assumes "org_ids_ok w" and "device_by_id w d = Some row"
  shows "(case getVisibleDeviceIds w u False of AllIds \<Rightarrow> False | Ids ids \<Rightarrow> d \<in> set ids) \<longleftrightarrow> canReadDevice w u d False"
proof -
  have mem: "row \<in> set (devices w)" "dev_id row = d"
    using find_SomeD [OF assms(2) [unfolded device_by_id_def]] by auto
  have same: "x = row" if "x \<in> set (devices w)" "dev_id x = d" for x
    using assms that device_by_id_keyed [of w d x] by (simp add: org_ids_ok_def)
  have img: "d \<in> dev_id ` {x \<in> set (devices w). P x} \<longleftrightarrow> P row" for P using mem same by blast
  show ?thesis
  proof (cases "getUserTeamIds w u = []")
    case True
    then have none: "\<not> holds w u tp" for tp using set_getUserTeamIds [of _ w u] by (auto simp: holds_def)
    then have "\<not> granted_over w (getUserTeamIds w u) g" for g by (simp add: granted_over_iff)
    moreover from this have "\<not> api_key_claims w (getUserTeamIds w u) row"
      by (auto simp: api_key_claims_def list_ex_iff split: option.splits)
    moreover have "team_grants w (getUserTeamIds w u) ScUngrouped = []" using True by (simp add: team_grants_def)
    ultimately show ?thesis
      unfolding canReadDevice_iff [OF assms] using True none
      by (simp add: getVisibleDeviceIds_def split: option.split)
  next
    case False
    have direct: "d \<in> tp_scope_id ` set (team_grants w (getUserTeamIds w u) ScDevice) \<longleftrightarrow>
        (\<exists>tp. holds w u tp \<and> tp_scope tp = ScDevice \<and> tp_scope_id tp = d)"
      by (auto simp: set_team_grants)
    have "(case getVisibleDeviceIds w u False of AllIds \<Rightarrow> False | Ids ids \<Rightarrow> d \<in> set ids) \<longleftrightarrow>
        (case dev_group row of None \<Rightarrow> False | Some g \<Rightarrow> granted_over w (getUserTeamIds w u) g) \<or>
        (\<exists>tp. holds w u tp \<and> tp_scope tp = ScDevice \<and> tp_scope_id tp = d) \<or>
        api_key_claims w (getUserTeamIds w u) row \<or>
        (team_grants w (getUserTeamIds w u) ScUngrouped \<noteq> [] \<and> dev_group row = None)"
      using False img [of "\<lambda>x. dev_group x = None"]
      by (cases "team_grants w (getUserTeamIds w u) ScUngrouped = []")
        (simp_all add: getVisibleDeviceIds_def Let_def img direct)
    also have "\<dots> \<longleftrightarrow> canReadDevice w u d False"
      unfolding canReadDevice_iff [OF assms] by (auto simp: api_key_claims_def split: option.split)
    finally show ?thesis .
  qed
qed

section \<open>The batch form of the capability check\<close>

lemma canUseCapability_iff:
  assumes "org_ids_ok w"
  shows "canUseCapability w u d False cap \<longleftrightarrow>
    (\<exists>row \<in> set (devices w). dev_id row = d \<and>
      ((\<exists>tp. holds w u tp \<and> tp_scope tp = ScDevice \<and> tp_scope_id tp = d \<and> cap \<in> set (tp_caps tp)) \<or>
       (\<exists>g tp. dev_group row = Some g \<and> holds w u tp \<and> tp_scope tp = ScGroup \<and>
          isDescendant w (tp_scope_id tp) g \<and> cap \<in> set (tp_caps tp))))" (is "_ \<longleftrightarrow> (\<exists>row \<in> _. dev_id row = d \<and> ?ok row)")
proof (cases "device_by_id w d")
  case None
  then have "\<not> (\<exists>row \<in> set (devices w). dev_id row = d)" by (auto simp: device_by_id_def find_None_iff)
  then show ?thesis using None by (auto simp: canUseCapability_def)
next
  case (Some row)
  have k: "keyed dev_id (devices w)" using assms by (simp add: org_ids_ok_def)
  have row: "row \<in> set (devices w)" "dev_id row = d" using Some device_by_id_keyed [OF k] by auto
  have "canUseCapability w u d False cap \<longleftrightarrow> ?ok row"
    using Some truthy_ok [OF assms row(1)]
    by (cases "dev_group row") (auto simp: canUseCapability_def list_ex_iff set_user_grants set_group_grants)
  moreover have "x = row" if "x \<in> set (devices w)" "dev_id x = d" for x
    using device_by_id_keyed [OF k, of d x] Some that by simp
  ultimately show ?thesis using row by metis
qed

lemma set_lacking_chunk:
  assumes ok: "org_ids_ok w"
  shows "set (lacking_chunk w u cap granted chunk) =
    {i \<in> set granted. \<not> (i \<in> set chunk \<and> i \<notin> dev_id ` set (devices w))} \<union>
    {i \<in> set chunk. canUseCapability w u i False cap}" (is "?L = ?kept \<union> ?new")
proof -
  let ?devs = "filter (\<lambda>d. dev_id d \<in> set chunk) (devices w)"
  let ?gids = "List.map_filter dev_group ?devs"
  let ?dir = "{i \<in> set chunk. \<exists>tp. holds w u tp \<and> tp_scope tp = ScDevice \<and> tp_scope_id tp = i \<and> cap \<in> set (tp_caps tp)}"
  let ?grp = "{dev_id d | d. d \<in> set ?devs \<and> (\<exists>g tp. dev_group d = Some g \<and> holds w u tp \<and> tp_scope tp = ScGroup \<and>
      isDescendant w (tp_scope_id tp) g \<and> cap \<in> set (tp_caps tp))}"
  have gids: "g \<in> set ?gids \<longleftrightarrow> (\<exists>d \<in> set ?devs. dev_group d = Some g)" for g
    by (auto simp: List.map_filter_def image_iff)
  let ?GG = "concat (map (\<lambda>tp. map cl_desc (filter (\<lambda>r. cl_anc r = tp_scope_id tp \<and> cl_desc r \<in> set (uniq ?gids))
        (group_closure w))) (filter (\<lambda>tp. tp_scope tp = ScGroup \<and> cap \<in> set (tp_caps tp)) (user_grants w u)))"
  have gg: "g \<in> set ?GG \<longleftrightarrow>
      g \<in> set ?gids \<and> (\<exists>tp. holds w u tp \<and> tp_scope tp = ScGroup \<and> isDescendant w (tp_scope_id tp) g \<and> cap \<in> set (tp_caps tp))" for g
    by (auto simp: set_user_grants isDescendant_def list_ex_iff)
  have grp: "dev_id ` set (filter (\<lambda>d. case dev_group d of None \<Rightarrow> False | Some g \<Rightarrow> g \<in> set ?GG) ?devs) = ?grp"
  proof -
    have "(case dev_group d of None \<Rightarrow> False | Some g \<Rightarrow> g \<in> set ?GG) \<longleftrightarrow>
        (\<exists>g tp. dev_group d = Some g \<and> holds w u tp \<and> tp_scope tp = ScGroup \<and>
          isDescendant w (tp_scope_id tp) g \<and> cap \<in> set (tp_caps tp))" if "d \<in> set ?devs" for d
      using that unfolding gg gids by (cases "dev_group d") (simp, auto)
    then show ?thesis by (simp only: set_filter image_def) blast
  qed
  have dir: "tp_scope_id ` set (filter (\<lambda>tp. cap \<in> set (tp_caps tp))
      (filter (\<lambda>tp. tp_scope tp = ScDevice \<and> tp_scope_id tp \<in> set chunk) (user_grants w u))) = ?dir"
    by (auto simp: set_user_grants)
  have "?L = {i \<in> set granted \<union> ?dir \<union> ?grp. \<not> (i \<in> set chunk \<and> i \<notin> dev_id ` set ?devs)}"
    unfolding lacking_chunk_def Let_def set_filter [of "\<lambda>i. \<not> (i \<in> set chunk \<and> _ i)"] set_append set_map grp dir
    by (rule refl)
  also have "\<dots> = ?kept \<union> ?new"
    unfolding canUseCapability_iff [OF ok] by (auto simp: image_iff)
  finally show ?thesis .
qed

lemma concat_chunks: "0 < n \<Longrightarrow> concat (chunks n xs) = xs"
proof (induction n xs rule: chunks.induct)
  case (1 n xs)
  then show ?case by (subst chunks.simps) auto
qed

lemma set_lacking_fold:
  assumes "org_ids_ok w"
  shows "set (foldl (lacking_chunk w u cap) granted css) \<inter> dev_id ` set (devices w) =
    (set granted \<inter> dev_id ` set (devices w)) \<union> {i \<in> set (concat css). canUseCapability w u i False cap}"
proof (induction css arbitrary: granted)
  case Nil
  then show ?case by simp
next
  case (Cons c css)
  have "canUseCapability w u i False cap \<Longrightarrow> i \<in> dev_id ` set (devices w)" for i
    unfolding canUseCapability_iff [OF assms] by auto
  then show ?case unfolding foldl_Cons Cons set_lacking_chunk [OF assms] by auto
qed

lemma lacking_fold_unknown:
  assumes "org_ids_ok w" "i \<notin> dev_id ` set (devices w)" "i \<in> set (concat css)"
  shows "i \<notin> set (foldl (lacking_chunk w u cap) granted css)"
  using assms(3)
proof (induction css arbitrary: granted)
  case (Cons c css)
  have no: "\<not> canUseCapability w u i False cap"
    using assms(2) unfolding canUseCapability_iff [OF assms(1)] by auto
  have out: "i \<notin> set g \<Longrightarrow> i \<notin> set (foldl (lacking_chunk w u cap) g css')" for g css'
    by (induction css' arbitrary: g) (auto simp: set_lacking_chunk [OF assms(1)] no)
  show ?case
  proof (cases "i \<in> set c")
    case True
    then show ?thesis using out assms(2) by (simp add: set_lacking_chunk [OF assms(1)] no)
  next
    case False
    then show ?thesis using Cons by simp
  qed
qed simp

lemma devicesLackingCapability_filter:
  assumes "org_ids_ok w"
  shows "devicesLackingCapability w u ids cap =
    filter (\<lambda>d. \<not> canUseCapability w u d False cap) (uniq (List.map_filter int_id ids))"
proof -
  let ?ids = "uniq (List.map_filter int_id ids)"
  let ?granted = "foldl (lacking_chunk w u cap) [] (chunks 5000 ?ids)"
  have fold: "set ?granted \<inter> dev_id ` set (devices w) = {i \<in> set ?ids. canUseCapability w u i False cap}"
    using set_lacking_fold [OF assms, of u cap "[]" "chunks 5000 ?ids"] by (simp add: concat_chunks)
  have gone: "i \<notin> set ?granted" if "i \<in> set ?ids" "i \<notin> dev_id ` set (devices w)" for i
    using that by (intro lacking_fold_unknown [OF assms]) (simp_all add: concat_chunks)
  have "i \<notin> set ?granted \<longleftrightarrow> \<not> canUseCapability w u i False cap" if "i \<in> set ?ids" for i
  proof (cases "i \<in> dev_id ` set (devices w)")
    case True
    then show ?thesis using fold that by blast
  next
    case False
    then show ?thesis using gone [OF that] unfolding canUseCapability_iff [OF assms] by auto
  qed
  then show ?thesis by (auto simp: devicesLackingCapability_def Let_def intro: filter_cong)
qed

text \<open>
  C23. The batch check agrees with the single one: \<open>devicesLackingCapability\<close> returns, without duplicates and
  in the order of the input, exactly the valid device ids on which \<open>canUseCapability\<close> refuses the user
  (unknown devices included), however the ids fall into chunks.
\<close>

theorem batch_capability_agrees:
  assumes "org_ids_ok w"
  shows "devicesLackingCapability w u ids cap =
    filter (\<lambda>d. \<not> canUseCapability w u d False cap) (uniq (List.map_filter int_id ids))"
  using assms by (rule devicesLackingCapability_filter)

section \<open>Visible groups\<close>

lemma visible_groups_iff:
  assumes "getVisibleGroupIds w u False = Ids ids"
  shows "g \<in> set ids \<longleftrightarrow>
    granted_over w (getUserTeamIds w u) g \<or>
    (\<exists>d tp. d \<in> set (devices w) \<and> holds w u tp \<and> tp_scope tp = ScDevice \<and> tp_scope_id tp = dev_id d \<and>
       (dev_group d = Some g \<or> (\<exists>h. dev_group d = Some h \<and> isDescendant w g h))) \<or>
    (\<exists>tp. holds w u tp \<and> tp_scope tp = ScGroup \<and> isDescendant w g (tp_scope_id tp))"
proof (cases "getUserTeamIds w u = []")
  case True
  then have none: "\<not> holds w u tp" for tp using set_getUserTeamIds [of _ w u] by (auto simp: holds_def)
  moreover have "ids = []" using assms True by (simp add: getVisibleGroupIds_def)
  ultimately show ?thesis by (simp add: granted_over_iff)
next
  case False
  have mf: "h \<in> set (List.map_filter dev_group xs) \<longleftrightarrow> (\<exists>d \<in> set xs. dev_group d = Some h)" for h xs
    by (auto simp: List.map_filter_def image_iff)
  have dev: "h \<in> set (List.map_filter dev_group (filter (\<lambda>d. dev_id d \<in>
        set (map tp_scope_id (team_grants w (getUserTeamIds w u) ScDevice))) (devices w))) \<longleftrightarrow>
      (\<exists>d tp. d \<in> set (devices w) \<and> holds w u tp \<and> tp_scope tp = ScDevice \<and> tp_scope_id tp = dev_id d \<and>
        dev_group d = Some h)" for h
    unfolding mf by (auto simp: set_team_grants image_iff) metis+
  have perm: "h \<in> set (map tp_scope_id (team_grants w (getUserTeamIds w u) ScGroup)) \<longleftrightarrow>
      (\<exists>tp. holds w u tp \<and> tp_scope tp = ScGroup \<and> tp_scope_id tp = h)" for h
    by (auto simp: set_team_grants)
  have anc: "g \<in> set (map cl_anc (filter (\<lambda>r. cl_desc r \<in> H) (group_closure w))) \<longleftrightarrow> (\<exists>h \<in> H. isDescendant w g h)" for H
    by (auto simp: isDescendant_def list_ex_iff)
  have desc: "g \<in> set (map cl_desc (filter (\<lambda>r. cl_anc r \<in> H) (group_closure w))) \<longleftrightarrow> (\<exists>h \<in> H. isDescendant w h g)" for H
    by (auto simp: isDescendant_def list_ex_iff)
  have "g \<in> set ids \<longleftrightarrow>
      (\<exists>h \<in> set (map tp_scope_id (team_grants w (getUserTeamIds w u) ScGroup)). isDescendant w h g) \<or>
      (\<exists>h. h \<in> set (List.map_filter dev_group (filter (\<lambda>d. dev_id d \<in>
        set (map tp_scope_id (team_grants w (getUserTeamIds w u) ScDevice))) (devices w))) \<and> (h = g \<or> isDescendant w g h)) \<or>
      (\<exists>h \<in> set (map tp_scope_id (team_grants w (getUserTeamIds w u) ScGroup)). isDescendant w g h)"
    using assms False unfolding getVisibleGroupIds_def Let_def
    by (simp only: if_False id_list.inject simp_thms) (auto simp only: set_uniq set_append Un_iff anc desc)
  then show ?thesis unfolding Bex_def dev perm granted_over_iff by blast
qed

text \<open>
  With a correct closure table, the groups a user sees form a navigable tree: every ancestor of a
  visible group is visible, and every group the user can read is visible.
\<close>

theorem visible_groups_navigable:
  assumes "closure_ok w" and "getVisibleGroupIds w u False = Ids ids" and "\<forall>d \<in> set (devices w). \<forall>h. dev_group d = Some h \<longrightarrow> h \<in> group_ids w"
  shows "(\<forall>g n a. g \<in> set ids \<and> nth_anc (par_of w) n g = Some a \<longrightarrow> a \<in> set ids) \<and>
    (\<forall>g. canReadGroup w u g False \<longrightarrow> g \<in> set ids)"
proof -
  note desc = isDescendant_iff [OF assms(1)] and f = closure_ok_forest [OF assms(1)]
  have up: "isDescendant w a h" if "isDescendant w g h" "nth_anc (par_of w) n g = Some a" for g n a h
    using that by (auto simp: desc subtree_def) (metis bind.bind_lunit nth_anc_add)
  have self: "isDescendant w a g" if "g \<in> group_ids w" "nth_anc (par_of w) n g = Some a" for g n a
    using that by (auto simp: desc subtree_def)
  have above: "isDescendant w a b \<or> isDescendant w b a"
    if "isDescendant w b g" "nth_anc (par_of w) n g = Some a" for a b g n
  proof -
    from that obtain m where m: "nth_anc (par_of w) m g = Some b" and g: "g \<in> group_ids w"
      by (auto simp: desc subtree_def)
    show ?thesis
    proof (cases "n \<le> m")
      case True
      then have "nth_anc (par_of w) (m - n) a = Some b" using m that(2) nth_anc_add [of "par_of w" n "m - n" g] by simp
      then show ?thesis using nth_anc_in [OF f g that(2)] by (auto simp: desc subtree_def)
    next
      case False
      then have "nth_anc (par_of w) (n - m) b = Some a" using m that(2) nth_anc_add [of "par_of w" m "n - m" g] by simp
      then show ?thesis using nth_anc_in [OF f g m] by (auto simp: desc subtree_def)
    qed
  qed
  have "a \<in> set ids" if "g \<in> set ids" "nth_anc (par_of w) n g = Some a" for g n a
    using that(1) unfolding visible_groups_iff [OF assms(2)] granted_over_iff
    using up [OF _ that(2)] self [OF _ that(2)] above [OF _ that(2)] assms(3) by metis
  moreover have "g \<in> set ids" if "canReadGroup w u g False" for g
    using that group_permission_None [of w u g]
    by (auto simp: visible_groups_iff [OF assms(2)] canReadGroup_def getGroupPermission_def)
  ultimately show ?thesis by blast
qed

section \<open>Broadcast recipients and tenant capabilities\<close>

text \<open>
  For a device that is in a group, the recipients of its broadcasts are exactly the users who can read
  it; for an ungrouped device they are only a subset (the API-key claim and the ungrouped scope are not
  looked at).
\<close>

theorem broadcast_recipients:
  assumes "org_ids_ok w" and "device_by_id w d = Some row"
  shows "(u \<in> set (getUsersWithDeviceAccess w d) \<longrightarrow> canReadDevice w u d False) \<and>
    (dev_group row \<noteq> None \<longrightarrow> (canReadDevice w u d False \<longleftrightarrow> u \<in> set (getUsersWithDeviceAccess w d)))"
proof -
  have mem: "row \<in> set (devices w)" using find_SomeD [OF assms(2) [unfolded device_by_id_def]] by simp
  have holders: "u \<in> set (concat (map (\<lambda>tp. map tm_user (filter (\<lambda>m. tm_team m = tp_team tp) (team_memberships w)))
        (filter P (team_permissions w)))) \<longleftrightarrow> (\<exists>tp. holds w u tp \<and> P tp)" for P
    by (auto simp: holds_def)
  have grp: "list_ex (\<lambda>r. cl_anc r = tp_scope_id tp \<and> Some (cl_desc r) = Some g) (group_closure w) \<longleftrightarrow>
      isDescendant w (tp_scope_id tp) g" for tp g
    by (auto simp: isDescendant_def list_ex_iff)
  have "u \<in> set (getUsersWithDeviceAccess w d) \<longleftrightarrow>
      (\<exists>tp. holds w u tp \<and> tp_scope tp = ScDevice \<and> tp_scope_id tp = d) \<or>
      (case dev_group row of None \<Rightarrow> False | Some g \<Rightarrow> granted_over w (getUserTeamIds w u) g)"
  proof (cases "dev_group row")
    case None
    then show ?thesis using assms(2)
      by (simp only: getUsersWithDeviceAccess_def option.case Let_def truthy_id_simps if_False set_uniq append_Nil2 holders) simp
  next
    case (Some g)
    then have "g \<noteq> 0" using truthy_ok [OF assms(1) mem] by simp
    with Some show ?thesis using assms(2)
      by (simp only: getUsersWithDeviceAccess_def option.case Let_def truthy_id_simps if_True simp_thms set_uniq set_append
        Un_iff holders grp granted_over_iff)
  qed
  then show ?thesis unfolding canReadDevice_iff [OF assms] by (auto split: option.splits)
qed

text \<open>
  The capability list sent to the client never shows more than the server grants, and for a role
  other than the tenant administrator it shows exactly what the server grants.
\<close>

theorem tenant_capability_list_sound:
  "(cap \<in> set (listUserTenantCapabilities w u t) \<longrightarrow> userHasTenantCapability w u t cap) \<and>
   ((\<nexists>ut. find (\<lambda>r. ut_user r = u \<and> ut_tenant r = t) (user_tenants w) = Some ut \<and> ut_role ut = ''admin'') \<longrightarrow>
      (userHasTenantCapability w u t cap \<longleftrightarrow> cap \<in> set (listUserTenantCapabilities w u t)))"
  by (auto simp: listUserTenantCapabilities_def userHasTenantCapability_def split: option.splits if_splits)

section \<open>An example organisation\<close>

text \<open>
  User 7 is in team 1, which may read the company group 1. Device 10 is in the room, device 11 is ungrouped
  but enrolled with a key of the site, device 12 is ungrouped and unclaimed.
\<close>

definition ex_device :: "nat \<Rightarrow> nat option \<Rightarrow> nat option \<Rightarrow> device_row" where
  "ex_device i g k = \<lparr>dev_id = i, dev_tenant = 1, dev_group = g, dev_api_key = k, dev_privacy = False,
     dev_status = ''online'', dev_os_type = ''linux'', dev_tags = [], dev_hostname = ''host'', dev_display_name = None\<rparr>"

definition ex_org :: org where
  "ex_org = ex_room\<lparr>devices := [ex_device 10 (Some 3) None, ex_device 11 None (Some 5), ex_device 12 None None],
     agent_api_keys := [\<lparr>ak_id = 5, ak_default_group = Some 2\<rparr>],
     team_memberships := [\<lparr>tm_team = 1, tm_user = 7\<rparr>],
     team_permissions := [\<lparr>tp_team = 1, tp_scope = ScGroup, tp_scope_id = 1, tp_level = Ro, tp_caps = [''remote'']\<rparr>],
     user_tenants := [\<lparr>ut_user = 7, ut_tenant = 1, ut_role = ''tech''\<rparr>],
     permission_sets := [\<lparr>ps_slug = ''tech'', ps_caps = [''scripts'']\<rparr>]\<rparr>"

lemma ex_org_ok: "closure_ok ex_org"
  using ex_room_ok closure_ok_cong [of ex_org ex_room] by (simp add: ex_org_def)

lemma ex_org_ids: "org_ids_ok ex_org"
  by code_simp

lemma ex_org_devices:
  "device_by_id ex_org 10 = Some (ex_device 10 (Some 3) None)" "device_by_id ex_org 11 = Some (ex_device 11 None (Some 5))"
  by code_simp+

lemma group_permission_inherited_witness:
  "getGroupPermission ex_org 7 1 False \<le> getGroupPermission ex_org 7 3 False \<and> getGroupPermission ex_org 7 3 False = Some Ro"
proof -
  have "3 \<in> group_ids ex_org" "nth_anc (par_of ex_org) 2 3 = Some 1" "getGroupPermission ex_org 7 3 False = Some Ro"
    by code_simp+
  with group_permission_inherited [OF ex_org_ok, of 3] show ?thesis by blast
qed

lemma visible_devices_are_readable_witness:
  "(case getVisibleDeviceIds ex_org 7 False of AllIds \<Rightarrow> False | Ids ids \<Rightarrow> 11 \<in> set ids) \<and> canReadDevice ex_org 7 11 False"
proof -
  have "canReadDevice ex_org 7 11 False" by code_simp
  with visible_devices_are_readable [OF ex_org_ids ex_org_devices(2), of 7] show ?thesis by blast
qed

lemma batch_capability_agrees_witness:
  "devicesLackingCapability ex_org 7 [Fin 12, Fin 10, Fin 99, Fin 12, NonFin] ''remote'' = [12, 99]"
proof -
  have "filter (\<lambda>d. \<not> canUseCapability ex_org 7 d False ''remote'')
      (uniq (List.map_filter int_id [Fin 12, Fin 10, Fin 99, Fin 12, NonFin])) = [12, 99]"
    by code_simp
  with batch_capability_agrees [OF ex_org_ids] show ?thesis by simp
qed

lemma visible_groups_navigable_witness:
  "\<exists>ids. getVisibleGroupIds ex_org 7 False = Ids ids \<and> 3 \<in> set ids \<and> 1 \<in> set ids"
proof -
  have d: "\<forall>d \<in> set (devices ex_org). \<forall>h. dev_group d = Some h \<longrightarrow> h \<in> group_ids ex_org"
  proof -
    have "set (devices ex_org) = {ex_device 10 (Some 3) None, ex_device 11 None (Some 5), ex_device 12 None None}"
      by (simp add: ex_org_def)
    moreover have "3 \<in> group_ids ex_org" by code_simp
    ultimately show ?thesis by (simp add: ex_device_def)
  qed
  have "canReadGroup ex_org 7 3 False" "nth_anc (par_of ex_org) 2 3 = Some 1" by code_simp+
  moreover obtain ids where "getVisibleGroupIds ex_org 7 False = Ids ids"
    by (cases "getVisibleGroupIds ex_org 7 False") (auto simp: getVisibleGroupIds_def Let_def split: if_splits)
  ultimately show ?thesis using visible_groups_navigable [OF ex_org_ok _ d] by blast
qed

lemma broadcast_recipients_witness:
  "canReadDevice ex_org 7 10 False \<and> 7 \<in> set (getUsersWithDeviceAccess ex_org 10) \<and>
   canReadDevice ex_org 7 11 False \<and> 7 \<notin> set (getUsersWithDeviceAccess ex_org 11)"
proof -
  have "canReadDevice ex_org 7 10 False" "canReadDevice ex_org 7 11 False" "7 \<notin> set (getUsersWithDeviceAccess ex_org 11)"
    by code_simp+
  with broadcast_recipients [OF ex_org_ids ex_org_devices(1), of 7] show ?thesis by (simp add: ex_device_def)
qed

lemma tenant_capability_list_sound_witness:
  "''scripts'' \<in> set (listUserTenantCapabilities ex_org 7 1) \<and> userHasTenantCapability ex_org 7 1 ''scripts''"
proof -
  have "''scripts'' \<in> set (listUserTenantCapabilities ex_org 7 1)" by code_simp
  with tenant_capability_list_sound [of "''scripts''" ex_org 7 1] show ?thesis by blast
qed

end
