(* ===== verification/Grants.thy ===== *)
theory Grants
  imports Settings
begin

text \<open>
  Time-limited grants: the privacy unlock sessions (\<^verbatim>\<open>server/src/services/privacyGate.service.ts\<close>), kept in
  memory under the key \<^verbatim>\<open>user:device:feature\<close> with a sliding and an absolute expiry, and the trusted-IP
  windows of the second factor (\<^verbatim>\<open>server/src/services/tfaTrust.service.ts\<close>). Times are milliseconds.
\<close>

section \<open>Privacy unlock sessions\<close>

definition unlock_ttl_ms :: int where "unlock_ttl_ms = 15 * 60 * 1000"

definition unlock_max_ms :: int where "unlock_max_ms = 2 * 60 * 60 * 1000"

record unlock_session =
  ul_token :: string
  ul_feature :: string
  ul_created :: int
  ul_last :: int

type_synonym gate_store = "(string \<times> unlock_session) list"

definition unlock_key :: "nat \<Rightarrow> nat \<Rightarrow> string \<Rightarrow> string" where
  "unlock_key u d f = show_nat u @ '':'' @ show_nat d @ '':'' @ f"

text \<open>\<open>Map.set\<close>: an existing key keeps its place.\<close>

fun map_set :: "'k \<Rightarrow> 'v \<Rightarrow> ('k \<times> 'v) list \<Rightarrow> ('k \<times> 'v) list" where
  "map_set k v [] = [(k, v)]"
| "map_set k v ((k', v') # xs) = (if k' = k then (k, v) # xs else (k', v') # map_set k v xs)"

definition map_remove :: "('k \<Rightarrow> bool) \<Rightarrow> ('k \<times> 'v) list \<Rightarrow> ('k \<times> 'v) list" where
  "map_remove P xs = filter (\<lambda>(k, _). \<not> P k) xs"

definition gatePut :: "int \<Rightarrow> gate_store \<Rightarrow> nat \<Rightarrow> nat \<Rightarrow> string \<Rightarrow> string \<Rightarrow> gate_store" where
  "gatePut now st u d f tok =
     map_set (unlock_key u d f) \<lparr>ul_token = tok, ul_feature = f, ul_created = now, ul_last = now\<rparr> st"

definition unlock_expired :: "int \<Rightarrow> unlock_session \<Rightarrow> bool" where
  "unlock_expired now s \<longleftrightarrow> now - ul_created s > unlock_max_ms \<or> now - ul_last s > unlock_ttl_ms"

definition gateGet :: "int \<Rightarrow> gate_store \<Rightarrow> nat \<Rightarrow> nat \<Rightarrow> string \<Rightarrow> gate_store \<times> string option" where
  "gateGet now st u d f =
     (let k = unlock_key u d f
      in case map_of st k of
           None \<Rightarrow> (st, None)
         | Some s \<Rightarrow>
             if unlock_expired now s then (map_remove (\<lambda>k'. k' = k) st, None)
             else (map_set k (s\<lparr>ul_last := now\<rparr>) st, Some (ul_token s)))"

definition gateList :: "int \<Rightarrow> gate_store \<Rightarrow> nat \<Rightarrow> nat \<Rightarrow> gate_store \<times> (string \<times> int) list" where
  "gateList now st u d =
     (let mine = (\<lambda>k. starts_with (show_nat u @ '':'' @ show_nat d @ '':'') k)
      in (filter (\<lambda>(k, s). \<not> (mine k \<and> unlock_expired now s)) st,
          map (\<lambda>(k, s). (ul_feature s, min (ul_created s + unlock_max_ms) (ul_last s + unlock_ttl_ms)))
            (filter (\<lambda>(k, s). mine k \<and> \<not> unlock_expired now s) st)))"

definition key_device :: "string \<Rightarrow> string option" where
  "key_device k = (case split_on CHR '':'' k of _ # d # _ \<Rightarrow> Some d | _ \<Rightarrow> None)"

definition gateClearForDevice :: "gate_store \<Rightarrow> nat \<Rightarrow> gate_store" where
  "gateClearForDevice st d = map_remove (\<lambda>k. key_device k = Some (show_nat d)) st"

definition featureForCommand :: "string \<Rightarrow> string" where
  "featureForCommand ty =
     (if ty = ''run_script'' then ''scripts''
      else if ty = ''open_remote_tunnel'' then ''remote''
      else if ty \<in> set [''list_wts_sessions'', ''list_processes'', ''kill_process''] then ''processes''
      else if ty \<in> set [''list_directory'', ''create_directory'', ''rename_file'', ''delete_file'', ''download_file'', ''upload_file'']
      then ''files''
      else '''')"

definition isBlockedByPrivacy :: "string \<Rightarrow> bool" where
  "isBlockedByPrivacy ty \<longleftrightarrow> featureForCommand ty \<noteq> ''''"

lemma split_unlock_key: "split_on CHR '':'' (unlock_key u d f) = show_nat u # show_nat d # split_on CHR '':'' f"
  by (simp add: unlock_key_def split_on_append)

lemma unlock_key_inject [simp]: "unlock_key u d f = unlock_key u' d' f' \<longleftrightarrow> u = u' \<and> d = d' \<and> f = f'"
proof
  assume eq: "unlock_key u d f = unlock_key u' d' f'"
  then have "split_on CHR '':'' (unlock_key u d f) = split_on CHR '':'' (unlock_key u' d' f')" by simp
  then have "u = u'" "d = d'" by (simp_all add: split_unlock_key)
  with eq show "u = u' \<and> d = d' \<and> f = f'" by (simp add: unlock_key_def)
qed simp

lemma key_device_unlock [simp]: "key_device (unlock_key u d f) = Some (show_nat d)"
  by (simp add: key_device_def split_unlock_key)

lemma map_of_map_set [simp]: "map_of (map_set k v xs) k' = (if k' = k then Some v else map_of xs k')"
  by (induction k v xs rule: map_set.induct) auto

lemma map_of_map_remove [simp]: "map_of (map_remove P xs) k = (if P k then None else map_of xs k)"
  by (induction xs) (auto simp: map_remove_def)

text \<open>The operations on the sessions, with the time each of them reads.\<close>

datatype gate_op = GPut nat nat string string | GGet nat nat string | GList nat nat | GClear nat

fun gate_step :: "gate_store \<Rightarrow> int \<times> gate_op \<Rightarrow> gate_store" where
  "gate_step st (now, GPut u d f tok) = gatePut now st u d f tok"
| "gate_step st (now, GGet u d f) = fst (gateGet now st u d f)"
| "gate_step st (now, GList u d) = fst (gateList now st u d)"
| "gate_step st (now, GClear d) = gateClearForDevice st d"

definition gate_run :: "(int \<times> gate_op) list \<Rightarrow> gate_store" where
  "gate_run ops = foldl gate_step [] ops"

fun touches :: "nat \<Rightarrow> nat \<Rightarrow> string \<Rightarrow> gate_op \<Rightarrow> bool" where
  "touches u d f (GPut u' d' f' tok) \<longleftrightarrow> u' = u \<and> d' = d \<and> f' = f"
| "touches u d f (GGet u' d' f') \<longleftrightarrow> u' = u \<and> d' = d \<and> f' = f"
| "touches u d f _ \<longleftrightarrow> False"

fun overrides :: "nat \<Rightarrow> nat \<Rightarrow> string \<Rightarrow> gate_op \<Rightarrow> bool" where
  "overrides u d f (GPut u' d' f' tok) \<longleftrightarrow> u' = u \<and> d' = d \<and> f' = f"
| "overrides u d f (GClear d') \<longleftrightarrow> d' = d"
| "overrides u d f _ \<longleftrightarrow> False"

text \<open>Where a stored session comes from: the put that made it, not overridden since, and its last use.\<close>

definition session_from :: "(int \<times> gate_op) list \<Rightarrow> nat \<Rightarrow> nat \<Rightarrow> string \<Rightarrow> unlock_session \<Rightarrow> bool" where
  "session_from ops u d f s \<longleftrightarrow>
     (\<exists>pre post. ops = pre @ (ul_created s, GPut u d f (ul_token s)) # post \<and>
        (\<forall>op \<in> set post. \<not> overrides u d f (snd op)) \<and>
        (\<exists>op \<in> set ((ul_created s, GPut u d f (ul_token s)) # post). fst op = ul_last s \<and> touches u d f (snd op)))"

lemma session_from_put: "session_from (ops @ [(now, GPut u d f tok)]) u d f
    \<lparr>ul_token = tok, ul_feature = f, ul_created = now, ul_last = now\<rparr>"
  unfolding session_from_def by (rule exI [of _ ops], rule exI [of _ "[]"]) simp

lemma session_from_snoc:
  assumes "session_from ops u d f s" "\<not> overrides u d f op"
  shows "session_from (ops @ [(now, op)]) u d f s"
proof -
  from assms(1) obtain pre post where *: "ops = pre @ (ul_created s, GPut u d f (ul_token s)) # post"
    "\<forall>op \<in> set post. \<not> overrides u d f (snd op)"
    "\<exists>op \<in> set ((ul_created s, GPut u d f (ul_token s)) # post). fst op = ul_last s \<and> touches u d f (snd op)"
    by (auto simp: session_from_def)
  then show ?thesis unfolding session_from_def using assms(2)
    by (intro exI [of _ pre] exI [of _ "post @ [(now, op)]"]) auto
qed

lemma session_from_get:
  assumes "session_from ops u d f s"
  shows "session_from (ops @ [(now, GGet u d f)]) u d f (s\<lparr>ul_last := now\<rparr>)"
proof -
  from assms obtain pre post where *: "ops = pre @ (ul_created s, GPut u d f (ul_token s)) # post"
    "\<forall>op \<in> set post. \<not> overrides u d f (snd op)"
    by (auto simp: session_from_def)
  then show ?thesis unfolding session_from_def
    by (intro exI [of _ pre] exI [of _ "post @ [(now, GGet u d f)]"]) auto
qed

lemma map_of_filter_SomeD: "map_of (filter P xs) k = Some v \<Longrightarrow> distinct (map fst xs) \<Longrightarrow> map_of xs k = Some v"
  by (metis filter_is_subset map_of_SomeD map_of_is_SomeI subsetD)

lemma fst_map_set: "fst ` set (map_set k v xs) = insert k (fst ` set xs)"
  by (induction k v xs rule: map_set.induct) auto

lemma distinct_map_set: "distinct (map fst xs) \<Longrightarrow> distinct (map fst (map_set k v xs))"
  by (induction k v xs rule: map_set.induct) (auto simp: fst_map_set)

lemma distinct_gate_step: "distinct (map fst st) \<Longrightarrow> distinct (map fst (gate_step st op))"
  by (cases "(st, op)" rule: gate_step.cases)
    (auto simp: gatePut_def gateGet_def gateList_def gateClearForDevice_def map_remove_def Let_def
      distinct_map_set distinct_map_filter split: option.splits)

lemma gate_run_snoc: "gate_run (ops @ [op]) = gate_step (gate_run ops) op"
  by (simp add: gate_run_def)

lemma distinct_gate_run: "distinct (map fst (gate_run ops))"
proof (induction ops rule: rev_induct)
  case (snoc op ops)
  then show ?case by (simp add: gate_run_snoc distinct_gate_step)
qed (simp add: gate_run_def)

lemma gate_run_sessions: "map_of (gate_run ops) (unlock_key u d f) = Some s \<Longrightarrow> session_from ops u d f s"
proof (induction ops arbitrary: s rule: rev_induct)
  case Nil
  then show ?case by (simp add: gate_run_def)
next
  case (snoc top ops)
  obtain now op where top: "top = (now, op)" by fastforce
  show ?case
  proof (cases op)
    case (GPut u' d' f' tok)
    then show ?thesis using snoc top
      by (auto simp: gate_run_snoc gatePut_def session_from_put session_from_snoc split: if_splits)
  next
    case (GGet u' d' f')
    then show ?thesis using snoc top
      by (auto simp: gate_run_snoc gateGet_def Let_def session_from_get session_from_snoc split: if_splits option.splits)
  next
    case (GList u' d')
    then have "map_of (gate_run ops) (unlock_key u d f) = Some s"
      using snoc.prems top map_of_filter_SomeD [OF _ distinct_gate_run] by (auto simp: gate_run_snoc gateList_def Let_def)
    then show ?thesis using snoc.IH top GList by (simp add: session_from_snoc)
  next
    case (GClear d')
    then show ?thesis using snoc top
      by (auto simp: gate_run_snoc gateClearForDevice_def session_from_snoc split: if_splits)
  qed
qed

text \<open>
  C36. An unlock token is only ever returned for the user, device and feature it was stored for, at most two
  hours after it was stored and at most fifteen minutes after its last use, and never after the sessions
  of the device were cleared or a newer token was stored, whatever the operations in between.
\<close>

theorem unlock_token_provenance:
  assumes "snd (gateGet now (gate_run ops) u d f) = Some tok"
  shows "\<exists>pre t0 post. ops = pre @ (t0, GPut u d f tok) # post \<and> now - t0 \<le> 2 * 60 * 60 * 1000 \<and>
    (\<forall>op \<in> set post. \<not> overrides u d f (snd op)) \<and>
    (\<exists>op \<in> set ((t0, GPut u d f tok) # post). touches u d f (snd op) \<and> now - fst op \<le> 15 * 60 * 1000)"
proof -
  from assms obtain s where s: "map_of (gate_run ops) (unlock_key u d f) = Some s" "\<not> unlock_expired now s" "tok = ul_token s"
    by (auto simp: gateGet_def Let_def split: option.splits if_splits)
  from gate_run_sessions [OF s(1)] obtain pre post where *:
    "ops = pre @ (ul_created s, GPut u d f (ul_token s)) # post" "\<forall>op \<in> set post. \<not> overrides u d f (snd op)"
    "\<exists>op \<in> set ((ul_created s, GPut u d f (ul_token s)) # post). fst op = ul_last s \<and> touches u d f (snd op)"
    unfolding session_from_def by blast
  have "now - ul_created s \<le> 2 * 60 * 60 * 1000" "now - ul_last s \<le> 15 * 60 * 1000"
    using s(2) by (auto simp: unlock_expired_def unlock_max_ms_def unlock_ttl_ms_def)
  with *(3) have "\<exists>op \<in> set ((ul_created s, GPut u d f tok) # post). touches u d f (snd op) \<and> now - fst op \<le> 15 * 60 * 1000"
    unfolding s(3) by metis
  with *(1,2) \<open>now - ul_created s \<le> 2 * 60 * 60 * 1000\<close> show ?thesis unfolding s(3) by blast
qed

lemma unlock_token_provenance_witness:
  "\<exists>pre t0 post. [(0 :: int, GPut 1 2 ''files'' ''tok''), (600000, GGet 1 2 ''files'')] = pre @ (t0, GPut 1 2 ''files'' ''tok'') # post \<and>
     1400000 - t0 \<le> 2 * 60 * 60 * 1000 \<and> (\<forall>op \<in> set post. \<not> overrides 1 2 ''files'' (snd op))"
proof -
  have "snd (gateGet 1400000 (gate_run [(0 :: int, GPut 1 2 ''files'' ''tok''), (600000, GGet 1 2 ''files'')]) 1 2 ''files'') = Some ''tok''"
    by (simp add: gate_run_def gatePut_def gateGet_def Let_def unlock_expired_def unlock_max_ms_def unlock_ttl_ms_def)
  from unlock_token_provenance [OF this] show ?thesis by blast
qed

interpretation unlock_grants: grant_store
  "\<lambda>st now (u, d, f). snd (gateGet now st u d f) \<noteq> None"
  "\<lambda>st now (u, d, f). gatePut now st u d f tok"
  "\<lambda>st (u, d, f). gateClearForDevice st d" for tok
  by unfold_locales (auto simp: gateGet_def gatePut_def gateClearForDevice_def Let_def split: option.splits if_splits)

section \<open>Trusted IP addresses\<close>

record trust_row =
  tr_user :: nat
  tr_ip :: string
  tr_until :: int

definition default_trust_window_ms :: int where "default_trust_window_ms = 24 * 60 * 60 * 1000"

definition trustWindowMs :: "'a org_scheme \<Rightarrow> nat option \<Rightarrow> int" where
  "trustWindowMs w tenantId =
     (if \<not> truthy_id tenantId then default_trust_window_ms
      else case getGlobalNumber w (the tenantId) ''tfaTrustHours'' of
             SNum hours \<Rightarrow> if hours \<le> 0 then 0 else \<lfloor>hours * 60 * 60 * 1000\<rfloor>
           | SBool b \<Rightarrow> default_trust_window_ms)"

definition isTrusted :: "trust_row list \<Rightarrow> int \<Rightarrow> nat \<Rightarrow> string \<Rightarrow> bool" where
  "isTrusted rows now u ip =
     (if u = 0 \<or> ip = [] then False
      else list_ex (\<lambda>r. tr_user r = u \<and> tr_ip r = ip \<and> tr_until r > now) rows)"

definition trustGrant :: "'a org_scheme \<Rightarrow> trust_row list \<Rightarrow> int \<Rightarrow> nat \<Rightarrow> string \<Rightarrow> nat option \<Rightarrow> trust_row list" where
  "trustGrant w rows now u ip tenantId =
     (if u = 0 \<or> ip = [] then rows
      else let windowMs = trustWindowMs w tenantId
      in if windowMs \<le> 0 then rows
      else if list_ex (\<lambda>r. tr_user r = u \<and> tr_ip r = ip) rows
      then tbl_update (\<lambda>r. tr_user r = u \<and> tr_ip r = ip) (\<lambda>r. r\<lparr>tr_until := now + windowMs\<rparr>) rows
      else rows @ [\<lparr>tr_user = u, tr_ip = ip, tr_until = now + windowMs\<rparr>])"

definition revokeAllForUser :: "trust_row list \<Rightarrow> nat \<Rightarrow> trust_row list" where
  "revokeAllForUser rows u = tbl_delete (\<lambda>r. tr_user r = u) rows"

definition revokeForUserIp :: "trust_row list \<Rightarrow> nat \<Rightarrow> string \<Rightarrow> trust_row list" where
  "revokeForUserIp rows u ip = tbl_delete (\<lambda>r. tr_user r = u \<and> tr_ip r = ip) rows"

definition listForUser :: "trust_row list \<Rightarrow> int \<Rightarrow> nat \<Rightarrow> (string \<times> int) list" where
  "listForUser rows now u =
     map (\<lambda>r. (tr_ip r, tr_until r)) (rev (sort_key tr_until (filter (\<lambda>r. tr_user r = u \<and> tr_until r > now) rows)))"

definition trustSweepExpired :: "trust_row list \<Rightarrow> int \<Rightarrow> trust_row list \<times> nat" where
  "trustSweepExpired rows now =
     (tbl_delete (\<lambda>r. tr_until r < now) rows, length (filter (\<lambda>r. tr_until r < now) rows))"

lemma isTrusted_iff: "isTrusted rows now u ip \<longleftrightarrow>
    u \<noteq> 0 \<and> ip \<noteq> [] \<and> (\<exists>r \<in> set rows. tr_user r = u \<and> tr_ip r = ip \<and> now < tr_until r)"
  by (auto simp: isTrusted_def list_ex_iff)

definition honoured :: "trust_row list \<Rightarrow> int \<Rightarrow> nat \<Rightarrow> string \<Rightarrow> bool" where
  "honoured rows t u ip \<longleftrightarrow> list_ex (\<lambda>r. tr_user r = u \<and> tr_ip r = ip \<and> tr_until r > t) rows"

lemma isTrusted_rows: "isTrusted rows t u ip \<longleftrightarrow> u \<noteq> 0 \<and> ip \<noteq> [] \<and> honoured rows t u ip"
  by (simp add: isTrusted_def honoured_def)

lemma trusted_after_update:
  "honoured (tbl_update (\<lambda>r. tr_user r = u \<and> tr_ip r = ip) (\<lambda>r. r\<lparr>tr_until := x\<rparr>) rows) t u' ip' \<longleftrightarrow>
    (if u' = u \<and> ip' = ip then list_ex (\<lambda>r. tr_user r = u \<and> tr_ip r = ip) rows \<and> t < x else honoured rows t u' ip')"
proof (induction rows)
  case (Cons r rows)
  then show ?case by (cases "tr_user r = u \<and> tr_ip r = ip") (auto simp: tbl_update_def honoured_def)
qed (simp add: honoured_def)

lemma isTrusted_grant:
  "isTrusted (trustGrant w rows t0 u ip ten) t u' ip' \<longleftrightarrow>
    (if u' = u \<and> ip' = ip \<and> 0 < trustWindowMs w ten
     then u \<noteq> 0 \<and> ip \<noteq> [] \<and> t < t0 + trustWindowMs w ten
     else isTrusted rows t u' ip')"
proof (cases "u = 0 \<or> ip = [] \<or> trustWindowMs w ten \<le> 0")
  case True
  then show ?thesis by (auto simp: trustGrant_def Let_def isTrusted_iff)
next
  case False
  show ?thesis
  proof (cases "list_ex (\<lambda>r. tr_user r = u \<and> tr_ip r = ip) rows")
    case True
    then have "trustGrant w rows t0 u ip ten =
        tbl_update (\<lambda>r. tr_user r = u \<and> tr_ip r = ip) (\<lambda>r. r\<lparr>tr_until := t0 + trustWindowMs w ten\<rparr>) rows"
      using False by (simp add: trustGrant_def Let_def)
    with False True show ?thesis unfolding isTrusted_rows by (simp add: trusted_after_update)
  next
    case none: False
    with False show ?thesis by (auto simp: trustGrant_def Let_def isTrusted_iff list_ex_iff)
  qed
qed

interpretation trust_grants: grant_store
  "\<lambda>rows now (u, ip). isTrusted rows now u ip"
  "\<lambda>rows now (u, ip). trustGrant w rows now u ip ten"
  "\<lambda>rows (u, ip). revokeForUserIp rows u ip" for w ten
proof unfold_locales
  show "\<not> (case k of (u, ip) \<Rightarrow> isTrusted (case k of (u, ip) \<Rightarrow> revokeForUserIp s u ip) t u ip)" for s t k
    by (cases k) (simp add: isTrusted_iff revokeForUserIp_def set_tbl_delete)
  show "(case k' of (u, ip) \<Rightarrow> isTrusted (case k of (u, ip) \<Rightarrow> trustGrant w s t0 u ip ten) t u ip) =
      (case k' of (u, ip) \<Rightarrow> isTrusted s t u ip)" if "k' \<noteq> k" for k k' s t0 t
    using that by (cases k; cases k') (auto simp: isTrusted_grant)
qed

text \<open>
  Trusting an IP honours it exactly until the end of the tenant's window and changes no other trust
  entry; a window of zero hours grants nothing; and once revoked, an address stays untrusted whatever is
  granted to other users or addresses. The sweep removes no entry that is still honoured.
\<close>

theorem ip_trust_window:
  "(isTrusted (trustGrant w rows t0 u ip ten) t u' ip' \<longleftrightarrow>
     (if u' = u \<and> ip' = ip \<and> 0 < trustWindowMs w ten
      then u \<noteq> 0 \<and> ip \<noteq> [] \<and> t < t0 + trustWindowMs w ten
      else isTrusted rows t u' ip')) \<and>
   ((u, ip) \<notin> snd ` set gs \<longrightarrow>
     \<not> isTrusted (foldl (\<lambda>rows g. trustGrant w rows (fst g) (fst (snd g)) (snd (snd g)) ten) (revokeForUserIp rows u ip) gs) t u ip) \<and>
   isTrusted (fst (trustSweepExpired rows t)) t u ip = isTrusted rows t u ip"
proof (intro conjI impI)
  assume "(u, ip) \<notin> snd ` set gs"
  then show "\<not> isTrusted (foldl (\<lambda>rows g. trustGrant w rows (fst g) (fst (snd g)) (snd (snd g)) ten) (revokeForUserIp rows u ip) gs) t u ip"
    using trust_grants.revoked_until_granted [of "(u, ip)" gs w ten rows t] by (simp add: case_prod_beta)
qed (rule isTrusted_grant, auto simp: isTrusted_iff trustSweepExpired_def set_tbl_delete)

lemma ip_trust_window_witness:
  "isTrusted (trustGrant empty_org [] 0 7 ''10.0.0.1'' None) 86399999 7 ''10.0.0.1'' \<and>
   \<not> isTrusted (trustGrant empty_org [] 0 7 ''10.0.0.1'' None) 86400000 7 ''10.0.0.1'' \<and>
   \<not> isTrusted (trustGrant empty_org (revokeForUserIp [\<lparr>tr_user = 7, tr_ip = ''10.0.0.1'', tr_until = 5000\<rparr>] 7 ''10.0.0.1'') 0 8 ''10.0.0.1'' None)
      1000 7 ''10.0.0.1''"
proof -
  have win: "trustWindowMs empty_org None = 86400000" by (simp add: trustWindowMs_def default_trust_window_ms_def)
  note win_thm = ip_trust_window [of empty_org _ _ _ _ None]
  show ?thesis
    using win_thm [of "[]" 0 7 "''10.0.0.1''" 86399999 7 "''10.0.0.1''"] win_thm [of "[]" 0 7 "''10.0.0.1''" 86400000 7 "''10.0.0.1''"]
      win_thm [of "[\<lparr>tr_user = 7, tr_ip = ''10.0.0.1'', tr_until = 5000\<rparr>]" 0 7 "''10.0.0.1''" 1000 7 "''10.0.0.1''" "[(0, (8, ''10.0.0.1''))]"]
    by (simp add: win)
qed

end
