(* ===== verification/Db_Id.thy ===== *)
theory Db_Id
  imports Obl_Prelude
begin

text \<open>
  Ids that reach the database (\<^verbatim>\<open>server/src/utils/dbId.ts\<close>): a positive 32-bit integer, given as a number or
  as a string of plain digits. \<open>VOther\<close> stands for a value of any other JavaScript type.
\<close>

datatype js_value = VNum jsnum | VStr string | VOther

definition int4_max :: nat where "int4_max = 2147483647"

definition plain_digits :: "string \<Rightarrow> bool" where
  "plain_digits s \<longleftrightarrow> s \<noteq> [] \<and> length s \<le> 10 \<and> list_all is_digit s"

definition id_in_range :: "rat \<Rightarrow> nat option" where
  "id_in_range r = (if r = of_int \<lfloor>r\<rfloor> \<and> 0 < r \<and> r \<le> of_nat int4_max then Some (nat \<lfloor>r\<rfloor>) else None)"

fun toDbId :: "js_value \<Rightarrow> nat option" where
  "toDbId (VNum (Fin r)) = id_in_range r"
| "toDbId (VNum NonFin) = None"
| "toDbId (VStr s) = (if plain_digits s then id_in_range (of_nat (read_nat s)) else None)"
| "toDbId VOther = None"

fun toDbIds :: "js_value list \<Rightarrow> nat list option" where
  "toDbIds [] = Some []"
| "toDbIds (v # vs) = (case toDbId v of None \<Rightarrow> None | Some i \<Rightarrow> map_option (\<lambda>is. i # is) (toDbIds vs))"

definition validDbIds :: "js_value list \<Rightarrow> nat list" where
  "validDbIds vs = List.map_filter toDbId vs"

lemma id_in_range_iff: "id_in_range r = Some n \<longleftrightarrow> r = of_nat n \<and> 0 < n \<and> n \<le> int4_max"
proof
  assume "id_in_range r = Some n"
  then have r: "r = of_int \<lfloor>r\<rfloor>" "0 < r" "r \<le> of_nat int4_max" "n = nat \<lfloor>r\<rfloor>"
    by (auto simp: id_in_range_def split: if_splits)
  then have "0 < \<lfloor>r\<rfloor>" by (metis of_int_0_less_iff)
  with r have n: "r = of_nat n" "0 < n" by (metis less_imp_le of_int_of_nat_eq of_nat_nat) (use r \<open>0 < \<lfloor>r\<rfloor>\<close> in simp)
  with r(3) show "r = of_nat n \<and> 0 < n \<and> n \<le> int4_max" by simp
qed (simp add: id_in_range_def)

text \<open>
  The id parser accepts exactly the positive 32-bit integers, as a number or as one to ten plain
  digits, and gives the same id for both writings of it; a list is accepted exactly when every entry is,
  and then the lenient reader agrees with the strict one.
\<close>

theorem db_id_exact:
  "(toDbId v = Some n \<longleftrightarrow> 0 < n \<and> n \<le> 2147483647 \<and>
      (v = VNum (Fin (of_nat n)) \<or>
       (\<exists>s. v = VStr s \<and> s \<noteq> [] \<and> length s \<le> 10 \<and> set s \<subseteq> Collect is_digit \<and> read_nat s = n))) \<and>
   (toDbIds vs = (if \<exists>x \<in> set vs. toDbId x = None then None else Some (validDbIds vs)))"
proof
  show "toDbId v = Some n \<longleftrightarrow> 0 < n \<and> n \<le> 2147483647 \<and>
      (v = VNum (Fin (of_nat n)) \<or>
       (\<exists>s. v = VStr s \<and> s \<noteq> [] \<and> length s \<le> 10 \<and> set s \<subseteq> Collect is_digit \<and> read_nat s = n))"
    by (cases v rule: toDbId.cases)
      (auto simp: id_in_range_iff int4_max_def plain_digits_def list_all_iff)
  show "toDbIds vs = (if \<exists>x \<in> set vs. toDbId x = None then None else Some (validDbIds vs))"
    by (induction vs) (auto simp: validDbIds_def map_filter_simps split: option.splits)
qed

lemma show_nat_length: "n < 10 ^ Suc k \<Longrightarrow> length (show_nat n) \<le> Suc k"
proof (induction k arbitrary: n)
  case 0
  then show ?case by (subst show_nat.simps) simp
next
  case (Suc k)
  then have "n div 10 < 10 ^ Suc k" by (simp add: less_mult_imp_div_less)
  with Suc.IH [of "n div 10"] show ?case by (subst show_nat.simps) simp
qed

text \<open>
  Printing an id and reading it back gives the id, for every positive 32-bit integer.
\<close>

theorem db_id_print_read:
  assumes "0 < n" and "n \<le> 2147483647"
  shows "toDbId (VStr (show_nat n)) = Some n"
  using assms show_nat_length [of n 9] show_nat_digits [of n]
  by (simp add: plain_digits_def list_all_iff id_in_range_iff int4_max_def)

lemma db_id_print_read_witness: "toDbId (VStr (show_nat 2147483647)) = Some 2147483647"
  using db_id_print_read [of 2147483647] by simp

end
