(* ===== verification/Client_Ip.thy ===== *)
theory Client_Ip
  imports Obl_Prelude
begin

text \<open>
  The address of a client behind proxies (\<^verbatim>\<open>server/src/utils/clientIp.ts\<close>): normalisation of an address and
  the walk over \<^verbatim>\<open>X-Forwarded-For\<close> from right to left. The trust function (an argument of the code too),
  the test for non-public ranges and \<^verbatim>\<open>net.isIP\<close> are arguments; nothing is assumed of them.
\<close>

section \<open>Normalisation\<close>

definition dotted_quad :: "nat option \<Rightarrow> string \<Rightarrow> bool" where
  "dotted_quad mx s \<longleftrightarrow>
     (let ps = split_on CHR ''.'' s
      in length ps = 4 \<and> list_all (\<lambda>p. p \<noteq> [] \<and> list_all is_digit p \<and> (case mx of None \<Rightarrow> True | Some m \<Rightarrow> length p \<le> m)) ps)"

definition port_suffix :: "string \<Rightarrow> bool" where
  "port_suffix s \<longleftrightarrow> (case s of c # cs \<Rightarrow> c = CHR '':'' \<and> cs \<noteq> [] \<and> list_all is_digit cs | [] \<Rightarrow> False)"

definition stripPort :: "string \<Rightarrow> string" where
  "stripPort s =
     (let inner = takeWhile (\<lambda>c. c \<noteq> CHR '']'') (tl s);
          rest = drop (Suc (length inner)) (tl s);
          host = takeWhile (\<lambda>c. c \<noteq> CHR '':'') s;
          port = dropWhile (\<lambda>c. c \<noteq> CHR '':'') s
      in if s \<noteq> [] \<and> hd s = CHR ''['' \<and> inner \<noteq> [] \<and> CHR '']'' \<in> set (tl s) \<and> (rest = [] \<or> port_suffix rest) then inner
         else if dotted_quad (Some 3) host \<and> port_suffix port then host
         else s)"

definition strip_mapped :: "string \<Rightarrow> string" where
  "strip_mapped s = (if to_lower (take 7 s) = ''::ffff:'' \<and> dotted_quad None (drop 7 s) then drop 7 s else s)"

fun strip_zone :: "string \<Rightarrow> string" where
  "strip_zone [] = []"
| "strip_zone (c # cs) = (if c = CHR ''%'' \<and> CHR 0x0A \<notin> set cs \<and> CHR 0x0D \<notin> set cs then [] else c # strip_zone cs)"

definition normalizeIp :: "string option \<Rightarrow> string" where
  "normalizeIp raw = strip_zone (strip_mapped (stripPort (trim (case raw of None \<Rightarrow> [] | Some s \<Rightarrow> s))))"

section \<open>The walk\<close>

record resolved_client =
  rc_ip :: string
  rc_relay :: bool
  rc_untrusted :: bool

text \<open>\<open>hops\<close> is the list with its last element first: \<open>hops.pop()\<close> takes the head.\<close>

fun hop_walk ::
    "(string \<Rightarrow> bool) \<Rightarrow> (string \<Rightarrow> bool) \<Rightarrow> nat \<Rightarrow> string \<Rightarrow> string list \<Rightarrow> nat \<Rightarrow> string \<times> string list \<times> nat \<times> bool" where
  "hop_walk trusted isIP maxHops current [] consumed = (current, [], consumed, False)"
| "hop_walk trusted isIP maxHops current (h # hs) consumed =
     (if current \<noteq> [] \<and> trusted current \<and> consumed < maxHops
      then (if \<not> isIP h then (current, hs, Suc consumed, True)
            else hop_walk trusted isIP maxHops h hs (Suc consumed))
      else (current, h # hs, consumed, False))"

datatype forwarded = NoHeader | OneHeader string | ManyHeaders "string list"

fun header_text :: "forwarded \<Rightarrow> string" where
  "header_text NoHeader = []"
| "header_text (OneHeader h) = h"
| "header_text (ManyHeaders hs) = join_with '','' hs"

definition header_hops :: "forwarded \<Rightarrow> string list" where
  "header_hops fw = filter (\<lambda>h. h \<noteq> []) (map (\<lambda>s. normalizeIp (Some s)) (split_on CHR '','' (header_text fw)))"

definition resolveClient ::
    "(string \<Rightarrow> bool) \<Rightarrow> (string \<Rightarrow> bool) \<Rightarrow> (string \<Rightarrow> bool) \<Rightarrow> nat \<Rightarrow> string option \<Rightarrow> forwarded \<Rightarrow> resolved_client" where
  "resolveClient trusted nonPublic isIP maxHops socketAddress forwardedFor =
     (case hop_walk trusted isIP maxHops (normalizeIp socketAddress) (rev (header_hops forwardedFor)) 0 of
        (current, hops, consumed, malformed) \<Rightarrow>
          let forwarded = (malformed \<or> hops \<noteq> [])
          in if current = [] \<or> trusted current
             then \<lparr>rc_ip = current, rc_relay = True, rc_untrusted = False\<rparr>
             else let relay = (forwarded \<and> nonPublic current)
                  in \<lparr>rc_ip = current, rc_relay = relay, rc_untrusted = (relay \<and> consumed < maxHops)\<rparr>)"

section \<open>A client cannot choose its address\<close>

lemma hop_walk_proxies:
  assumes "current \<noteq> []" "trusted current" "\<forall>p \<in> set ps. p \<noteq> [] \<and> trusted p \<and> isIP p"
    "\<not> trusted client" "isIP client" "consumed + length ps < maxHops"
  shows "hop_walk trusted isIP maxHops current (ps @ client # evil) consumed =
    (client, evil, Suc (consumed + length ps), False)"
  using assms
proof (induction ps arbitrary: current consumed)
  case Nil
  then show ?case by (cases evil) auto
next
  case (Cons p ps)
  then show ?case by simp
qed

lemma header_hops_suffix:
  assumes "\<forall>h \<in> set good. h \<noteq> [] \<and> CHR '','' \<notin> set h \<and> normalizeIp (Some h) = h" "good \<noteq> []"
  shows "header_hops (OneHeader (evil @ '','' @ join_with '','' good)) = header_hops (OneHeader evil) @ good"
proof -
  have "split_on CHR '','' (join_with '','' good) = good" using assms by (intro split_join) auto
  moreover have "map (\<lambda>s. normalizeIp (Some s)) good = good" using assms by (intro map_idI) simp
  moreover have "filter (\<lambda>h. h \<noteq> []) good = good" using assms by (intro filter_True) simp
  ultimately show ?thesis by (simp add: header_hops_def split_on_sep)
qed

text \<open>
  C37. Whatever the client itself wrote in \<open>X-Forwarded-For\<close>, the address it is seen with is the one the first
  trusted proxy saw: when the connection comes from a trusted proxy, the entries our proxies appended
  name the client and then trusted proxies, and the hop budget covers them, the client-written part
  left of them plays no role.
\<close>

theorem client_ip_unforgeable:
  assumes "normalizeIp (Some sock) \<noteq> []" and "trusted (normalizeIp (Some sock))"
    and "\<forall>h \<in> set (client # proxies). h \<noteq> [] \<and> CHR '','' \<notin> set h \<and> normalizeIp (Some h) = h \<and> isIP h"
    and "\<forall>p \<in> set proxies. trusted p" and "\<not> trusted client" and "length proxies < maxHops"
  shows "rc_ip (resolveClient trusted nonPublic isIP maxHops (Some sock)
      (OneHeader (evil @ '','' @ join_with '','' (client # proxies)))) = client"
proof -
  have "header_hops (OneHeader (evil @ '','' @ join_with '','' (client # proxies))) =
      header_hops (OneHeader evil) @ client # proxies"
    using assms(3) by (intro header_hops_suffix) auto
  then have "hop_walk trusted isIP maxHops (normalizeIp (Some sock))
      (rev (header_hops (OneHeader (evil @ '','' @ join_with '','' (client # proxies))))) 0 =
    (client, rev (header_hops (OneHeader evil)), Suc (0 + length (rev proxies)), False)"
    using assms hop_walk_proxies [of "normalizeIp (Some sock)" trusted "rev proxies" isIP client 0 maxHops
        "rev (header_hops (OneHeader evil))"] by simp
  moreover have "client \<noteq> []" using assms(3) by simp
  ultimately show ?thesis using assms(5) by (simp add: resolveClient_def)
qed

lemma hop_walk_bound:
  "case hop_walk trusted isIP maxHops current hops consumed of (ip, rest, n, bad) \<Rightarrow>
     (ip = current \<or> ip \<in> set (take (maxHops - consumed) hops) \<and> isIP ip) \<and> n \<le> max consumed maxHops \<and>
     (\<exists>used. hops = used @ rest \<and> length used = n - consumed \<and> consumed \<le> n)"
proof (induction trusted isIP maxHops current hops consumed rule: hop_walk.induct)
  case (2 trusted isIP maxHops current h hs consumed)
  show ?case
  proof (cases "current \<noteq> [] \<and> trusted current \<and> consumed < maxHops \<and> isIP h")
    case True
    then obtain ip rest n bad where w: "hop_walk trusted isIP maxHops h hs (Suc consumed) = (ip, rest, n, bad)"
      by (metis prod_cases4)
    have "take (maxHops - consumed) (h # hs) = h # take (maxHops - Suc consumed) hs"
      using True by (simp add: take_Cons')
    moreover obtain used where "hs = used @ rest" "length used = n - Suc consumed" "Suc consumed \<le> n"
      using 2 True w by auto
    moreover from this have "h # hs = (h # used) @ rest" "length (h # used) = n - consumed" by auto
    ultimately show ?thesis using 2 True w by (auto intro: exI [of _ "h # used"])
  next
    case False
    then show ?thesis by (auto intro: exI [of _ "[h]"])
  qed
qed simp

text \<open>
  C28. The resolved address is the one of the socket or one of the last \<open>maxHops\<close> entries of the header, at
  most \<open>maxHops\<close> entries are consumed, and an address that is not reported as a relay is never one of our
  own proxies.
\<close>

theorem client_ip_bounded:
  "let r = resolveClient trusted nonPublic isIP maxHops sock fw; hops = header_hops fw
   in (rc_ip r = normalizeIp sock \<or> rc_ip r \<in> set (drop (length hops - maxHops) hops)) \<and>
      (\<not> rc_relay r \<longrightarrow> rc_ip r \<noteq> [] \<and> \<not> trusted (rc_ip r)) \<and>
      (rc_untrusted r \<longrightarrow> rc_relay r \<and> nonPublic (rc_ip r) \<and> \<not> trusted (rc_ip r))"
proof -
  obtain ip rest n bad where w: "hop_walk trusted isIP maxHops (normalizeIp sock) (rev (header_hops fw)) 0 = (ip, rest, n, bad)"
    by (metis prod_cases4)
  have "ip = normalizeIp sock \<or> ip \<in> set (take maxHops (rev (header_hops fw)))"
    using hop_walk_bound [where trusted = trusted and isIP = isIP and maxHops = maxHops and current = "normalizeIp sock"
      and hops = "rev (header_hops fw)" and consumed = 0] w by auto
  then show ?thesis by (auto simp: resolveClient_def w Let_def take_rev)
qed

lemma client_ip_unforgeable_witness:
  "rc_ip (resolveClient (\<lambda>a. a \<in> {''127.0.0.1'', ''172.18.0.2''}) (\<lambda>a. False) (\<lambda>a. True) 2 (Some ''::ffff:127.0.0.1'')
      (OneHeader (''10.9.8.7'' @ '','' @ join_with '','' [''203.0.113.5'', ''172.18.0.2'']))) = ''203.0.113.5''"
proof -
  have n: "normalizeIp (Some ''::ffff:127.0.0.1'') = ''127.0.0.1''" "normalizeIp (Some ''203.0.113.5'') = ''203.0.113.5''"
    "normalizeIp (Some ''172.18.0.2'') = ''172.18.0.2''" by code_simp+
  show ?thesis by (rule client_ip_unforgeable) (simp_all add: n)
qed

lemma client_ip_bounded_witness:
  "let r = resolveClient (\<lambda>a. a = ''127.0.0.1'') (\<lambda>a. True) (\<lambda>a. True) 1 (Some ''127.0.0.1'') (OneHeader ''6.6.6.6,10.0.0.9'')
   in rc_ip r = ''10.0.0.9'' \<and> rc_relay r \<and> \<not> rc_untrusted r \<and> rc_ip r \<in> set (drop 1 [''6.6.6.6'', ''10.0.0.9''])"
proof -
  define r where "r = resolveClient (\<lambda>a. a = ''127.0.0.1'') (\<lambda>a. True) (\<lambda>a. True) 1 (Some ''127.0.0.1'') (OneHeader ''6.6.6.6,10.0.0.9'')"
  have e: "rc_ip r = ''10.0.0.9''" "rc_relay r" "\<not> rc_untrusted r" unfolding r_def by code_simp+
  have h: "header_hops (OneHeader ''6.6.6.6,10.0.0.9'') = [''6.6.6.6'', ''10.0.0.9'']"
    "normalizeIp (Some ''127.0.0.1'') = ''127.0.0.1''" by code_simp+
  have "rc_ip r = ''127.0.0.1'' \<or> rc_ip r \<in> set (drop (length [''6.6.6.6'', ''10.0.0.9''] - 1) [''6.6.6.6'', ''10.0.0.9''])"
    using client_ip_bounded [of "\<lambda>a. a = ''127.0.0.1''" "\<lambda>a. True" "\<lambda>a. True" 1 "Some ''127.0.0.1''" "OneHeader ''6.6.6.6,10.0.0.9''"]
    unfolding Let_def h r_def by blast
  then show ?thesis unfolding Let_def r_def [symmetric] using e by simp
qed

end
