(* ===== verification/Ssrf_Guard.thy ===== *)
theory Ssrf_Guard
  imports Client_Ip "HOL-Library.Word"
begin

text \<open>
  The guard of outgoing requests (\<^verbatim>\<open>server/src/utils/ssrfGuard.ts\<close>). The regular expressions on the text of an
  IPv4 address are compared with the address blocks they stand for, on 32-bit words. The URL parser,
  \<^verbatim>\<open>net.isIP\<close> (as the address family, 0 for no address) and the resolver are arguments.
\<close>

unbundle bit_operations_syntax

section \<open>Private addresses\<close>

definition isPrivateIPv4 :: "string \<Rightarrow> bool" where
  "isPrivateIPv4 ip \<longleftrightarrow>
     starts_with ''10.'' ip \<or> starts_with ''127.'' ip \<or> starts_with ''169.254.'' ip \<or> starts_with ''192.168.'' ip \<or>
     list_ex (\<lambda>n. starts_with (''172.'' @ show_nat n @ ''.'') ip) [16..<32] \<or>
     starts_with ''0.'' ip \<or>
     list_ex (\<lambda>n. starts_with (''100.'' @ show_nat n @ ''.'') ip) [64..<128]"

definition isPrivateIPv6 :: "string \<Rightarrow> bool" where
  "isPrivateIPv6 ip =
     (let lc = to_lower ip
      in if lc = ''::1'' then True
         else if starts_with ''fc'' lc \<or> starts_with ''fd'' lc then True
         else if starts_with ''fe8'' lc \<or> starts_with ''fe9'' lc \<or> starts_with ''fea'' lc \<or> starts_with ''feb'' lc then True
         else if starts_with ''::ffff:'' lc \<and> dotted_quad (Some 3) (drop 7 lc) then isPrivateIPv4 (drop 7 lc)
         else False)"

record parsed_url =
  url_protocol :: string
  url_hostname :: string

datatype url_error = InvalidUrl | NonHttpScheme string | PrivateDestination string | Unresolvable string

definition private_answer :: "nat \<times> string \<Rightarrow> bool" where
  "private_answer a \<longleftrightarrow> fst a = 4 \<and> isPrivateIPv4 (snd a) \<or> fst a = 6 \<and> isPrivateIPv6 (snd a)"

definition assertPublicHttpUrl ::
    "(string \<Rightarrow> parsed_url option) \<Rightarrow> (string \<Rightarrow> nat) \<Rightarrow> (string \<Rightarrow> (nat \<times> string) list option) \<Rightarrow> string \<Rightarrow> url_error + parsed_url" where
  "assertPublicHttpUrl parse isIP lookup rawUrl =
     (case parse rawUrl of
        None \<Rightarrow> Inl InvalidUrl
      | Some url \<Rightarrow>
          if url_protocol url \<noteq> ''http:'' \<and> url_protocol url \<noteq> ''https:'' then Inl (NonHttpScheme (url_protocol url))
          else let hostname = url_hostname url
          in if hostname = ''localhost'' \<or> hostname = ''localhost.localdomain'' then Inl (PrivateDestination ''localhost'')
          else let v = isIP hostname
          in if v = 4 \<and> isPrivateIPv4 hostname then Inl (PrivateDestination hostname)
          else if v = 6 \<and> isPrivateIPv6 hostname then Inl (PrivateDestination hostname)
          else if v = 0
          then (case lookup hostname of
                  None \<Rightarrow> Inl (Unresolvable hostname)
                | Some all \<Rightarrow> (case find private_answer all of
                    Some a \<Rightarrow> Inl (PrivateDestination (hostname @ '' -> '' @ snd a))
                  | None \<Rightarrow> Inr url))
          else Inr url)"

section \<open>The expressions are the address blocks\<close>

definition ip4_text :: "nat \<Rightarrow> nat \<Rightarrow> nat \<Rightarrow> nat \<Rightarrow> string" where
  "ip4_text a b c d = show_nat a @ ''.'' @ show_nat b @ ''.'' @ show_nat c @ ''.'' @ show_nat d"

definition ip4_word :: "nat \<Rightarrow> nat \<Rightarrow> nat \<Rightarrow> nat \<Rightarrow> 32 word" where
  "ip4_word a b c d = of_nat (a * 2 ^ 24 + b * 2 ^ 16 + c * 2 ^ 8 + d)"

definition in_block :: "32 word \<times> nat \<Rightarrow> 32 word \<Rightarrow> bool" where
  "in_block net addr \<longleftrightarrow> drop_bit (32 - snd net) addr = drop_bit (32 - snd net) (fst net)"

text \<open>10/8, 127/8, 169.254/16, 192.168/16, 172.16/12, 0/8 and the carrier-grade NAT range 100.64/10.\<close>

definition private_blocks :: "(32 word \<times> nat) list" where
  "private_blocks = [(ip4_word 10 0 0 0, 8), (ip4_word 127 0 0 0, 8), (ip4_word 169 254 0 0, 16),
     (ip4_word 192 168 0 0, 16), (ip4_word 172 16 0 0, 12), (ip4_word 0 0 0 0, 8), (ip4_word 100 64 0 0, 10)]"

lemma dot_not_digit [simp]: "CHR ''.'' \<notin> set (show_nat n)"
  by (rule show_nat_no_sep) (simp add: is_digit_def)

lemma append_sep_eq:
  assumes "c \<notin> set xs" "c \<notin> set ys"
  shows "xs @ c # us = ys @ c # vs \<longleftrightarrow> xs = ys \<and> us = vs"
  using assms by (induction xs arbitrary: ys) (case_tac [!] ys, auto)

lemma starts_with_first: "starts_with (show_nat n @ ''.'') (show_nat a @ ''.'' @ rest) \<longleftrightarrow> n = a"
proof -
  have "starts_with (show_nat n @ ''.'') (show_nat a @ ''.'' @ rest) \<longleftrightarrow>
      (\<exists>zs. show_nat a @ CHR ''.'' # rest = show_nat n @ CHR ''.'' # zs)"
    by (simp add: starts_with_prefix prefix_def)
  then show ?thesis by (auto simp: append_sep_eq)
qed

lemma starts_with_second:
  "starts_with (show_nat n @ ''.'' @ show_nat m @ ''.'') (show_nat a @ ''.'' @ show_nat b @ ''.'' @ rest) \<longleftrightarrow> n = a \<and> m = b"
proof -
  have "starts_with (show_nat n @ ''.'' @ show_nat m @ ''.'') (show_nat a @ ''.'' @ show_nat b @ ''.'' @ rest) \<longleftrightarrow>
      (\<exists>zs. show_nat a @ CHR ''.'' # (show_nat b @ CHR ''.'' # rest) = show_nat n @ CHR ''.'' # (show_nat m @ CHR ''.'' # zs))"
    by (simp add: starts_with_prefix prefix_def)
  then show ?thesis by (auto simp: append_sep_eq)
qed

lemma show_consts:
  "show_nat 10 = ''10''" "show_nat 127 = ''127''" "show_nat 169 = ''169''" "show_nat 254 = ''254''" "show_nat 192 = ''192''"
  "show_nat 168 = ''168''" "show_nat 172 = ''172''" "show_nat 0 = ''0''" "show_nat 100 = ''100''"
  by code_simp+

lemma private_iff_octets:
  "isPrivateIPv4 (ip4_text a b c d) \<longleftrightarrow>
     a = 10 \<or> a = 127 \<or> (a = 169 \<and> b = 254) \<or> (a = 192 \<and> b = 168) \<or> (a = 172 \<and> 16 \<le> b \<and> b < 32) \<or> a = 0 \<or>
     (a = 100 \<and> 64 \<le> b \<and> b < 128)"
proof -
  note first = starts_with_first [where a = a and rest = "show_nat b @ ''.'' @ show_nat c @ ''.'' @ show_nat d"]
    and second = starts_with_second [where a = a and b = b and rest = "show_nat c @ ''.'' @ show_nat d"]
  have one: "starts_with (show_nat n @ ''.'') (ip4_text a b c d) \<longleftrightarrow> n = a" for n
    unfolding ip4_text_def by (rule first)
  have two: "starts_with (show_nat n @ ''.'' @ show_nat m @ ''.'') (ip4_text a b c d) \<longleftrightarrow> n = a \<and> m = b" for n m
    unfolding ip4_text_def by (rule second)
  have lit: "''10.'' = show_nat 10 @ ''.''" "''127.'' = show_nat 127 @ ''.''" "''0.'' = show_nat 0 @ ''.''"
    "''169.254.'' = show_nat 169 @ ''.'' @ show_nat 254 @ ''.''" "''192.168.'' = show_nat 192 @ ''.'' @ show_nat 168 @ ''.''"
    "''172.'' @ xs = show_nat 172 @ ''.'' @ xs" "''100.'' @ xs = show_nat 100 @ ''.'' @ xs" for xs
    by (simp_all add: show_consts)
  have "starts_with ''10.'' (ip4_text a b c d) \<longleftrightarrow> a = 10" by (simp only: lit(1) one) auto
  moreover have "starts_with ''127.'' (ip4_text a b c d) \<longleftrightarrow> a = 127" by (simp only: lit(2) one) auto
  moreover have "starts_with ''0.'' (ip4_text a b c d) \<longleftrightarrow> a = 0" by (simp only: lit(3) one) auto
  moreover have "starts_with ''169.254.'' (ip4_text a b c d) \<longleftrightarrow> a = 169 \<and> b = 254" by (simp only: lit(4) two) auto
  moreover have "starts_with ''192.168.'' (ip4_text a b c d) \<longleftrightarrow> a = 192 \<and> b = 168" by (simp only: lit(5) two) auto
  moreover have "starts_with (''172.'' @ show_nat n @ ''.'') (ip4_text a b c d) \<longleftrightarrow> a = 172 \<and> n = b" for n
    by (simp only: lit(6) two) auto
  moreover have "starts_with (''100.'' @ show_nat n @ ''.'') (ip4_text a b c d) \<longleftrightarrow> a = 100 \<and> n = b" for n
    by (simp only: lit(7) two) auto
  ultimately show ?thesis unfolding isPrivateIPv4_def list_ex_iff by (simp only: set_upt Bex_def atLeastLessThan_iff) blast
qed

lemma unat_ip4_word:
  assumes "a < 256" "b < 256" "c < 256" "d < 256"
  shows "unat (ip4_word a b c d) = a * 2 ^ 24 + b * 2 ^ 16 + c * 2 ^ 8 + d"
proof -
  have "a * 2 ^ 24 + b * 2 ^ 16 + c * 2 ^ 8 + d < 2 ^ 32" using assms by simp
  then show ?thesis unfolding ip4_word_def unsigned_of_nat by (subst take_bit_nat_eq_self) simp_all
qed

lemma in_block_unat: "in_block (net, len) addr \<longleftrightarrow> unat addr div 2 ^ (32 - len) = unat net div 2 ^ (32 - len)"
proof -
  have "unat (drop_bit k x) = unat x div 2 ^ k" for k and x :: "32 word"
    unfolding unat_drop_bit_eq by (rule drop_bit_eq_div)
  then show ?thesis unfolding in_block_def word_unat_eq_iff by simp
qed

lemma private_blocks_iff:
  assumes "a < 256" and "b < 256" and "c < 256" and "d < 256"
  shows "(\<exists>net \<in> set private_blocks. in_block net (ip4_word a b c d)) \<longleftrightarrow> isPrivateIPv4 (ip4_text a b c d)"
proof -
  have u: "unat (ip4_word a b c d) = a * 2 ^ 24 + b * 2 ^ 16 + c * 2 ^ 8 + d" using assms by (rule unat_ip4_word)
  have blk: "in_block (ip4_word a' b' 0 0, len) (ip4_word a b c d) \<longleftrightarrow>
      (a * 2 ^ 24 + b * 2 ^ 16 + c * 2 ^ 8 + d) div 2 ^ (32 - len) = (a' * 2 ^ 24 + b' * 2 ^ 16) div 2 ^ (32 - len)"
    if "a' < 256" "b' < 256" for a' b' len
    using unat_ip4_word [of a' b' 0 0] that unfolding in_block_unat u by simp
  have d8: "(a * 2 ^ 24 + b * 2 ^ 16 + c * 2 ^ 8 + d) div 2 ^ 24 = a" using assms by simp
  have d16: "(a * 2 ^ 24 + b * 2 ^ 16 + c * 2 ^ 8 + d) div 2 ^ 16 = a * 256 + b" using assms by simp
  have d12: "(a * 2 ^ 24 + b * 2 ^ 16 + c * 2 ^ 8 + d) div 2 ^ 20 = a * 16 + b div 16" using assms by simp
  have d10: "(a * 2 ^ 24 + b * 2 ^ 16 + c * 2 ^ 8 + d) div 2 ^ 22 = a * 4 + b div 64" using assms by simp
  have blocks: "(\<exists>net \<in> set private_blocks. in_block net (ip4_word a b c d)) \<longleftrightarrow>
      a = 10 \<or> a = 127 \<or> a * 256 + b = 43518 \<or> a * 256 + b = 49320 \<or> a * 16 + b div 16 = 2753 \<or> a = 0 \<or>
      a * 4 + b div 64 = 401"
  proof -
    have ex7: "(\<exists>net \<in> set [n1, n2, n3, n4, n5, n6, n7]. P net) \<longleftrightarrow> P n1 \<or> P n2 \<or> P n3 \<or> P n4 \<or> P n5 \<or> P n6 \<or> P n7"
      for P and n1 n2 n3 n4 n5 n6 n7 :: "32 word \<times> nat" by simp
    have e1: "in_block (ip4_word 10 0 0 0, 8) (ip4_word a b c d) \<longleftrightarrow> a = 10" using blk [of 10 0 8] d8 by simp
    have e2: "in_block (ip4_word 127 0 0 0, 8) (ip4_word a b c d) \<longleftrightarrow> a = 127" using blk [of 127 0 8] d8 by simp
    have e3: "in_block (ip4_word 169 254 0 0, 16) (ip4_word a b c d) \<longleftrightarrow> a * 256 + b = 43518" using blk [of 169 254 16] d16 by simp
    have e4: "in_block (ip4_word 192 168 0 0, 16) (ip4_word a b c d) \<longleftrightarrow> a * 256 + b = 49320" using blk [of 192 168 16] d16 by simp
    have e5: "in_block (ip4_word 172 16 0 0, 12) (ip4_word a b c d) \<longleftrightarrow> a * 16 + b div 16 = 2753" using blk [of 172 16 12] d12 by simp
    have e6: "in_block (ip4_word 0 0 0 0, 8) (ip4_word a b c d) \<longleftrightarrow> a = 0" using blk [of 0 0 8] d8 by simp
    have e7: "in_block (ip4_word 100 64 0 0, 10) (ip4_word a b c d) \<longleftrightarrow> a * 4 + b div 64 = 401" using blk [of 100 64 10] d10 by simp
    show ?thesis unfolding private_blocks_def by (subst ex7) (simp only: e1 e2 e3 e4 e5 e6 e7)
  qed
  have b: "b div 16 < 16" "b div 64 < 4" using assms by auto
  have "a * 256 + b = m \<longleftrightarrow> a = m div 256 \<and> b = m mod 256" for m using assms(2) div_mult_mod_eq [of m 256] by auto
  then have "a * 256 + b = 43518 \<longleftrightarrow> a = 169 \<and> b = 254" "a * 256 + b = 49320 \<longleftrightarrow> a = 192 \<and> b = 168" by simp_all
  moreover have "a * 16 + q = 2753 \<longleftrightarrow> a = 172 \<and> q = 1" if "q < 16" for q using that by presburger
  then have "a * 16 + b div 16 = 2753 \<longleftrightarrow> a = 172 \<and> b div 16 = 1" using b by blast
  moreover have "a * 4 + q = 401 \<longleftrightarrow> a = 100 \<and> q = 1" if "q < 4" for q using that by presburger
  then have "a * 4 + b div 64 = 401 \<longleftrightarrow> a = 100 \<and> b div 64 = 1" using b by blast
  moreover have "b div 16 = 1 \<longleftrightarrow> 16 \<le> b \<and> b < 32" "b div 64 = 1 \<longleftrightarrow> 64 \<le> b \<and> b < 128"
    by (auto simp: div_nat_eqI)
  ultimately show ?thesis unfolding blocks private_iff_octets by blast
qed

text \<open>
  On the text of an IPv4 address, the regular expressions of the guard accept exactly the addresses of
  the private, loopback, link-local, unspecified and carrier-grade NAT blocks, read as 32-bit words.
\<close>

theorem private_ipv4_is_blocks:
  assumes "a < 256" and "b < 256" and "c < 256" and "d < 256"
  shows "isPrivateIPv4 (ip4_text a b c d) \<longleftrightarrow> (\<exists>net \<in> set private_blocks. in_block net (ip4_word a b c d))"
  using private_blocks_iff [OF assms] by simp

lemma private_ipv4_is_blocks_witness:
  "isPrivateIPv4 (ip4_text 172 31 255 255) \<and> \<not> isPrivateIPv4 (ip4_text 172 32 0 0) \<and>
   (\<exists>net \<in> set private_blocks. in_block net (ip4_word 172 31 255 255))"
  using private_ipv4_is_blocks [of 172 31 255 255] private_ipv4_is_blocks [of 172 32 0 0] by (simp add: private_iff_octets)


definition ex_parse :: "string \<Rightarrow> parsed_url option" where
  "ex_parse s = Some \<lparr>url_protocol = ''https:'', url_hostname = ''example.com''\<rparr>"

definition ex_lookup :: "string \<Rightarrow> (nat \<times> string) list option" where
  "ex_lookup h = Some [(4, ''93.184.216.34'')]"


end
