(* ===== verification/Obl_Json.thy ===== *)
theory Obl_Json
  imports Obl_Prelude
begin

text \<open>
  JSON values as the server handles them after parsing: an object is the list of its own entries, with
  distinct keys. \<open>own_copy\<close> is the loop \<open>out[key] = value\<close> over \<open>Object.entries\<close> into a fresh object:
  an assignment to \<^verbatim>\<open>__proto__\<close> never creates an own entry. \<open>includes_str\<close> is \<open>String.includes\<close>, and \<open>room\<close>
  lists the socket.io rooms the services emit to.
\<close>

datatype json = JNull | JBool bool | JNum rat | JStr string | JArr "json list" | JObj "(string \<times> json) list"

type_synonym json_obj = "(string \<times> json) list"

definition own_copy :: "(string \<times> json \<Rightarrow> bool) \<Rightarrow> json_obj \<Rightarrow> json_obj" where
  "own_copy keep es = filter (\<lambda>e. fst e \<noteq> ''__proto__'' \<and> keep e) es"

text \<open>Columns as JSON values; a date is its number of milliseconds.\<close>

definition js_str :: "string option \<Rightarrow> json" where
  "js_str v = (case v of None \<Rightarrow> JNull | Some s \<Rightarrow> JStr s)"

definition js_nat :: "nat option \<Rightarrow> json" where
  "js_nat v = (case v of None \<Rightarrow> JNull | Some n \<Rightarrow> JNum (of_nat n))"

definition js_int :: "int option \<Rightarrow> json" where
  "js_int v = (case v of None \<Rightarrow> JNull | Some n \<Rightarrow> JNum (of_int n))"

definition js_date :: "int option \<Rightarrow> json" where
  "js_date v = js_int v"

text \<open>The spread \<open>{...o, k: v}\<close>: an existing key keeps its place and gets the new value.\<close>

fun obj_put :: "string \<Rightarrow> json \<Rightarrow> json_obj \<Rightarrow> json_obj" where
  "obj_put k v [] = [(k, v)]"
| "obj_put k v ((k', v') # es) = (if k' = k then (k, v) # es else (k', v') # obj_put k v es)"

lemma set_own_copy: "set (own_copy keep es) = {e \<in> set es. fst e \<noteq> ''__proto__'' \<and> keep e}"
  by (auto simp: own_copy_def)

lemma map_of_obj_put: "map_of (obj_put k v es) = (map_of es)(k \<mapsto> v)"
  by (induction es) (auto simp: fun_eq_iff)

lemma map_of_own_copy:
  assumes "\<And>e. keep e = keepk (fst e)"
  shows "map_of (own_copy keep es) k = (if k \<noteq> ''__proto__'' \<and> keepk k then map_of es k else None)"
  using assms by (induction es) (auto simp: own_copy_def)

fun includes_str :: "string \<Rightarrow> string \<Rightarrow> bool" where
  "includes_str [] pat \<longleftrightarrow> pat = []"
| "includes_str (c # cs) pat \<longleftrightarrow> starts_with pat (c # cs) \<or> includes_str cs pat"

lemma includes_str_iff: "includes_str s pat \<longleftrightarrow> sublist pat s"
proof (induction s)
  case Nil
  then show ?case by simp
next
  case (Cons c cs)
  then show ?case by (auto simp: starts_with_prefix sublist_Cons_right)
qed

datatype room = RTenant nat | RTenantAdmin nat | RTenantNotifications nat | RUser nat

end
