(* ===== verification/Remote_Security.thy ===== *)
theory Remote_Security
  imports Obl_Json
begin

text \<open>
  The pure helpers that keep the secrets of a remote session with their owner
  (\<^verbatim>\<open>server/src/services/remoteSessionSecurity.ts\<close>): redaction of command payloads, the public copy of a session,
  the socket events of a session, and the two admission tests of the relay. A session is the record of
  \<^verbatim>\<open>shared/src/types.ts\<close>; \<open>session_entries\<close> is its \<open>Object.entries\<close>. \<open>JSON.parse\<close> on a legacy text column is
  the argument \<open>parse\<close>. The functions on live sockets (\<open>rejectUpgrade\<close>, \<open>loadUpgradeSession\<close>) are not modelled.
\<close>

section \<open>Redaction\<close>

definition secret_keys :: "string list" where
  "secret_keys = [''sessionToken'', ''session_token'', ''serverWsUrl'', ''viewerToken'', ''unlockToken'']"

definition command_secret_keys :: "string list" where
  "command_secret_keys = [''sessionToken'', ''serverWsUrl'', ''unlockToken'', ''apiKey'', ''viewerToken'']"

definition redact_object :: "json_obj \<Rightarrow> json" where
  "redact_object es = JObj (own_copy (\<lambda>e. fst e \<notin> set command_secret_keys) es)"

fun redactCommandPayload :: "(string \<Rightarrow> json option) \<Rightarrow> json \<Rightarrow> json" where
  "redactCommandPayload parse (JStr s) =
     (case parse s of Some (JObj es) \<Rightarrow> redact_object es | _ \<Rightarrow> JStr s)"
| "redactCommandPayload parse (JObj es) = redact_object es"
| "redactCommandPayload parse JNull = JObj []"
| "redactCommandPayload parse v = v"

record remote_session =
  rs_id :: string
  rs_device :: nat
  rs_tenant :: "nat option"
  rs_protocol :: string
  rs_status :: string
  rs_token :: "string option"
  rs_started_by :: "nat option"
  rs_started_at :: int
  rs_connected_at :: "int option"
  rs_ended_at :: "int option"
  rs_duration :: "nat option"
  rs_end_reason :: "string option"
  rs_notes :: "string option"
  rs_created_at :: int

definition session_entries :: "remote_session \<Rightarrow> json_obj" where
  "session_entries s =
     [(''id'', JStr (rs_id s)), (''deviceId'', js_nat (Some (rs_device s))), (''tenantId'', js_nat (rs_tenant s)),
      (''protocol'', JStr (rs_protocol s)), (''status'', JStr (rs_status s)), (''sessionToken'', js_str (rs_token s)),
      (''startedBy'', js_nat (rs_started_by s)), (''startedAt'', js_date (Some (rs_started_at s))),
      (''connectedAt'', js_date (rs_connected_at s)), (''endedAt'', js_date (rs_ended_at s)),
      (''durationSeconds'', js_nat (rs_duration s)), (''endReason'', js_str (rs_end_reason s)),
      (''notes'', js_str (rs_notes s)), (''createdAt'', js_date (Some (rs_created_at s)))]"

text \<open>\<open>embeds tok v\<close>: the value is a string that contains the (non-empty) token.\<close>

definition embeds :: "string option \<Rightarrow> json \<Rightarrow> bool" where
  "embeds tok v \<longleftrightarrow> (case tok of None \<Rightarrow> False
     | Some t \<Rightarrow> t \<noteq> [] \<and> (case v of JStr s \<Rightarrow> includes_str s t | _ \<Rightarrow> False))"

definition toPublicRemoteSession :: "string option \<Rightarrow> json_obj \<Rightarrow> json_obj" where
  "toPublicRemoteSession tok es =
     own_copy (\<lambda>(k, v). k \<notin> set secret_keys \<and> \<not> embeds tok v) es"

section \<open>Socket events\<close>

text \<open>One \<open>emit\<close>: the room, the rooms left out, the event and its payload.\<close>

record emission =
  em_room :: room
  em_except :: "room list"
  em_event :: string
  em_payload :: json_obj

definition emitRemoteSessionEvent :: "string \<Rightarrow> remote_session \<Rightarrow> emission list" where
  "emitRemoteSessionEvent event s =
     (let full = session_entries s; pub = toPublicRemoteSession (rs_token s) full in
      case rs_started_by s of
        Some u \<Rightarrow>
          \<lparr>em_room = RUser u, em_except = [], em_event = event, em_payload = full\<rparr> #
          (case rs_tenant s of
             Some t \<Rightarrow> [\<lparr>em_room = RTenant t, em_except = [RUser u], em_event = event, em_payload = pub\<rparr>]
           | None \<Rightarrow> [])
      | None \<Rightarrow>
          (case rs_tenant s of
             Some t \<Rightarrow> [\<lparr>em_room = RTenant t, em_except = [], em_event = event, em_payload = pub\<rparr>]
           | None \<Rightarrow> []))"

text \<open>What a socket that joined \<open>rooms\<close> receives, as socket.io delivers it.\<close>

definition received :: "room set \<Rightarrow> emission list \<Rightarrow> emission list" where
  "received rooms ems = filter (\<lambda>e. em_room e \<in> rooms \<and> (\<forall>r \<in> set (em_except e). r \<notin> rooms)) ems"

section \<open>Admission to the relay\<close>

definition open_remote_session_statuses :: "string list" where
  "open_remote_session_statuses = [''waiting'', ''connecting'', ''active'']"

definition agent_attachable_statuses :: "string list" where
  "agent_attachable_statuses = [''waiting'', ''connecting'']"

record tunnel_row =
  tr_id :: string
  tr_started_by :: "nat option"
  tr_status :: string

datatype tunnel_verdict =
  Admit string nat
| Refuse nat string "string option" "nat option"

definition evaluateBrowserTunnelAccess :: "nat option \<Rightarrow> bool \<Rightarrow> tunnel_row option \<Rightarrow> tunnel_verdict" where
  "evaluateBrowserTunnelAccess userId userActive row =
     (if \<not> truthy_id userId then Refuse 4003 ''Authentication required'' None None
      else case row of
        None \<Rightarrow> Refuse 4004 ''Session not found'' None userId
      | Some r \<Rightarrow>
          if tr_started_by r = None \<or> tr_started_by r \<noteq> userId
          then Refuse 4003 ''Not the session owner'' (Some (tr_id r)) userId
          else if \<not> userActive then Refuse 4003 ''User inactive'' (Some (tr_id r)) userId
          else if tr_status r \<notin> set open_remote_session_statuses
          then Refuse 4004 ''Session already closed'' (Some (tr_id r)) userId
          else Admit (tr_id r) (the userId))"

fun browserVerdictHttpStatus :: "tunnel_verdict \<Rightarrow> nat option" where
  "browserVerdictHttpStatus (Refuse code reason _ _) =
     Some (if code = 4003 then (if reason = ''Authentication required'' then 401 else 403)
           else if code = 4004 then 404 else 500)"
| "browserVerdictHttpStatus (Admit _ _) = None"

record agent_key =
  agk_id :: nat
  agk_tenant :: nat
  agk_active :: "bool option"

record agent_session_row =
  as_id :: string
  as_status :: string
  as_device :: nat
  as_device_tenant :: "nat option"
  as_device_api_key :: "nat option"

definition agentKeyMayActForDevice :: "agent_key \<Rightarrow> nat \<Rightarrow> nat option \<Rightarrow> bool" where
  "agentKeyMayActForDevice key device_tenant device_key \<longleftrightarrow>
     (if agk_tenant key \<noteq> device_tenant then False
      else if device_key \<noteq> None \<and> device_key \<noteq> Some (agk_id key) then False
      else True)"

datatype agent_verdict = AgentAdmit string nat | AgentRefuse nat string

definition evaluateAgentTunnelAccess :: "agent_key option \<Rightarrow> agent_session_row option \<Rightarrow> bool \<Rightarrow> agent_verdict" where
  "evaluateAgentTunnelAccess key row hasLiveAgent =
     (case key of
        None \<Rightarrow> AgentRefuse 401 ''Invalid API key''
      | Some k \<Rightarrow>
          if agk_active k = Some False then AgentRefuse 401 ''Invalid API key''
          else case row of
            None \<Rightarrow> AgentRefuse 404 ''Session not found''
          | Some r \<Rightarrow>
              (case as_device_tenant r of
                 None \<Rightarrow> AgentRefuse 404 ''Session not found''
               | Some dt \<Rightarrow>
                   if \<not> agentKeyMayActForDevice k dt (as_device_api_key r)
                   then AgentRefuse 403 ''Device/API-key mismatch''
                   else if as_status r \<notin> set agent_attachable_statuses then AgentRefuse 404 ''Session not open''
                   else if hasLiveAgent then AgentRefuse 409 ''Agent already attached''
                   else AgentAdmit (as_id r) (as_device r)))"

section \<open>UUIDs\<close>

definition is_hex :: "char \<Rightarrow> bool" where
  "is_hex c \<longleftrightarrow> is_digit c \<or> lower_char c \<in> set ''abcdef''"

definition isUuid :: "string \<Rightarrow> bool" where
  "isUuid s \<longleftrightarrow> map length (split_on CHR ''-'' s) = [8, 4, 4, 4, 12] \<and>
     (\<forall>part \<in> set (split_on CHR ''-'' s). \<forall>c \<in> set part. is_hex c)"

section \<open>Properties\<close>

lemma redact_object_keys:
  "redact_object es = JObj fs \<Longrightarrow>
   map_of fs k = (if k \<in> set command_secret_keys \<or> k = ''__proto__'' then None else map_of es k)"
  using map_of_own_copy [of "\<lambda>e. fst e \<notin> set command_secret_keys" "\<lambda>k. k \<notin> set command_secret_keys" es k]
  by (auto simp: redact_object_def)

text \<open>
  What users see of a command never carries an agent-only secret: when the payload, stored as an object or
  as its text, is an object, the view has every other field unchanged and none of the relay token, relay
  URL, unlock token, viewer token or API key.
\<close>

theorem command_secrets_redacted:
  assumes "payload = JObj es \<or> (\<exists>s. payload = JStr s \<and> parse s = Some (JObj es))"
  shows "\<exists>fs. redactCommandPayload parse payload = JObj fs \<and>
    (\<forall>k. map_of fs k = (if k \<in> set command_secret_keys \<or> k = ''__proto__'' then None else map_of es k))"
proof -
  have "redactCommandPayload parse payload = redact_object es"
    using assms by auto
  moreover obtain fs where "redact_object es = JObj fs"
    by (simp add: redact_object_def)
  ultimately show ?thesis
    using redact_object_keys by metis
qed

theorem command_secrets_redacted_witness:
  "\<exists>fs. redactCommandPayload (\<lambda>_. None) (JObj [(''unlockToken'', JStr ''t''), (''path'', JStr ''/tmp'')]) = JObj fs \<and>
     map_of fs ''unlockToken'' = None \<and> map_of fs ''path'' = Some (JStr ''/tmp'')"
  using command_secrets_redacted
    [of "JObj [(''unlockToken'', JStr ''t''), (''path'', JStr ''/tmp'')]"
        "[(''unlockToken'', JStr ''t''), (''path'', JStr ''/tmp'')]" "\<lambda>_. None"]
  by (auto simp: command_secret_keys_def)

lemma public_copy_clean:
  "(k, v) \<in> set (toPublicRemoteSession tok es) \<Longrightarrow> k \<notin> set secret_keys \<and> \<not> embeds tok v"
  by (auto simp: toPublicRemoteSession_def set_own_copy)

lemma emissions_cases:
  assumes "e \<in> set (emitRemoteSessionEvent ev s)"
  shows "(\<exists>u. rs_started_by s = Some u \<and> em_room e = RUser u \<and> em_payload e = session_entries s) \<or>
    (\<exists>t. rs_tenant s = Some t \<and> em_room e = RTenant t \<and> em_except e = map RUser (case rs_started_by s of None \<Rightarrow> [] | Some u \<Rightarrow> [u]) \<and>
         em_payload e = toPublicRemoteSession (rs_token s) (session_entries s))"
  using assms by (auto simp: emitRemoteSessionEvent_def Let_def split: option.splits)

lemma token_parts:
  assumes "rs_token s = Some tok" and "tok \<noteq> []"
  shows "(\<forall>u. rs_started_by s = Some u \<longrightarrow> RUser u \<notin> rooms) \<Longrightarrow>
      e \<in> set (received rooms (emitRemoteSessionEvent ev s)) \<Longrightarrow> (k, v) \<in> set (em_payload e) \<Longrightarrow> \<not> embeds (Some tok) v"
    and "rs_started_by s = Some u \<Longrightarrow> RUser u \<in> rooms \<Longrightarrow>
      map em_payload (received rooms (emitRemoteSessionEvent ev s)) = [session_entries s]"
proof -
  assume away: "\<forall>u. rs_started_by s = Some u \<longrightarrow> RUser u \<notin> rooms"
    and e: "e \<in> set (received rooms (emitRemoteSessionEvent ev s))" and kv: "(k, v) \<in> set (em_payload e)"
  from e have "e \<in> set (emitRemoteSessionEvent ev s)" "em_room e \<in> rooms"
    by (auto simp: received_def)
  with away have "em_payload e = toPublicRemoteSession (Some tok) (session_entries s)"
    using emissions_cases [of e ev s] assms(1) by auto
  with kv show "\<not> embeds (Some tok) v"
    using public_copy_clean by metis
next
  assume "rs_started_by s = Some u" "RUser u \<in> rooms"
  then show "map em_payload (received rooms (emitRemoteSessionEvent ev s)) = [session_entries s]"
    by (auto simp: received_def emitRemoteSessionEvent_def Let_def split: option.splits)
qed

text \<open>
  C38. The relay token of a session reaches its starter only: a socket that has not joined the starter's room
  never receives a field that contains the token, and a socket of the starter receives the full session
  exactly once, even when it also joined the tenant's room.
\<close>

theorem token_reaches_starter_only:
  assumes "rs_token s = Some tok" and "tok \<noteq> []"
  shows "((\<forall>u. rs_started_by s = Some u \<longrightarrow> RUser u \<notin> rooms) \<longrightarrow>
      (\<forall>e \<in> set (received rooms (emitRemoteSessionEvent ev s)). \<forall>(k, v) \<in> set (em_payload e). \<forall>t. v = JStr t \<longrightarrow> \<not> includes_str t tok)) \<and>
    (\<forall>u. rs_started_by s = Some u \<longrightarrow> RUser u \<in> rooms \<longrightarrow>
      map em_payload (received rooms (emitRemoteSessionEvent ev s)) = [session_entries s])"
proof -
  have e: "embeds (Some tok) v \<longleftrightarrow> (\<exists>t. v = JStr t \<and> includes_str t tok)" for v
    using assms(2) by (auto simp: embeds_def split: json.splits)
  have "((\<forall>u. rs_started_by s = Some u \<longrightarrow> RUser u \<notin> rooms) \<longrightarrow>
      (\<forall>e \<in> set (received rooms (emitRemoteSessionEvent ev s)). \<forall>(k, v) \<in> set (em_payload e). \<not> embeds (Some tok) v)) \<and>
    (\<forall>u. rs_started_by s = Some u \<longrightarrow> RUser u \<in> rooms \<longrightarrow>
      map em_payload (received rooms (emitRemoteSessionEvent ev s)) = [session_entries s])"
    by (intro conjI impI ballI allI) (use token_parts [OF assms] in auto)
  then show ?thesis unfolding e by simp
qed

definition ex_session :: remote_session where
  "ex_session = \<lparr>rs_id = ''s1'', rs_device = 4, rs_tenant = Some 2, rs_protocol = ''ssh'', rs_status = ''waiting'',
     rs_token = Some ''c0ffee'', rs_started_by = Some 7, rs_started_at = 0, rs_connected_at = None,
     rs_ended_at = None, rs_duration = None, rs_end_reason = None, rs_notes = Some ''wss://x/c0ffee'', rs_created_at = 0\<rparr>"

theorem token_reaches_starter_only_witness:
  "list_all (\<lambda>e. list_all (\<lambda>(k, v). case v of JStr t \<Rightarrow> \<not> includes_str t ''c0ffee'' | _ \<Rightarrow> True) (em_payload e))
     (received {RTenant 2, RUser 8} (emitRemoteSessionEvent ''REMOTE_TUNNEL_READY'' ex_session)) \<and>
   received {RTenant 2, RUser 8} (emitRemoteSessionEvent ''REMOTE_TUNNEL_READY'' ex_session) \<noteq> [] \<and>
   map em_payload (received {RTenant 2, RUser 7} (emitRemoteSessionEvent ''REMOTE_TUNNEL_READY'' ex_session)) = [session_entries ex_session]"
proof (intro conjI)
  have s: "rs_token ex_session = Some ''c0ffee''" "rs_started_by ex_session = Some 7"
    by (simp_all add: ex_session_def)
  show "list_all (\<lambda>e. list_all (\<lambda>(k, v). case v of JStr t \<Rightarrow> \<not> includes_str t ''c0ffee'' | _ \<Rightarrow> True) (em_payload e))
     (received {RTenant 2, RUser 8} (emitRemoteSessionEvent ''REMOTE_TUNNEL_READY'' ex_session))"
    using token_reaches_starter_only [of ex_session "''c0ffee''" "{RTenant 2, RUser 8}" "''REMOTE_TUNNEL_READY''"] s
    unfolding list_all_iff by (fastforce split: json.splits)
  show "received {RTenant 2, RUser 8} (emitRemoteSessionEvent ''REMOTE_TUNNEL_READY'' ex_session) \<noteq> []"
    by (simp add: received_def emitRemoteSessionEvent_def ex_session_def Let_def)
  show "map em_payload (received {RTenant 2, RUser 7} (emitRemoteSessionEvent ''REMOTE_TUNNEL_READY'' ex_session)) = [session_entries ex_session]"
    using token_reaches_starter_only [of ex_session "''c0ffee''"] s by simp
qed

text \<open>
  Admission is exact on both ends of the relay. A browser attaches only as an authenticated, active user
  who started the session while it is open, and a caller without a session always gets the same answer,
  whatever the token names. An agent attaches only with an active key of the device's tenant, the one the
  device is bound to if any, to a session still waiting for its agent and with no agent attached.
\<close>

theorem relay_admission_exact:
  "(evaluateBrowserTunnelAccess userId act row = Admit sid u \<longleftrightarrow>
     userId = Some u \<and> u \<noteq> 0 \<and> act \<and>
     (\<exists>r. row = Some r \<and> tr_id r = sid \<and> tr_started_by r = Some u \<and> tr_status r \<in> {''waiting'', ''connecting'', ''active''})) \<and>
   (\<not> truthy_id userId \<or>
     browserVerdictHttpStatus (evaluateBrowserTunnelAccess userId act row) \<noteq> Some 401) \<and>
   (truthy_id userId \<or>
     evaluateBrowserTunnelAccess userId act row = evaluateBrowserTunnelAccess None False None) \<and>
   (evaluateAgentTunnelAccess key arow live = AgentAdmit sid d \<longleftrightarrow>
     \<not> live \<and> (\<exists>k r. key = Some k \<and> agk_active k \<noteq> Some False \<and> arow = Some r \<and> as_id r = sid \<and> as_device r = d \<and>
       as_device_tenant r = Some (agk_tenant k) \<and> as_device_api_key r \<in> {None, Some (agk_id k)} \<and>
       as_status r \<in> {''waiting'', ''connecting''}))"
proof (intro conjI)
  show "evaluateBrowserTunnelAccess userId act row = Admit sid u \<longleftrightarrow>
     userId = Some u \<and> u \<noteq> 0 \<and> act \<and>
     (\<exists>r. row = Some r \<and> tr_id r = sid \<and> tr_started_by r = Some u \<and> tr_status r \<in> {''waiting'', ''connecting'', ''active''})"
    by (cases userId; cases row) (auto simp: evaluateBrowserTunnelAccess_def open_remote_session_statuses_def)
  show "\<not> truthy_id userId \<or> browserVerdictHttpStatus (evaluateBrowserTunnelAccess userId act row) \<noteq> Some 401"
    by (cases row) (auto simp: evaluateBrowserTunnelAccess_def)
  show "truthy_id userId \<or> evaluateBrowserTunnelAccess userId act row = evaluateBrowserTunnelAccess None False None"
    by (simp add: evaluateBrowserTunnelAccess_def)
  show "evaluateAgentTunnelAccess key arow live = AgentAdmit sid d \<longleftrightarrow>
     \<not> live \<and> (\<exists>k r. key = Some k \<and> agk_active k \<noteq> Some False \<and> arow = Some r \<and> as_id r = sid \<and> as_device r = d \<and>
       as_device_tenant r = Some (agk_tenant k) \<and> as_device_api_key r \<in> {None, Some (agk_id k)} \<and>
       as_status r \<in> {''waiting'', ''connecting''})"
    by (cases key; cases arow)
      (auto simp: evaluateAgentTunnelAccess_def agentKeyMayActForDevice_def agent_attachable_statuses_def split: option.splits if_splits)
qed

theorem relay_admission_exact_witness:
  "evaluateBrowserTunnelAccess (Some 7) True (Some \<lparr>tr_id = ''s1'', tr_started_by = Some 7, tr_status = ''waiting''\<rparr>) = Admit ''s1'' 7"
  using relay_admission_exact [of "Some 7" True "Some \<lparr>tr_id = ''s1'', tr_started_by = Some 7, tr_status = ''waiting''\<rparr>" "''s1''" 7]
  by simp

end
