(* ===== verification/Command_Queue.thy ===== *)
theory Command_Queue
  imports Grants Remote_Security
begin

text \<open>
  The command queue (\<^verbatim>\<open>server/src/services/command.service.ts\<close>): enqueueing with the privacy unlock token, the
  acknowledgements of the agents, cancellation and the expiry job. The state extends \<open>org\<close> with the queue, the
  unlock sessions, the remote sessions, the per-device updates and the socket events emitted so far.
  \<open>gen_random_uuid()\<close> is the stream \<open>uuid_pool\<close>, of which \<open>next_uuid\<close> values are used; \<open>command_types\<close> are the
  labels of the database enum. An insert is refused (\<open>None\<close>) for an unknown device or type or a taken id.
\<close>

section \<open>State\<close>

record command_row =
  cq_id :: string
  cq_device :: nat
  cq_tenant :: nat
  cq_type :: string
  cq_payload :: json_obj
  cq_status :: string
  cq_priority :: string
  cq_sent :: "int option"
  cq_acked :: "int option"
  cq_finished :: "int option"
  cq_expires :: "int option"
  cq_result :: json_obj
  cq_retry_count :: nat
  cq_max_retries :: nat
  cq_source_type :: "string option"
  cq_source_id :: "string option"
  cq_created_by :: "nat option"
  cq_created :: int
  cq_updated :: int

record device_update_row =
  du_device :: nat
  du_uid :: string
  du_status :: string
  du_installed_at :: "int option"
  du_error :: "json option"

record cq_db = org +
  gate :: gate_store
  uuid_pool :: "nat \<Rightarrow> string"
  next_uuid :: nat
  command_types :: "string list"
  command_queue :: "command_row list"
  remote_sessions :: "remote_session list"
  device_updates :: "device_update_row list"
  emitted :: "emission list"

definition emit :: "room \<Rightarrow> string \<Rightarrow> json_obj \<Rightarrow> 'a cq_db_scheme \<Rightarrow> 'a cq_db_scheme" where
  "emit r ev payload w =
     w\<lparr>emitted := emitted w @ [\<lparr>em_room = r, em_except = [], em_event = ev, em_payload = payload\<rparr>]\<rparr>"

definition insert_command :: "command_row \<Rightarrow> 'a cq_db_scheme \<Rightarrow> 'a cq_db_scheme option" where
  "insert_command r w =
     (if device_by_id w (cq_device r) = None \<or> cq_type r \<notin> set (command_types w) \<or> cq_id r \<in> cq_id ` set (command_queue w)
      then None else Some (w\<lparr>command_queue := command_queue w @ [r]\<rparr>))"

section \<open>Operations\<close>

definition rowToCommand :: "command_row \<Rightarrow> json_obj" where
  "rowToCommand r =
     (let durationMs =
        (case map_of (cq_result r) ''duration'' of
           Some v \<Rightarrow> if v \<noteq> JNull then v else
             (case (cq_sent r, cq_finished r) of (Some s, Some f) \<Rightarrow> js_int (Some (f - s)) | _ \<Rightarrow> JNull)
         | None \<Rightarrow> (case (cq_sent r, cq_finished r) of (Some s, Some f) \<Rightarrow> js_int (Some (f - s)) | _ \<Rightarrow> JNull))
      in [(''id'', JStr (cq_id r)), (''deviceId'', js_nat (Some (cq_device r))), (''tenantId'', js_nat (Some (cq_tenant r))),
          (''type'', JStr (cq_type r)), (''payload'', redactCommandPayload (\<lambda>_. None) (JObj (cq_payload r))),
          (''status'', JStr (cq_status r)), (''priority'', JStr (cq_priority r)), (''sentAt'', js_date (cq_sent r)),
          (''ackedAt'', js_date (cq_acked r)), (''finishedAt'', js_date (cq_finished r)), (''expiresAt'', js_date (cq_expires r)),
          (''result'', JObj (cq_result r)), (''retryCount'', js_nat (Some (cq_retry_count r))),
          (''maxRetries'', js_nat (Some (cq_max_retries r))), (''sourceType'', js_str (cq_source_type r)),
          (''sourceId'', js_str (cq_source_id r)), (''createdBy'', js_nat (cq_created_by r)), (''createdByName'', JNull),
          (''createdAt'', js_date (Some (cq_created r))), (''updatedAt'', js_date (Some (cq_updated r))), (''durationMs'', durationMs)])"

record enqueue_args =
  ea_device :: nat
  ea_tenant :: nat
  ea_type :: string
  ea_payload :: json_obj
  ea_priority :: "string option"
  ea_max_retries :: nat
  ea_expires_in :: "int option"
  ea_source_type :: "string option"
  ea_source_id :: "string option"
  ea_created_by :: "nat option"

text \<open>The payload with the caller's unlock token, and the unlock store after the look-up.\<close>

definition inject_unlock :: "enqueue_args \<Rightarrow> 'a cq_db_scheme \<Rightarrow> gate_store \<times> json_obj" where
  "inject_unlock a w =
     (if truthy_id (ea_created_by a) \<and> isBlockedByPrivacy (ea_type a)
      then (case gateGet (now_ms w) (gate w) (the (ea_created_by a)) (ea_device a) (featureForCommand (ea_type a)) of
              (g, Some tok) \<Rightarrow> (g, if tok = [] then ea_payload a else obj_put ''unlockToken'' (JStr tok) (ea_payload a))
            | (g, None) \<Rightarrow> (g, ea_payload a))
      else (gate w, ea_payload a))"

definition enqueue :: "enqueue_args \<Rightarrow> 'a cq_db_scheme \<Rightarrow> 'a cq_db_scheme \<times> json_obj option" where
  "enqueue a w =
     (let now = now_ms w;
          expiresAt = (case ea_expires_in a of None \<Rightarrow> None | Some s \<Rightarrow> if s = 0 then None else Some (now + s * 1000));
          (g, payload) = inject_unlock a w;
          w1 = w\<lparr>gate := g, next_uuid := next_uuid w + 1\<rparr>;
          row = \<lparr>cq_id = uuid_pool w (next_uuid w), cq_device = ea_device a, cq_tenant = ea_tenant a, cq_type = ea_type a,
                 cq_payload = payload, cq_status = ''pending'',
                 cq_priority = (case ea_priority a of None \<Rightarrow> ''normal'' | Some p \<Rightarrow> if p = [] then ''normal'' else p),
                 cq_sent = None, cq_acked = None, cq_finished = None, cq_expires = expiresAt, cq_result = [],
                 cq_retry_count = 0, cq_max_retries = ea_max_retries a, cq_source_type = ea_source_type a,
                 cq_source_id = ea_source_id a, cq_created_by = ea_created_by a, cq_created = now, cq_updated = now\<rparr>
      in case insert_command row w1 of
           None \<Rightarrow> (w1, None)
         | Some w2 \<Rightarrow> (emit (RTenantAdmin (ea_tenant a)) ''COMMAND_UPDATED'' (rowToCommand row) w2, Some (rowToCommand row)))"

record command_ack =
  ack_command :: string
  ack_status :: string
  ack_result :: "json_obj option"
  ack_type :: "string option"

definition is_terminal :: "command_ack \<Rightarrow> bool" where
  "is_terminal a \<longleftrightarrow> ack_status a \<in> set [''success'', ''failure'', ''timeout'']"

definition noisy_ephemeral :: "string list" where
  "noisy_ephemeral = [''hyperv_list_vms'', ''hyperv_console_thumbnail'', ''veeam_list_jobs'']"

definition ack_result_obj :: "command_ack \<Rightarrow> json_obj" where
  "ack_result_obj a = (case ack_result a of None \<Rightarrow> [] | Some r \<Rightarrow> r)"

text \<open>The \<open>UPDATE\<close> of the acknowledged command of this device.\<close>

definition ack_update :: "nat \<Rightarrow> command_ack \<Rightarrow> 'a cq_db_scheme \<Rightarrow> 'a cq_db_scheme \<times> nat" where
  "ack_update d a w =
     (let hit = (\<lambda>r. cq_id r = ack_command a \<and> cq_device r = d)
      in (w\<lparr>command_queue := tbl_update hit
              (\<lambda>r. r\<lparr>cq_status := ack_status a, cq_acked := Some (now_ms w), cq_updated := now_ms w, cq_result := ack_result_obj a,
                     cq_finished := (if is_terminal a then Some (now_ms w) else cq_finished r)\<rparr>) (command_queue w)\<rparr>,
          length (filter hit (command_queue w))))"

text \<open>A terminal acknowledgement of a command the server never queued is recorded in the history.\<close>

definition ack_insert :: "nat \<Rightarrow> nat \<Rightarrow> command_ack \<Rightarrow> 'a cq_db_scheme \<Rightarrow> 'a cq_db_scheme" where
  "ack_insert d t a w =
     (case ack_type a of
        None \<Rightarrow> w
      | Some ty \<Rightarrow>
          if is_terminal a \<and> ty \<noteq> [] \<and> ty \<notin> set noisy_ephemeral
          then (case insert_command
                  \<lparr>cq_id = ack_command a, cq_device = d, cq_tenant = t, cq_type = ty, cq_payload = ack_result_obj a,
                   cq_status = ack_status a, cq_priority = ''normal'', cq_sent = Some (now_ms w), cq_acked = Some (now_ms w),
                   cq_finished = Some (now_ms w), cq_expires = None, cq_result = ack_result_obj a, cq_retry_count = 0,
                   cq_max_retries = 0, cq_source_type = None, cq_source_id = None, cq_created_by = None,
                   cq_created = now_ms w, cq_updated = now_ms w\<rparr> w of
                  None \<Rightarrow> w | Some w' \<Rightarrow> w')
          else w)"

definition ack_emit :: "nat \<Rightarrow> command_ack \<Rightarrow> command_row option \<Rightarrow> 'a cq_db_scheme \<Rightarrow> 'a cq_db_scheme" where
  "ack_emit t a row w =
     (case row of
        None \<Rightarrow> w
      | Some r \<Rightarrow>
          if cq_source_type r = Some ''disk_health_probe'' then w
          else let w1 = emit (RTenant t) ''COMMAND_UPDATED'' (rowToCommand r) w
               in if is_terminal a then emit (RTenant t) ''COMMAND_RESULT'' (rowToCommand r) w1 else w1)"

definition tunnel_hit :: "string \<Rightarrow> remote_session \<Rightarrow> bool" where
  "tunnel_hit tok s \<longleftrightarrow> rs_token s = Some tok \<and> rs_status s \<in> set [''waiting'', ''connecting'']"

definition ack_tunnel_failed :: "command_ack \<Rightarrow> command_row option \<Rightarrow> 'a cq_db_scheme \<Rightarrow> 'a cq_db_scheme" where
  "ack_tunnel_failed a row w =
     (case row of
        None \<Rightarrow> w
      | Some r \<Rightarrow>
          if ack_status a = ''failure'' \<and> cq_type r = ''open_remote_tunnel''
          then (case map_of (cq_payload r) ''sessionToken'' of
                  Some (JStr tok) \<Rightarrow>
                    if tok = [] then w
                    else let upd = (\<lambda>s. s\<lparr>rs_status := ''failed'', rs_ended_at := Some (now_ms w), rs_end_reason := Some ''command_failure''\<rparr>);
                             w1 = w\<lparr>remote_sessions := tbl_update (tunnel_hit tok) upd (remote_sessions w)\<rparr>
                         in (case find (tunnel_hit tok) (remote_sessions w) of
                               None \<Rightarrow> w1
                             | Some s \<Rightarrow> w1\<lparr>emitted := emitted w1 @ emitRemoteSessionEvent ''REMOTE_SESSION_UPDATED'' (upd s)\<rparr>)
                | _ \<Rightarrow> w)
          else w)"

text \<open>The updates a command installs, and their progress.\<close>

definition json_strings :: "json list \<Rightarrow> string list" where
  "json_strings js = concat (map (\<lambda>j. case j of JStr s \<Rightarrow> [s] | _ \<Rightarrow> []) js)"

definition update_uids :: "command_row \<Rightarrow> string list" where
  "update_uids r =
     (if cq_type r = ''install_updates''
      then (case map_of (cq_payload r) ''updateUids'' of Some (JArr js) \<Rightarrow> json_strings js | _ \<Rightarrow> [])
      else if cq_type r = ''install_update''
      then (case map_of (cq_payload r) ''updateUid'' of Some (JStr s) \<Rightarrow> if s = [] then [] else [s] | _ \<Rightarrow> [])
      else [])"

definition ack_updates :: "nat \<Rightarrow> command_ack \<Rightarrow> command_row option \<Rightarrow> 'a cq_db_scheme \<Rightarrow> 'a cq_db_scheme" where
  "ack_updates d a row w =
     (case row of
        None \<Rightarrow> w
      | Some r \<Rightarrow>
          let hit = (\<lambda>u. du_uid u \<in> set (update_uids r) \<and> du_device u = d)
          in if is_terminal a
             then w\<lparr>device_updates := tbl_update hit
                     (\<lambda>u. u\<lparr>du_status := (if ack_status a = ''success'' then ''installed'' else ''failed''),
                            du_installed_at := (if ack_status a = ''success'' then Some (now_ms w) else None),
                            du_error := (if ack_status a = ''success'' then None
                              else Some (case map_of (ack_result_obj a) ''error'' of
                                           None \<Rightarrow> JStr ''Installation failed''
                                         | Some v \<Rightarrow> if v = JNull then JStr ''Installation failed'' else v))\<rparr>) (device_updates w)\<rparr>
             else if ack_status a = ''ack_running''
             then w\<lparr>device_updates := tbl_update hit (\<lambda>u. u\<lparr>du_status := ''installing''\<rparr>) (device_updates w)\<rparr>
             else w)"

definition ack_probe_done :: "command_ack \<Rightarrow> command_row option \<Rightarrow> 'a cq_db_scheme \<Rightarrow> 'a cq_db_scheme" where
  "ack_probe_done a row w =
     (case row of
        None \<Rightarrow> w
      | Some r \<Rightarrow>
          if is_terminal a \<and> cq_source_type r = Some ''disk_health_probe''
          then w\<lparr>command_queue := tbl_delete (\<lambda>c. cq_id c = ack_command a) (command_queue w)\<rparr> else w)"

text \<open>
  One acknowledgement up to the point where the linked execution or scenario is told: the new state and the
  row the follow-up works on.
\<close>

definition processAck :: "nat \<Rightarrow> nat \<Rightarrow> command_ack \<Rightarrow> 'a cq_db_scheme \<Rightarrow> 'a cq_db_scheme \<times> command_row option" where
  "processAck d t a w =
     (if \<not> isUuid (ack_command a) then (w, None)
      else let (w1, affected) = ack_update d a w;
               w2 = (if affected = 0 then ack_insert d t a w1 else w1);
               row = find (\<lambda>r. cq_id r = ack_command a) (command_queue w2);
               w3 = ack_emit t a row w2;
               w4 = (if is_terminal a then ack_tunnel_failed a row w3 else w3);
               w5 = ack_updates d a row w4
           in (ack_probe_done a row w5, row))"

definition cancelCommand :: "string \<Rightarrow> nat \<Rightarrow> 'a cq_db_scheme \<Rightarrow> 'a cq_db_scheme" where
  "cancelCommand i t w =
     w\<lparr>command_queue := tbl_update (\<lambda>r. cq_id r = i \<and> cq_tenant r = t \<and> cq_status r = ''pending'')
        (\<lambda>r. r\<lparr>cq_status := ''cancelled'', cq_updated := now_ms w\<rparr>) (command_queue w)\<rparr>"

text \<open>The expiry job: the new state and the expired rows, which the scenario engine is told about.\<close>

definition command_expired :: "int \<Rightarrow> command_row \<Rightarrow> bool" where
  "command_expired now r \<longleftrightarrow> (case cq_expires r of None \<Rightarrow> False | Some e \<Rightarrow> e < now) \<and> cq_status r \<in> set [''pending'', ''sent'']"

definition expireCommands :: "'a cq_db_scheme \<Rightarrow> 'a cq_db_scheme \<times> command_row list" where
  "expireCommands w =
     (let upd = (\<lambda>r. r\<lparr>cq_status := ''timeout'', cq_finished := Some (now_ms w), cq_updated := now_ms w\<rparr>)
      in (w\<lparr>command_queue := tbl_update (command_expired (now_ms w)) upd (command_queue w)\<rparr>,
          map upd (filter (command_expired (now_ms w)) (command_queue w))))"

text \<open>The filters and the page of the command list.\<close>

definition getCommands :: "nat \<Rightarrow> nat option \<Rightarrow> string option \<Rightarrow> nat option \<Rightarrow> nat option \<Rightarrow> 'a cq_db_scheme \<Rightarrow> command_row list \<times> nat" where
  "getCommands t dev status page limit w =
     (let base = filter (\<lambda>r. cq_tenant r = t \<and> (truthy_id dev \<longrightarrow> Some (cq_device r) = dev) \<and>
                   (case status of None \<Rightarrow> True | Some s \<Rightarrow> s = [] \<or> cq_status r = s)) (command_queue w);
          lim = (case limit of None \<Rightarrow> 50 | Some l \<Rightarrow> l);
          pg = (case page of None \<Rightarrow> 1 | Some p \<Rightarrow> p);
          sorted_rows = sort_key (\<lambda>r. - cq_created r) base
      in (if lim > 0 then take lim (drop ((pg - 1) * lim) sorted_rows) else sorted_rows, length base))"

section \<open>Enqueueing\<close>

lemmas cq_defs = insert_command_def emit_def Let_def

lemma emit_simps [simp]:
  "command_queue (emit r ev p w) = command_queue w" "devices (emit r ev p w) = devices w"
  "now_ms (emit r ev p w) = now_ms w" "device_updates (emit r ev p w) = device_updates w"
  "remote_sessions (emit r ev p w) = remote_sessions w" "gate (emit r ev p w) = gate w"
  "command_types (emit r ev p w) = command_types w"
  "emitted (emit r ev p w) = emitted w @ [\<lparr>em_room = r, em_except = [], em_event = ev, em_payload = p\<rparr>]"
  by (simp_all add: emit_def)

lemma view_payload: "map_of (rowToCommand r) ''payload'' = Some (redact_object (cq_payload r))"
  by (simp add: rowToCommand_def Let_def)

text \<open>The token a command gets: that of an active unlock of its author for its device and feature.\<close>

definition unlock_for :: "enqueue_args \<Rightarrow> 'a cq_db_scheme \<Rightarrow> string option" where
  "unlock_for a w =
     (if truthy_id (ea_created_by a) \<and> isBlockedByPrivacy (ea_type a)
      then (case snd (gateGet (now_ms w) (gate w) (the (ea_created_by a)) (ea_device a) (featureForCommand (ea_type a))) of
              Some tok \<Rightarrow> if tok = [] then None else Some tok | None \<Rightarrow> None)
      else None)"

lemma inject_unlock_payload:
  "map_of (snd (inject_unlock a w)) =
     (case unlock_for a w of None \<Rightarrow> map_of (ea_payload a) | Some tok \<Rightarrow> (map_of (ea_payload a))(''unlockToken'' \<mapsto> JStr tok))"
  by (auto simp: inject_unlock_def unlock_for_def map_of_obj_put split: prod.splits option.splits)

lemma enqueue_parts:
  assumes "enqueue a w = (w', res)"
  shows "res = None \<longleftrightarrow> device_by_id w (ea_device a) = None \<or> ea_type a \<notin> set (command_types w) \<or>
      uuid_pool w (next_uuid w) \<in> cq_id ` set (command_queue w)"
    and "res = None \<Longrightarrow> command_queue w' = command_queue w \<and> emitted w' = emitted w"
    and "res = Some v \<Longrightarrow> \<exists>r. command_queue w' = command_queue w @ [r] \<and> cq_id r = uuid_pool w (next_uuid w) \<and>
      cq_status r = ''pending'' \<and> cq_device r = ea_device a \<and> cq_tenant r = ea_tenant a \<and> cq_type r = ea_type a \<and>
      cq_created_by r = ea_created_by a \<and>
      cq_expires r = (case ea_expires_in a of None \<Rightarrow> None | Some s \<Rightarrow> if s = 0 then None else Some (now_ms w + s * 1000)) \<and>
      map_of (cq_payload r) = (case unlock_for a w of None \<Rightarrow> map_of (ea_payload a)
                                | Some tok \<Rightarrow> (map_of (ea_payload a))(''unlockToken'' \<mapsto> JStr tok)) \<and>
      (\<exists>e fs. emitted w' = emitted w @ [e] \<and> em_room e = RTenantAdmin (ea_tenant a) \<and> em_payload e = v \<and>
         map_of v ''payload'' = Some (JObj fs) \<and>
         (\<forall>k. map_of fs k = (if k \<in> set command_secret_keys \<or> k = ''__proto__'' then None else map_of (cq_payload r) k)))"
proof -
  obtain g p where gp: "inject_unlock a w = (g, p)" by fastforce
  show "res = None \<longleftrightarrow> device_by_id w (ea_device a) = None \<or> ea_type a \<notin> set (command_types w) \<or>
      uuid_pool w (next_uuid w) \<in> cq_id ` set (command_queue w)"
    using assms by (auto simp: enqueue_def gp cq_defs device_by_id_def split: if_splits)
  show "res = None \<Longrightarrow> command_queue w' = command_queue w \<and> emitted w' = emitted w"
    using assms by (auto simp: enqueue_def gp cq_defs split: if_splits)
  assume "res = Some v"
  with assms obtain r where r: "v = rowToCommand r" "command_queue w' = command_queue w @ [r]"
    "emitted w' = emitted w @ [\<lparr>em_room = RTenantAdmin (ea_tenant a), em_except = [], em_event = ''COMMAND_UPDATED'', em_payload = v\<rparr>]"
    "cq_id r = uuid_pool w (next_uuid w)" "cq_status r = ''pending''" "cq_device r = ea_device a" "cq_tenant r = ea_tenant a"
    "cq_type r = ea_type a" "cq_created_by r = ea_created_by a" "cq_payload r = p"
    "cq_expires r = (case ea_expires_in a of None \<Rightarrow> None | Some s \<Rightarrow> if s = 0 then None else Some (now_ms w + s * 1000))"
    by (auto simp: enqueue_def gp cq_defs split: if_splits)
  obtain fs where fs: "redact_object (cq_payload r) = JObj fs" by (simp add: redact_object_def)
  have "map_of v ''payload'' = Some (JObj fs)" by (simp add: r(1) view_payload fs)
  moreover have "map_of (cq_payload r) = (case unlock_for a w of None \<Rightarrow> map_of (ea_payload a)
                                | Some tok \<Rightarrow> (map_of (ea_payload a))(''unlockToken'' \<mapsto> JStr tok))"
    using inject_unlock_payload [of a w] by (simp add: gp r(10))
  ultimately show "\<exists>r. command_queue w' = command_queue w @ [r] \<and> cq_id r = uuid_pool w (next_uuid w) \<and>
      cq_status r = ''pending'' \<and> cq_device r = ea_device a \<and> cq_tenant r = ea_tenant a \<and> cq_type r = ea_type a \<and>
      cq_created_by r = ea_created_by a \<and>
      cq_expires r = (case ea_expires_in a of None \<Rightarrow> None | Some s \<Rightarrow> if s = 0 then None else Some (now_ms w + s * 1000)) \<and>
      map_of (cq_payload r) = (case unlock_for a w of None \<Rightarrow> map_of (ea_payload a)
                                | Some tok \<Rightarrow> (map_of (ea_payload a))(''unlockToken'' \<mapsto> JStr tok)) \<and>
      (\<exists>e fs. emitted w' = emitted w @ [e] \<and> em_room e = RTenantAdmin (ea_tenant a) \<and> em_payload e = v \<and>
         map_of v ''payload'' = Some (JObj fs) \<and>
         (\<forall>k. map_of fs k = (if k \<in> set command_secret_keys \<or> k = ''__proto__'' then None else map_of (cq_payload r) k)))"
    using r redact_object_keys [OF fs] by (intro exI [of _ r] conjI exI [of _ "last (emitted w')"] exI [of _ fs]) simp_all
qed

definition ex_cq :: cq_db where
  "ex_cq = \<lparr>now_ms = 1000, devices = [\<lparr>dev_id = 4, dev_tenant = 2, dev_group = None, dev_api_key = None, dev_privacy = True,
        dev_status = ''online'', dev_os_type = ''linux'', dev_tags = [], dev_hostname = ''h'', dev_display_name = None\<rparr>],
     device_groups = [], group_seq = 1, group_closure = [], users = [], user_tenants = [], permission_sets = [], user_teams = [],
     team_memberships = [], team_permissions = [], agent_api_keys = [], settings = [],
     gate = gatePut 900 [] 7 4 ''files'' ''tok'', uuid_pool = (\<lambda>n. ''00000000-0000-4000-8000-0000000000'' @ show_nat (10 + n)), next_uuid = 0,
     command_types = [''list_directory'', ''reboot''], command_queue = [], remote_sessions = [], device_updates = [], emitted = []\<rparr>"

definition ex_enqueue :: enqueue_args where
  "ex_enqueue = \<lparr>ea_device = 4, ea_tenant = 2, ea_type = ''list_directory'', ea_payload = [(''path'', JStr ''/'')], ea_priority = None,
     ea_max_retries = 0, ea_expires_in = Some 60, ea_source_type = None, ea_source_id = None, ea_created_by = Some 7\<rparr>"

lemma ex_unlock: "unlock_for ex_enqueue ex_cq = Some ''tok''"
  by (simp add: unlock_for_def ex_enqueue_def ex_cq_def isBlockedByPrivacy_def featureForCommand_def gateGet_def gatePut_def
      Let_def unlock_expired_def unlock_max_ms_def unlock_ttl_ms_def)

text \<open>
  Enqueueing either refuses the command (unknown device, unknown type or a taken id) and then changes
  neither the queue nor the event log, or appends exactly one pending command with the requested device,
  tenant, type, author and deadline. Its payload is the requested one, plus the unlock token exactly when
  the author holds an active unlock on this device for the feature of the command; and the event sent to
  the administrators of the tenant carries none of the agent-only secrets.
\<close>

theorem enqueue_outcome:
  assumes "enqueue a w = (w', res)"
  shows "(res = None \<longleftrightarrow> device_by_id w (ea_device a) = None \<or> ea_type a \<notin> set (command_types w) \<or>
      uuid_pool w (next_uuid w) \<in> cq_id ` set (command_queue w)) \<and>
    (res = None \<longrightarrow> command_queue w' = command_queue w \<and> emitted w' = emitted w) \<and>
    (\<forall>v. res = Some v \<longrightarrow> (\<exists>r. command_queue w' = command_queue w @ [r] \<and> cq_id r = uuid_pool w (next_uuid w) \<and>
      cq_status r = ''pending'' \<and> cq_device r = ea_device a \<and> cq_tenant r = ea_tenant a \<and> cq_type r = ea_type a \<and>
      cq_created_by r = ea_created_by a \<and>
      cq_expires r = (case ea_expires_in a of None \<Rightarrow> None | Some s \<Rightarrow> if s = 0 then None else Some (now_ms w + s * 1000)) \<and>
      map_of (cq_payload r) = (case unlock_for a w of None \<Rightarrow> map_of (ea_payload a)
                                | Some tok \<Rightarrow> (map_of (ea_payload a))(''unlockToken'' \<mapsto> JStr tok)) \<and>
      (\<exists>e fs. emitted w' = emitted w @ [e] \<and> em_room e = RTenantAdmin (ea_tenant a) \<and> em_payload e = v \<and>
         map_of v ''payload'' = Some (JObj fs) \<and>
         (\<forall>k. map_of fs k = (if k \<in> set command_secret_keys \<or> k = ''__proto__'' then None else map_of (cq_payload r) k)))))"
  using enqueue_parts [OF assms] by blast

theorem enqueue_outcome_witness:
  "\<exists>r. command_queue (fst (enqueue ex_enqueue ex_cq)) = [r] \<and> map_of (cq_payload r) ''unlockToken'' = Some (JStr ''tok'') \<and>
       cq_expires r = Some 61000"
proof -
  obtain w' res where e: "enqueue ex_enqueue ex_cq = (w', res)" by fastforce
  have "res \<noteq> None"
    using enqueue_outcome [OF e] by (simp add: ex_cq_def ex_enqueue_def device_by_id_def)
  then obtain v where "res = Some v" by auto
  from enqueue_outcome [OF e] this obtain r where r: "command_queue w' = command_queue ex_cq @ [r]"
    "cq_expires r = (case ea_expires_in ex_enqueue of None \<Rightarrow> None | Some s \<Rightarrow> if s = 0 then None else Some (now_ms ex_cq + s * 1000))"
    "map_of (cq_payload r) = (map_of (ea_payload ex_enqueue))(''unlockToken'' \<mapsto> JStr ''tok'')"
    by (auto simp: ex_unlock)
  then show ?thesis
    by (intro exI [of _ r]) (simp add: e, simp add: ex_cq_def ex_enqueue_def)
qed

section \<open>The life of a command\<close>

text \<open>One step of the queue; \<open>CTick\<close> is the passing of time.\<close>

datatype cq_event = CEnqueue enqueue_args | CAck nat nat command_ack | CCancel string nat | CExpire | CTick int

fun cq_apply :: "cq_event \<Rightarrow> 'a cq_db_scheme \<Rightarrow> 'a cq_db_scheme" where
  "cq_apply (CEnqueue a) w = fst (enqueue a w)"
| "cq_apply (CAck d t a) w = fst (processAck d t a w)"
| "cq_apply (CCancel i t) w = cancelCommand i t w"
| "cq_apply CExpire w = fst (expireCommands w)"
| "cq_apply (CTick ms) w = w\<lparr>now_ms := now_ms w + \<bar>ms\<bar>\<rparr>"

definition cq_inv :: "'a cq_db_scheme \<Rightarrow> bool" where
  "cq_inv w \<longleftrightarrow> keyed cq_id (command_queue w)"

definition command_status :: "'a cq_db_scheme \<Rightarrow> string \<Rightarrow> string option" where
  "command_status w i = map_option cq_status (find (\<lambda>r. cq_id r = i) (command_queue w))"

lemma queue_ack_emit [simp]: "command_queue (ack_emit t a row w) = command_queue w"
  by (simp add: ack_emit_def Let_def split: option.split)

lemma queue_ack_tunnel [simp]: "command_queue (ack_tunnel_failed a row w) = command_queue w"
  by (simp add: ack_tunnel_failed_def Let_def split: option.split json.split)

lemma queue_ack_updates [simp]: "command_queue (ack_updates d a row w) = command_queue w"
  by (simp add: ack_updates_def Let_def split: option.split)

lemma queue_insert_command:
  "insert_command r w = Some w' \<Longrightarrow> command_queue w' = command_queue w @ [r] \<and> cq_id r \<notin> cq_id ` set (command_queue w)"
  by (auto simp: insert_command_def split: if_splits)

lemma queue_ack_insert:
  "command_queue (ack_insert d t a w) = command_queue w \<or>
   (\<exists>r. command_queue (ack_insert d t a w) = command_queue w @ [r] \<and> cq_id r = ack_command a \<and> cq_device r = d \<and>
        cq_id r \<notin> cq_id ` set (command_queue w))"
  by (auto simp: ack_insert_def dest!: queue_insert_command split: option.split)

lemma queue_enqueue:
  "command_queue (fst (enqueue a w)) = command_queue w \<or>
   (\<exists>r. command_queue (fst (enqueue a w)) = command_queue w @ [r] \<and> cq_id r \<notin> cq_id ` set (command_queue w))"
  by (auto simp: enqueue_def Let_def insert_command_def split: prod.split)

text \<open>The queue after an acknowledgement of device \<open>d\<close>: its own rows updated, at most one row added or removed.\<close>

definition acked_queue :: "nat \<Rightarrow> nat \<Rightarrow> command_ack \<Rightarrow> 'a cq_db_scheme \<Rightarrow> command_row list" where
  "acked_queue d t a w =
     (let w1 = fst (ack_update d a w)
      in command_queue (if snd (ack_update d a w) = 0 then ack_insert d t a w1 else w1))"

lemma processAck_row:
  "isUuid (ack_command a) \<Longrightarrow> snd (processAck d t a w) = find (\<lambda>r. cq_id r = ack_command a) (acked_queue d t a w)"
  by (simp add: processAck_def acked_queue_def Let_def split: prod.split)

lemma processAck_queue:
  "isUuid (ack_command a) \<Longrightarrow> command_queue (fst (processAck d t a w)) =
     (if is_terminal a \<and> (case snd (processAck d t a w) of None \<Rightarrow> False | Some r \<Rightarrow> cq_source_type r = Some ''disk_health_probe'')
      then tbl_delete (\<lambda>c. cq_id c = ack_command a) (acked_queue d t a w) else acked_queue d t a w)"
  by (auto simp: processAck_def acked_queue_def ack_probe_done_def Let_def split: prod.split option.split)

lemma ack_update_queue:
  "command_queue (fst (ack_update d a w)) =
     tbl_update (\<lambda>r. cq_id r = ack_command a \<and> cq_device r = d)
       (\<lambda>r. r\<lparr>cq_status := ack_status a, cq_acked := Some (now_ms w), cq_updated := now_ms w, cq_result := ack_result_obj a,
              cq_finished := (if is_terminal a then Some (now_ms w) else cq_finished r)\<rparr>) (command_queue w)"
  by (simp add: ack_update_def Let_def)

lemma ack_update_keyed: "keyed cq_id (command_queue (fst (ack_update d a w))) = keyed cq_id (command_queue w)"
  unfolding ack_update_queue by (rule keyed_tbl_update) simp

lemma keyed_acked_queue:
  assumes "keyed cq_id (command_queue w)"
  shows "keyed cq_id (acked_queue d t a w)"
proof -
  have k: "keyed cq_id (command_queue (fst (ack_update d a w)))" using assms ack_update_keyed by metis
  then show ?thesis
    using queue_ack_insert [of d t a "fst (ack_update d a w)"] by (auto simp: acked_queue_def Let_def keyed_snoc)
qed

interpretation command_machine: guarded_machine cq_inv "\<lambda>w w'. \<exists>e. w' = cq_apply e w"
proof unfold_locales
  fix w w' :: "'a cq_db_scheme"
  assume inv: "cq_inv w" and "\<exists>e. w' = cq_apply e w"
  then obtain e where w': "w' = cq_apply e w" by blast
  show "cq_inv w'"
  proof (cases e)
    case (CEnqueue a)
    then show ?thesis using inv w' queue_enqueue [of a w] by (auto simp: cq_inv_def keyed_snoc)
  next
    case (CAck d t a)
    then show ?thesis
      using inv w' keyed_acked_queue [of w d t a] processAck_queue [of a d t w]
      by (cases "isUuid (ack_command a)") (auto simp: cq_inv_def processAck_def intro: keyed_tbl_delete)
  next
    case (CCancel i t)
    have "keyed cq_id (command_queue (cancelCommand i t w)) = keyed cq_id (command_queue w)"
      unfolding cancelCommand_def by simp (rule keyed_tbl_update, simp)
    with CCancel inv w' show ?thesis by (simp add: cq_inv_def)
  next
    case CExpire
    have "keyed cq_id (command_queue (fst (expireCommands w))) = keyed cq_id (command_queue w)"
      unfolding expireCommands_def Let_def by simp (rule keyed_tbl_update, simp)
    with CExpire inv w' show ?thesis by (simp add: cq_inv_def)
  next
    case (CTick ms)
    with inv w' show ?thesis by (simp add: cq_inv_def)
  qed
qed

lemma find_snoc_other: "cq_id r \<noteq> i \<Longrightarrow> find (\<lambda>x. cq_id x = i) (xs @ [r]) = find (\<lambda>x. cq_id x = i) xs"
  by (simp add: find_append)

lemma find_snoc_taken: "find P xs = Some x \<Longrightarrow> find P (xs @ ys) = Some x"
  by (simp add: find_append)

lemma find_tbl_delete_other:
  "(\<And>r. cq_id r = i \<Longrightarrow> \<not> P r) \<Longrightarrow> find (\<lambda>r. cq_id r = i) (tbl_delete P xs) = find (\<lambda>r. cq_id r = i) xs"
  by (induction xs) (auto simp: tbl_delete_def)

text \<open>An acknowledgement that is not by the device of the command leaves the command as it is.\<close>

lemma ack_update_other:
  assumes "find (\<lambda>r. cq_id r = i) (command_queue w) = Some r" and "keyed cq_id (command_queue w)"
    and "cq_id r = ack_command a \<longrightarrow> cq_device r \<noteq> d"
  shows "find (\<lambda>r. cq_id r = i) (command_queue (fst (ack_update d a w))) = Some r"
proof -
  have r: "r \<in> set (command_queue w)" "cq_id r = i" using find_SomeD [OF assms(1)] by auto
  let ?hit = "\<lambda>x. cq_id x = ack_command a \<and> cq_device x = d"
  have "\<not> ?hit r" using assms(3) by auto
  then have "r \<in> set (command_queue (fst (ack_update d a w)))"
    unfolding ack_update_queue set_tbl_update using r(1) by (force simp: image_iff)
  moreover have "keyed cq_id (command_queue (fst (ack_update d a w)))" using assms(2) ack_update_keyed by metis
  ultimately show ?thesis using find_keyed r(2) by metis
qed

lemma acked_queue_other:
  assumes "find (\<lambda>r. cq_id r = i) (command_queue w) = Some r" and "keyed cq_id (command_queue w)"
    and "cq_id r = ack_command a \<longrightarrow> cq_device r \<noteq> d"
  shows "find (\<lambda>r. cq_id r = i) (acked_queue d t a w) = Some r"
  using ack_update_other [OF assms] queue_ack_insert [of d t a "fst (ack_update d a w)"]
  by (auto simp: acked_queue_def Let_def dest: find_snoc_taken)

lemma find_tbl_update:
  assumes "\<And>r. cq_id (f r) = cq_id r" and "find (\<lambda>r. cq_id r = i) rows = Some r"
  shows "find (\<lambda>r. cq_id r = i) (tbl_update P f rows) = Some (if P r then f r else r)"
  using assms(2) by (induction rows) (auto simp: tbl_update_def assms(1) split: if_splits)

lemma processAck_status:
  assumes "keyed cq_id (command_queue w)" and "find (\<lambda>r. cq_id r = i) (command_queue w) = Some r"
    and "\<not> (ack_command a = i \<and> cq_device r = d)"
  shows "command_status (fst (processAck d t a w)) i = Some (cq_status r) \<or>
    ack_command a = i \<and> is_terminal a \<and> cq_source_type r = Some ''disk_health_probe'' \<and> command_status (fst (processAck d t a w)) i = None"
proof (cases "isUuid (ack_command a)")
  case False
  with assms(2) show ?thesis by (simp add: processAck_def command_status_def)
next
  case u: True
  have f: "find (\<lambda>r. cq_id r = i) (acked_queue d t a w) = Some r"
    using acked_queue_other [OF assms(2,1)] find_SomeD [OF assms(2)] assms(3) by auto
  show ?thesis
  proof (cases "ack_command a = i")
    case True
    then have "snd (processAck d t a w) = Some r" using f by (simp add: processAck_row [OF u])
    moreover have "find (\<lambda>r. cq_id r = i) (tbl_delete (\<lambda>c. cq_id c = i) (acked_queue d t a w)) = None"
      by (auto simp: find_None_iff tbl_delete_def)
    ultimately show ?thesis
      using processAck_queue [OF u, of d t w] True f by (auto simp: command_status_def split: if_splits)
  next
    case False
    have "find (\<lambda>r. cq_id r = i) (tbl_delete (\<lambda>c. cq_id c = ack_command a) (acked_queue d t a w)) = Some r"
      using False f by (subst find_tbl_delete_other) auto
    then show ?thesis
      using processAck_queue [OF u, of d t w] f by (auto simp: command_status_def split: if_splits)
  qed
qed


definition ex_row :: "string \<Rightarrow> nat \<Rightarrow> command_row" where
  "ex_row i d = \<lparr>cq_id = i, cq_device = d, cq_tenant = 2, cq_type = ''reboot'', cq_payload = [], cq_status = ''pending'',
     cq_priority = ''normal'', cq_sent = None, cq_acked = None, cq_finished = None, cq_expires = Some 500, cq_result = [],
     cq_retry_count = 0, cq_max_retries = 0, cq_source_type = Some ''scenario_node'', cq_source_id = Some ''nr'', cq_created_by = None,
     cq_created = 0, cq_updated = 0\<rparr>"

definition ex_id :: string where "ex_id = ''00000000-0000-4000-8000-000000000001''"

definition ex_queue :: cq_db where
  "ex_queue = ex_cq\<lparr>command_queue := [ex_row ex_id 4]\<rparr>"


lemma foreign_ack_parts:
  assumes "cq_inv w" and "find (\<lambda>r. cq_id r = ack_command a) (command_queue w) = Some r" and "isUuid (ack_command a)"
    and "cq_device r \<noteq> d" and "cq_source_type r \<noteq> Some ''disk_health_probe''"
  shows "snd (processAck d t a w) = Some r"
    and "find (\<lambda>r. cq_id r = ack_command a) (command_queue (fst (processAck d t a w))) = Some r"
    and "\<lparr>em_room = RTenant t, em_except = [], em_event = ''COMMAND_UPDATED'', em_payload = rowToCommand r\<rparr> \<in> set (emitted (fst (processAck d t a w)))"
proof -
  have k: "keyed cq_id (command_queue w)" using assms(1) by (simp add: cq_inv_def)
  have f: "find (\<lambda>r. cq_id r = ack_command a) (acked_queue d t a w) = Some r"
    using acked_queue_other [OF assms(2) k] assms(4) by blast
  then show row: "snd (processAck d t a w) = Some r" by (simp add: processAck_row [OF assms(3)])
  show "find (\<lambda>r. cq_id r = ack_command a) (command_queue (fst (processAck d t a w))) = Some r"
    using processAck_queue [OF assms(3), of d t w] row assms(5) f by simp
  have keep: "e \<in> set (emitted w') \<Longrightarrow> e \<in> set (emitted (ack_probe_done a row (ack_updates d a row w')))"
    "e \<in> set (emitted w') \<Longrightarrow> e \<in> set (emitted (ack_tunnel_failed a row w'))"
    for e row and w' :: "'a cq_db_scheme"
    by (auto simp: ack_probe_done_def ack_updates_def ack_tunnel_failed_def Let_def split: option.split json.split)
  show "\<lparr>em_room = RTenant t, em_except = [], em_event = ''COMMAND_UPDATED'', em_payload = rowToCommand r\<rparr>
      \<in> set (emitted (fst (processAck d t a w)))"
    using f assms(3,5) by (auto simp: processAck_def acked_queue_def ack_emit_def Let_def keep split: prod.split)
qed

lemma ex_id_uuid: "isUuid ex_id"
  by (simp add: ex_id_def isUuid_def is_hex_def is_digit_def)

definition ex_ack :: command_ack where
  "ex_ack = \<lparr>ack_command = ex_id, ack_status = ''success'', ack_result = None, ack_type = None\<rparr>"

text \<open>
  An agent that names the id of another device's command does not change that command, but the follow-up
  of the acknowledgement still works on the other device's row: it is handed to the linked execution or
  scenario, and its view is broadcast to the tenant of the agent that sent the acknowledgement.
\<close>

theorem foreign_ack_uses_foreign_row:
  assumes "cq_inv w" and "find (\<lambda>r. cq_id r = ack_command a) (command_queue w) = Some r" and "isUuid (ack_command a)"
    and "cq_device r \<noteq> d" and "cq_source_type r \<noteq> Some ''disk_health_probe''"
  shows "snd (processAck d t a w) = Some r \<and>
    find (\<lambda>r. cq_id r = ack_command a) (command_queue (fst (processAck d t a w))) = Some r \<and>
    \<lparr>em_room = RTenant t, em_except = [], em_event = ''COMMAND_UPDATED'', em_payload = rowToCommand r\<rparr> \<in> set (emitted (fst (processAck d t a w)))"
  using foreign_ack_parts [OF assms] by blast

theorem foreign_ack_uses_foreign_row_witness:
  "snd (processAck 9 3 ex_ack ex_queue) = Some (ex_row ex_id 4) \<and>
   (\<exists>e \<in> set (emitted (fst (processAck 9 3 ex_ack ex_queue))). em_room e = RTenant 3 \<and> em_payload e = rowToCommand (ex_row ex_id 4))"
proof -
  have "cq_inv ex_queue" "find (\<lambda>r. cq_id r = ack_command ex_ack) (command_queue ex_queue) = Some (ex_row ex_id 4)"
    "isUuid (ack_command ex_ack)" "cq_device (ex_row ex_id 4) \<noteq> 9" "cq_source_type (ex_row ex_id 4) \<noteq> Some ''disk_health_probe''"
    using ex_id_uuid by (simp_all add: ex_queue_def ex_row_def cq_inv_def keyed_def ex_ack_def)
  from foreign_ack_uses_foreign_row [OF this] show ?thesis by force
qed

end
