(* ===== verification/Automation_Notification.thy ===== *)
theory Automation_Notification
  imports Command_Queue
begin

text \<open>
  The notifications of schedules and scenarios (\<^verbatim>\<open>server/src/services/automationNotification.service.ts\<close>): the message
  texts with their SMS budget, and the dispatch to the channels a tenant owns or shares. Whether a plugin is
  registered for a channel type is the argument \<open>plugin\<close>; a send is recorded in \<open>outbox\<close> (its delivery is the
  plugin's). Texts are lists of code units; the dash of the summary is its UTF-8 encoding.
\<close>

section \<open>Messages\<close>

definition sms_max :: nat where "sms_max = 160"

record aggregate_result =
  ag_type :: string
  ag_name :: string
  ag_success :: nat
  ag_failure :: nat
  ag_total :: nat
  ag_failed_names :: "string list"

definition error_prefix :: "aggregate_result \<Rightarrow> string" where
  "error_prefix r = ''[Obliance] \"'' @ ag_name r @ ''\" failed on '' @ show_nat (ag_failure r) @ ''/'' @ show_nat (ag_total r)"

definition ellipsis :: string where "ellipsis = ''...''"

text \<open>The loop over the device names; \<open>listed\<close> is what was listed so far.\<close>

fun list_names :: "nat \<Rightarrow> string \<Rightarrow> string list \<Rightarrow> string" where
  "list_names budget listed [] = listed"
| "list_names budget listed (name # names) =
     (let candidate = (if listed \<noteq> [] then listed @ '', '' @ name else name)
      in if length candidate + length ellipsis \<le> budget then list_names budget candidate names
         else if listed \<noteq> [] then listed @ ellipsis
         else take (budget - length ellipsis) name @ ellipsis)"

definition buildOnErrorMessage :: "aggregate_result \<Rightarrow> string option" where
  "buildOnErrorMessage r =
     (if ag_failure r = 0 then None
      else let prefix = error_prefix r
           in if ag_failed_names r = [] then Some prefix
              else let budget = int sms_max - int (length prefix) - 2
                   in if budget \<le> 10 then Some prefix
                      else Some (prefix @ '': '' @ list_names (nat budget) [] (ag_failed_names r)))"

definition em_dash :: string where "em_dash = [CHR 0xE2, CHR 0x80, CHR 0x94]"

definition buildSummaryMessage :: "aggregate_result \<Rightarrow> string" where
  "buildSummaryMessage r = ''[Obliance] \"'' @ ag_name r @ ''\" '' @ em_dash @ '' OK: '' @ show_nat (ag_success r) @
     '' / Failed: '' @ show_nat (ag_failure r)"

definition buildPerDeviceMessage :: "aggregate_result \<Rightarrow> string \<Rightarrow> bool \<Rightarrow> string" where
  "buildPerDeviceMessage r deviceName success =
     ''[Obliance] \"'' @ ag_name r @ ''\" '' @ (if success then ''completed on'' else ''failed on'') @ '' '' @ deviceName"

section \<open>Dispatch\<close>

record channel_row =
  nc_id :: nat
  nc_tenant :: nat
  nc_type :: string
  nc_enabled :: bool

record channel_share =
  ct_channel :: nat
  ct_tenant :: nat

record sent_message =
  sm_channel :: nat
  sm_subject :: string
  sm_body :: string

record notify_binding =
  nb_channel :: nat
  nb_mode :: string

record nt_db = cq_db +
  notification_channels :: "channel_row list"
  channel_tenants :: "channel_share list"
  outbox :: "sent_message list"

definition channel_usable :: "'a nt_db_scheme \<Rightarrow> nat \<Rightarrow> nat \<Rightarrow> channel_row \<Rightarrow> bool" where
  "channel_usable w c t r \<longleftrightarrow> nc_id r = c \<and> nc_enabled r \<and>
     (nc_tenant r = t \<or> (\<exists>s \<in> set (channel_tenants w). ct_channel s = nc_id r \<and> ct_tenant s = t))"

definition dispatch :: "(string \<Rightarrow> bool) \<Rightarrow> nat \<Rightarrow> nat \<Rightarrow> string \<Rightarrow> string \<Rightarrow> 'a nt_db_scheme \<Rightarrow> 'a nt_db_scheme" where
  "dispatch plugin c t subject body w =
     (case find (channel_usable w c t) (notification_channels w) of
        None \<Rightarrow> w
      | Some row \<Rightarrow>
          if \<not> plugin (nc_type row) then w
          else w\<lparr>outbox := outbox w @ [\<lparr>sm_channel = c, sm_subject = subject, sm_body = body\<rparr>]\<rparr>)"

definition subject_of :: "string \<Rightarrow> string \<Rightarrow> string" where
  "subject_of ty name = (if ty = ''schedule'' then ''Schedule'' else ''Scenario'') @ '': '' @ name"

definition body_for :: "string \<Rightarrow> aggregate_result \<Rightarrow> string option" where
  "body_for mode r =
     (if mode = ''summary'' then Some (buildSummaryMessage r)
      else if mode = ''on_error'' then buildOnErrorMessage r else None)"

fun notify :: "(string \<Rightarrow> bool) \<Rightarrow> nat \<Rightarrow> notify_binding list \<Rightarrow> aggregate_result \<Rightarrow> 'a nt_db_scheme \<Rightarrow> 'a nt_db_scheme" where
  "notify plugin t [] r w = w"
| "notify plugin t (b # bs) r w =
     (case body_for (nb_mode b) r of
        None \<Rightarrow> notify plugin t bs r w
      | Some body \<Rightarrow>
          if body = [] then notify plugin t bs r w
          else notify plugin t bs r (dispatch plugin (nb_channel b) t (subject_of (ag_type r) (ag_name r)) body w))"

definition device_result :: "string \<Rightarrow> string \<Rightarrow> string \<Rightarrow> bool \<Rightarrow> aggregate_result" where
  "device_result ty name deviceName success =
     \<lparr>ag_type = ty, ag_name = name, ag_success = (if success then 1 else 0), ag_failure = (if success then 0 else 1),
      ag_total = 1, ag_failed_names = (if success then [] else [deviceName])\<rparr>"

fun notifyPerDevice ::
  "(string \<Rightarrow> bool) \<Rightarrow> nat \<Rightarrow> notify_binding list \<Rightarrow> string \<Rightarrow> string \<Rightarrow> string \<Rightarrow> bool \<Rightarrow> 'a nt_db_scheme \<Rightarrow> 'a nt_db_scheme" where
  "notifyPerDevice plugin t [] ty name dev success w = w"
| "notifyPerDevice plugin t (b # bs) ty name dev success w =
     (if nb_mode b \<noteq> ''per_device'' then notifyPerDevice plugin t bs ty name dev success w
      else notifyPerDevice plugin t bs ty name dev success
             (dispatch plugin (nb_channel b) t (subject_of ty name)
                (buildPerDeviceMessage (device_result ty name dev success) dev success) w))"

section \<open>The SMS budget\<close>

lemma list_names_length:
  "length listed + length ellipsis \<le> budget \<Longrightarrow> length (list_names budget listed names) \<le> budget"
proof (induction names arbitrary: listed)
  case (Cons name names)
  then show ?case by (auto simp: Let_def ellipsis_def)
qed simp

text \<open>The names as the loop joins them after \<open>listed\<close>.\<close>

definition joined :: "string \<Rightarrow> string list \<Rightarrow> string" where
  "joined listed names = (if listed = [] then join_with '', '' names else listed @ concat (map (\<lambda>n. '', '' @ n) names))"

lemma join_concat: "join_with sep (x # xs) = x @ concat (map (\<lambda>n. sep @ n) xs)"
  by (induction xs arbitrary: x) auto

lemma append_fun_simp: "(@) '', '' = (\<lambda>n. CHR '','' # CHR '' '' # n)"
  by (simp add: fun_eq_iff)

lemma list_names_complete:
  assumes "\<forall>n \<in> set names. n \<noteq> []" and "length (joined listed names) + length ellipsis \<le> budget"
  shows "list_names budget listed names = joined listed names"
  using assms
proof (induction names arbitrary: listed)
  case Nil
  then show ?case by (simp add: joined_def)
next
  case (Cons name names)
  let ?cand = "if listed \<noteq> [] then listed @ '', '' @ name else name"
  have j: "joined ?cand names = joined listed (name # names)"
    using Cons.prems(1) by (auto simp: joined_def join_concat append_fun_simp)
  have "length ?cand \<le> length (joined ?cand names)"
    using Cons.prems(1) by (auto simp: joined_def)
  with Cons.prems(2) have "length ?cand + length ellipsis \<le> budget" unfolding j by linarith
  moreover have "list_names budget ?cand names = joined ?cand names"
    using Cons.IH [of ?cand] Cons.prems unfolding j by simp
  ultimately show ?case unfolding j by (simp add: Let_def)
qed

text \<open>
  The failure message exists exactly when a device failed. It starts with the head line and, unless that
  line alone is longer, never exceeds 160 characters; when the complete list of (non-empty) names fits with
  three characters to spare, all of them are listed.
\<close>

theorem error_message_fits:
  "(buildOnErrorMessage r = None \<longleftrightarrow> ag_failure r = 0) \<and>
   (\<forall>m. buildOnErrorMessage r = Some m \<longrightarrow>
      starts_with (error_prefix r) m \<and> length m \<le> max 160 (length (error_prefix r)) \<and>
      (ag_failed_names r \<noteq> [] \<and> (\<forall>n \<in> set (ag_failed_names r). n \<noteq> []) \<and> length (error_prefix r) < 148 \<and>
       length (error_prefix r @ '': '' @ join_with '', '' (ag_failed_names r)) + 3 \<le> 160 \<longrightarrow>
         m = error_prefix r @ '': '' @ join_with '', '' (ag_failed_names r)))"
proof (intro conjI allI impI)
  show "buildOnErrorMessage r = None \<longleftrightarrow> ag_failure r = 0"
    by (simp add: buildOnErrorMessage_def Let_def)
next
  fix m assume m: "buildOnErrorMessage r = Some m"
  let ?b = "int sms_max - int (length (error_prefix r)) - 2"
  have cases: "m = error_prefix r \<or> ?b > 10 \<and> m = error_prefix r @ '': '' @ list_names (nat ?b) [] (ag_failed_names r)"
    using m by (auto simp: buildOnErrorMessage_def Let_def split: if_splits)
  then show "starts_with (error_prefix r) m" by (auto simp: starts_with_def)
  have "?b > 10 \<Longrightarrow> length (list_names (nat ?b) [] (ag_failed_names r)) \<le> nat ?b"
    by (rule list_names_length) (simp add: ellipsis_def)
  then show "length m \<le> max 160 (length (error_prefix r))"
    using cases by (auto simp: sms_max_def)
  assume fit: "ag_failed_names r \<noteq> [] \<and> (\<forall>n \<in> set (ag_failed_names r). n \<noteq> []) \<and> length (error_prefix r) < 148 \<and>
       length (error_prefix r @ '': '' @ join_with '', '' (ag_failed_names r)) + 3 \<le> 160"
  then have "list_names (nat ?b) [] (ag_failed_names r) = joined [] (ag_failed_names r)"
    by (intro list_names_complete) (auto simp: joined_def sms_max_def ellipsis_def)
  then show "m = error_prefix r @ '': '' @ join_with '', '' (ag_failed_names r)"
    using m fit by (auto simp: buildOnErrorMessage_def Let_def joined_def sms_max_def split: if_splits)
qed

definition ex_result :: aggregate_result where
  "ex_result = device_result ''scenario'' ''Disk cleanup'' ''srv-01'' False"

theorem error_message_fits_witness:
  "\<exists>m. buildOnErrorMessage ex_result = Some m \<and> length m \<le> 160 \<and> m = error_prefix ex_result @ '': srv-01''"
proof -
  have l: "length (error_prefix ex_result) = 39"
    by (simp add: error_prefix_def ex_result_def device_result_def show_nat.simps [of "Suc 0"])
  have "buildOnErrorMessage ex_result \<noteq> None"
    using error_message_fits [of ex_result] by (simp add: ex_result_def device_result_def)
  then obtain m where m: "buildOnErrorMessage ex_result = Some m" by auto
  with l error_message_fits [of ex_result] show ?thesis
    by (intro exI [of _ m]) (simp add: ex_result_def device_result_def)
qed

section \<open>Who is told\<close>

lemma channels_dispatch [simp]:
  "notification_channels (dispatch plugin c t su b w) = notification_channels w"
  "channel_tenants (dispatch plugin c t su b w) = channel_tenants w"
  by (simp_all add: dispatch_def split: option.split)

definition reachable_channel :: "(string \<Rightarrow> bool) \<Rightarrow> nat \<Rightarrow> 'a nt_db_scheme \<Rightarrow> nat \<Rightarrow> bool" where
  "reachable_channel plugin t w c \<longleftrightarrow>
     (case find (channel_usable w c t) (notification_channels w) of None \<Rightarrow> False | Some row \<Rightarrow> plugin (nc_type row))"

lemma outbox_dispatch:
  "outbox (dispatch plugin c t su b w) =
     outbox w @ (if reachable_channel plugin t w c then [\<lparr>sm_channel = c, sm_subject = su, sm_body = b\<rparr>] else [])"
  by (simp add: dispatch_def reachable_channel_def split: option.split)

lemma usable_dispatch [simp]: "channel_usable (dispatch p c' t' su b w) c t = channel_usable w c t"
  by (simp add: channel_usable_def fun_eq_iff)

lemma reachable_dispatch [simp]: "reachable_channel plugin t (dispatch p c t' su b w) = reachable_channel plugin t w"
  by (simp add: reachable_channel_def fun_eq_iff)

lemma summary_nonempty [simp]: "buildSummaryMessage r \<noteq> []"
  by (simp add: buildSummaryMessage_def)

lemma on_error_nonempty: "buildOnErrorMessage r \<noteq> Some []"
  by (simp add: buildOnErrorMessage_def Let_def error_prefix_def)

text \<open>What the two hooks send for one binding.\<close>

definition aggregate_messages :: "(string \<Rightarrow> bool) \<Rightarrow> nat \<Rightarrow> aggregate_result \<Rightarrow> 'a nt_db_scheme \<Rightarrow> notify_binding \<Rightarrow> sent_message list" where
  "aggregate_messages plugin t r w b =
     (case body_for (nb_mode b) r of
        None \<Rightarrow> []
      | Some body \<Rightarrow> if reachable_channel plugin t w (nb_channel b)
          then [\<lparr>sm_channel = nb_channel b, sm_subject = subject_of (ag_type r) (ag_name r), sm_body = body\<rparr>] else [])"

definition device_messages ::
  "(string \<Rightarrow> bool) \<Rightarrow> nat \<Rightarrow> string \<Rightarrow> string \<Rightarrow> string \<Rightarrow> bool \<Rightarrow> 'a nt_db_scheme \<Rightarrow> notify_binding \<Rightarrow> sent_message list" where
  "device_messages plugin t ty name dev ok w b =
     (if nb_mode b = ''per_device'' \<and> reachable_channel plugin t w (nb_channel b)
      then [\<lparr>sm_channel = nb_channel b, sm_subject = subject_of ty name,
             sm_body = buildPerDeviceMessage (device_result ty name dev ok) dev ok\<rparr>] else [])"

lemma messages_dispatch [simp]:
  "aggregate_messages plugin t r (dispatch p c t' su b w) = aggregate_messages plugin t r w"
  "device_messages plugin t ty name dev ok (dispatch p c t' su b w) = device_messages plugin t ty name dev ok w"
  by (simp_all add: aggregate_messages_def device_messages_def fun_eq_iff split: option.split)

lemma outbox_notify:
  "outbox (notify plugin t bs r w) = outbox w @ concat (map (aggregate_messages plugin t r w) bs)"
proof (induction bs arbitrary: w)
  case (Cons b bs)
  have "body_for (nb_mode b) r \<noteq> Some []"
    using on_error_nonempty by (simp add: body_for_def)
  then show ?case by (auto simp: Cons.IH outbox_dispatch aggregate_messages_def [of _ _ _ _ b] split: option.split)
qed simp

lemma outbox_notifyPerDevice:
  "outbox (notifyPerDevice plugin t bs ty name dev ok w) = outbox w @ concat (map (device_messages plugin t ty name dev ok w) bs)"
  by (induction bs arbitrary: w) (auto simp: outbox_dispatch device_messages_def [of _ _ _ _ _ _ _ "_ :: notify_binding"])

lemma aggregate_after_per_device [simp]:
  "aggregate_messages plugin t r (notifyPerDevice p t' bs ty name dev ok w) = aggregate_messages plugin t r w"
  by (induction bs arbitrary: w) auto

lemma reachable_owner:
  assumes "reachable_channel plugin t w c"
  shows "\<exists>row \<in> set (notification_channels w). nc_id row = c \<and> nc_enabled row \<and> plugin (nc_type row) \<and>
     (nc_tenant row = t \<or> (\<exists>s \<in> set (channel_tenants w). ct_channel s = c \<and> ct_tenant s = t))"
proof -
  from assms obtain row where "find (channel_usable w c t) (notification_channels w) = Some row" "plugin (nc_type row)"
    by (auto simp: reachable_channel_def split: option.splits)
  then show ?thesis using find_SomeD by (fastforce simp: channel_usable_def)
qed

lemma messages_per_binding:
  "length (device_messages plugin t ty name dev ok w b) + length (aggregate_messages plugin t r w b) \<le> 1"
  by (auto simp: aggregate_messages_def device_messages_def body_for_def split: option.split)

text \<open>
  The two hooks never send through a channel that is disabled, has no plugin, or neither belongs to the
  tenant nor is shared with it; no binding is served twice by them, a failure-only binding stays silent
  when no device failed, and earlier messages are never changed.
\<close>

theorem notifications_reach_own_channels:
  "\<exists>new. outbox (notify plugin t bs r (notifyPerDevice plugin t bs (ag_type r) (ag_name r) dev ok w)) = outbox w @ new \<and>
     length new \<le> length bs \<and>
     (\<forall>m \<in> set new. \<exists>b \<in> set bs. sm_channel m = nb_channel b \<and> (nb_mode b = ''on_error'' \<longrightarrow> ag_failure r \<noteq> 0) \<and>
        (\<exists>row \<in> set (notification_channels w). nc_id row = nb_channel b \<and> nc_enabled row \<and> plugin (nc_type row) \<and>
           (nc_tenant row = t \<or> (\<exists>s \<in> set (channel_tenants w). ct_channel s = nb_channel b \<and> ct_tenant s = t))))"
proof -
  let ?pd = "device_messages plugin t (ag_type r) (ag_name r) dev ok w" and ?ag = "aggregate_messages plugin t r w"
  let ?new = "concat (map ?pd bs) @ concat (map ?ag bs)"
  have "outbox (notify plugin t bs r (notifyPerDevice plugin t bs (ag_type r) (ag_name r) dev ok w)) = outbox w @ ?new"
    by (simp add: outbox_notify outbox_notifyPerDevice)
  moreover have "length (concat (map ?pd cs) @ concat (map ?ag cs)) \<le> length cs" for cs
  proof (induction cs)
    case (Cons b cs)
    then show ?case
      using messages_per_binding [of plugin t "ag_type r" "ag_name r" dev ok w b r]
      by (simp only: list.map concat.simps length_append list.size)
  qed simp
  moreover have "\<exists>b \<in> set bs. sm_channel m = nb_channel b \<and> (nb_mode b = ''on_error'' \<longrightarrow> ag_failure r \<noteq> 0) \<and>
        (\<exists>row \<in> set (notification_channels w). nc_id row = nb_channel b \<and> nc_enabled row \<and> plugin (nc_type row) \<and>
           (nc_tenant row = t \<or> (\<exists>s \<in> set (channel_tenants w). ct_channel s = nb_channel b \<and> ct_tenant s = t)))"
    if "m \<in> set ?new" for m
  proof -
    from that obtain b where b: "b \<in> set bs" "m \<in> set (?pd b) \<or> m \<in> set (?ag b)" by auto
    then have "sm_channel m = nb_channel b" "nb_mode b = ''on_error'' \<longrightarrow> ag_failure r \<noteq> 0" "reachable_channel plugin t w (nb_channel b)"
      by (auto simp: aggregate_messages_def device_messages_def body_for_def buildOnErrorMessage_def split: option.splits if_splits)
    with b(1) reachable_owner [of plugin t w "nb_channel b"] show ?thesis by blast
  qed
  ultimately show ?thesis by (intro exI [of _ ?new] conjI ballI) blast+
qed

definition ex_nt :: nt_db where
  "ex_nt = cq_db.extend ex_cq \<lparr>notification_channels = [\<lparr>nc_id = 5, nc_tenant = 1, nc_type = ''smtp'', nc_enabled = True\<rparr>],
     channel_tenants = [\<lparr>ct_channel = 5, ct_tenant = 2\<rparr>], outbox = []\<rparr>"

theorem notifications_reach_own_channels_witness:
  "\<exists>new. outbox (notify (\<lambda>_. True) 2 [\<lparr>nb_channel = 5, nb_mode = ''summary''\<rparr>] ex_result
       (notifyPerDevice (\<lambda>_. True) 2 [\<lparr>nb_channel = 5, nb_mode = ''summary''\<rparr>] (ag_type ex_result) (ag_name ex_result) ''srv-01'' False ex_nt)) =
     outbox ex_nt @ new \<and> length new \<le> 1"
  using notifications_reach_own_channels [of "\<lambda>_. True" 2 "[\<lparr>nb_channel = 5, nb_mode = ''summary''\<rparr>]" ex_result "''srv-01''" False ex_nt]
  by simp meson

end
