(* ===== verification/Scenario_Schema.thy ===== *)
theory Scenario_Schema
  imports Automation_Notification Permission Db_Id
begin

text \<open>
  The state of the scenario graph engine (\<^verbatim>\<open>server/src/services/scenarioGraph.service.ts\<close> and
  \<^verbatim>\<open>scenarioPermission.service.ts\<close>): scripts, scenarios, nodes, edges, runs and node runs, the cooldown table, the
  in-memory fan-outs and wait timers, and the caches of the permission gate. A node configuration is the
  record of the fields the executors read; a field that is missing in the JSON object is \<open>None\<close>.
\<close>

section \<open>Tables\<close>

record script_row =
  scr_id :: nat
  scr_tenant :: nat
  scr_runtime :: string
  scr_content :: string
  scr_timeout :: "int option"
  scr_expected :: "int option"
  scr_run_as :: "string option"

record scenario_row =
  scn_id :: nat
  scn_tenant :: nat
  scn_name :: string
  scn_bypass :: bool
  scn_channels :: "notify_binding list"
  scn_notify_success :: bool
  scn_notify_failure :: bool
  scn_updated_by :: "nat option"
  scn_created_by :: "nat option"
  scn_updated_at :: "int option"

datatype duration = DurNum jsnum | DurText string

datatype tag_list = TagText string | TagArr "string list"

record node_config =
  cf_target_mode :: "string option"
  cf_target_ids :: "jsnum list option"
  cf_duration :: "duration option"
  cf_unit :: "string option"
  cf_script :: "nat option"
  cf_parameters :: "json_obj option"
  cf_timeout :: "int option"
  cf_channels :: "notify_binding list"
  cf_subject :: "string option"
  cf_seconds :: "rat option"
  cf_command :: "string option"
  cf_payload :: "json_obj option"
  cf_add :: "tag_list option"
  cf_remove :: "tag_list option"
  cf_group :: "nat option"
  cf_match :: "string option"
  cf_value :: "string option"
  cf_message :: "string option"

record node_row =
  nd_id :: nat
  nd_scenario :: nat
  nd_type :: string
  nd_label :: "string option"
  nd_config :: node_config

datatype edge_condition = CondAlways | CondDefault | CondEq int | CondIn "int list" | CondNeq int

record edge_row =
  ed_id :: nat
  ed_scenario :: nat
  ed_source :: nat
  ed_target :: nat
  ed_condition :: edge_condition
  ed_sort :: int

record run_row =
  run_id :: string
  run_tenant :: nat
  run_scenario :: nat
  run_device :: nat
  run_trigger_type :: string
  run_trigger_source :: "string option"
  run_status :: string
  run_current_node :: "nat option"
  run_visits :: "(nat \<times> nat) list"
  run_last_exit :: "int option"
  run_last_stdout :: "string option"
  run_last_stderr :: "string option"
  run_finished :: "int option"
  run_error :: "string option"

record node_run_row =
  nr_id :: string
  nr_run :: string
  nr_node :: nat
  nr_type :: string
  nr_status :: string
  nr_exit :: "int option"
  nr_stdout :: "string option"
  nr_stderr :: "string option"
  nr_error :: "string option"
  nr_started :: int
  nr_finished :: "int option"

record cooldown_row =
  cd_scenario :: nat
  cd_device :: nat
  cd_node :: nat
  cd_last_pass :: int

record pending_fan_out =
  fo_expected :: nat
  fo_received :: nat
  fo_worst :: "int option"
  fo_stdouts :: "string list"
  fo_stderrs :: "string list"

record role_entry =
  re_admin :: bool
  re_active :: bool
  re_username :: string
  re_at :: int

record sc_db = nt_db +
  scripts :: "script_row list"
  scenarios :: "scenario_row list"
  scenario_nodes :: "node_row list"
  scenario_edges :: "edge_row list"
  scenario_runs :: "run_row list"
  scenario_node_runs :: "node_run_row list"
  scenario_cooldown_state :: "cooldown_row list"
  pendingFanOuts :: "(string \<times> pending_fan_out) list"
  timers :: "(int \<times> string) list"
  rebaseline_jobs :: "nat list list"
  app_epoch :: "int option"
  epoch_ms :: "int option"
  verdicts :: "((nat \<times> int \<times> nat \<times> nat) \<times> (string option \<times> int)) list"
  roles :: "(nat \<times> role_entry) list"
  skipRecordedAt :: "((nat \<times> nat) \<times> int) list"

definition scenario_by_id :: "'a sc_db_scheme \<Rightarrow> nat \<Rightarrow> scenario_row option" where
  "scenario_by_id w i = find (\<lambda>s. scn_id s = i) (scenarios w)"

definition run_by_id :: "'a sc_db_scheme \<Rightarrow> string \<Rightarrow> run_row option" where
  "run_by_id w i = find (\<lambda>r. run_id r = i) (scenario_runs w)"

definition node_by_id :: "'a sc_db_scheme \<Rightarrow> nat \<Rightarrow> node_row option" where
  "node_by_id w i = find (\<lambda>n. nd_id n = i) (scenario_nodes w)"

definition update_run :: "string \<Rightarrow> (run_row \<Rightarrow> run_row) \<Rightarrow> 'a sc_db_scheme \<Rightarrow> 'a sc_db_scheme" where
  "update_run i f w = w\<lparr>scenario_runs := tbl_update (\<lambda>r. run_id r = i) f (scenario_runs w)\<rparr>"

text \<open>\<open>a || b\<close> on optional texts: an empty text counts as missing.\<close>

definition text_or :: "string option \<Rightarrow> string \<Rightarrow> string" where
  "text_or a b = (case a of None \<Rightarrow> b | Some s \<Rightarrow> if s = [] then b else s)"

definition device_label :: "'a org_scheme \<Rightarrow> nat \<Rightarrow> string" where
  "device_label w d =
     (case device_by_id w d of
        None \<Rightarrow> ''#'' @ show_nat d
      | Some r \<Rightarrow> text_or (dev_display_name r) (text_or (Some (dev_hostname r)) (''#'' @ show_nat d)))"

section \<open>Targets of an action\<close>

definition finite_positive :: "jsnum \<Rightarrow> rat option" where
  "finite_positive x = (case x of Fin q \<Rightarrow> if q > 0 then Some q else None | NonFin \<Rightarrow> None)"

definition resolveActionTargets :: "run_row \<Rightarrow> node_row \<Rightarrow> rat list" where
  "resolveActionTargets run node =
     (let cfg = nd_config node
      in case cf_target_ids cfg of
           Some xs \<Rightarrow>
             if cf_target_mode cfg = Some ''devices''
             then let ids = List.map_filter finite_positive xs
                  in if ids \<noteq> [] then ids else [of_nat (run_device run)]
             else [of_nat (run_device run)]
         | None \<Rightarrow> [of_nat (run_device run)])"

text \<open>An id that is not a 32-bit integer makes the query fail (\<open>None\<close>).\<close>

definition validateTargetsInTenant :: "'a sc_db_scheme \<Rightarrow> nat \<Rightarrow> rat list \<Rightarrow> nat \<Rightarrow> nat list option" where
  "validateTargetsInTenant w tenant ids scenario =
     (if ids = [] then Some []
      else if list_ex (\<lambda>q. id_in_range q = None) ids then None
      else let bypass = (scenario \<noteq> 0 \<and> (case scenario_by_id w scenario of None \<Rightarrow> False | Some s \<Rightarrow> scn_bypass s));
               rows = filter (\<lambda>d. dev_tenant d = tenant \<and> of_nat (dev_id d) \<in> set ids) (devices w)
           in Some (map dev_id (filter (\<lambda>d. bypass \<or> \<not> dev_privacy d) rows)))"

section \<open>Edges\<close>

fun edgeMatches :: "edge_condition \<Rightarrow> int option \<Rightarrow> bool" where
  "edgeMatches CondAlways e \<longleftrightarrow> True"
| "edgeMatches CondDefault e \<longleftrightarrow> False"
| "edgeMatches (CondEq v) e \<longleftrightarrow> e = Some v"
| "edgeMatches (CondIn vs) e \<longleftrightarrow> (case e of None \<Rightarrow> False | Some x \<Rightarrow> x \<in> set vs)"
| "edgeMatches (CondNeq v) e \<longleftrightarrow> e \<noteq> Some v"

definition pickNextEdge :: "'a sc_db_scheme \<Rightarrow> nat \<Rightarrow> nat \<Rightarrow> int option \<Rightarrow> edge_row option" where
  "pickNextEdge w scenario fromNode exitCode =
     (let edges = sort_key ed_sort (filter (\<lambda>e. ed_scenario e = scenario \<and> ed_source e = fromNode) (scenario_edges w))
      in case find (\<lambda>e. ed_condition e \<noteq> CondDefault \<and> edgeMatches (ed_condition e) exitCode) edges of
           Some e \<Rightarrow> Some e
         | None \<Rightarrow> find (\<lambda>e. ed_condition e = CondDefault) edges)"

section \<open>Cooldown windows\<close>

text \<open>\<open>parseFloat\<close>: the longest decimal literal at the start of the text, after white space.\<close>

definition digits_val :: "string \<Rightarrow> rat" where
  "digits_val ds = of_nat (read_nat ds)"

definition parse_exponent :: "string \<Rightarrow> int" where
  "parse_exponent s =
     (case s of
        c # cs \<Rightarrow>
          if c = CHR ''e'' \<or> c = CHR ''E''
          then (case cs of
                  d # ds \<Rightarrow>
                    if d = CHR ''-'' then - int (read_nat (takeWhile is_digit ds))
                    else if d = CHR ''+'' then int (read_nat (takeWhile is_digit ds))
                    else int (read_nat (takeWhile is_digit cs))
                | [] \<Rightarrow> 0)
          else 0
      | [] \<Rightarrow> 0)"

definition rat_pow10 :: "int \<Rightarrow> rat" where
  "rat_pow10 e = (if e \<ge> 0 then 10 ^ nat e else 1 / 10 ^ nat (- e))"

definition parseFloat :: "string \<Rightarrow> jsnum" where
  "parseFloat s0 =
     (let s = dropWhile is_space s0;
          neg = (s \<noteq> [] \<and> hd s = CHR ''-'');
          body = (if s \<noteq> [] \<and> (hd s = CHR ''-'' \<or> hd s = CHR ''+'') then tl s else s);
          ip = takeWhile is_digit body;
          r1 = dropWhile is_digit body;
          fp = (if r1 \<noteq> [] \<and> hd r1 = CHR ''.'' then takeWhile is_digit (tl r1) else []);
          r2 = (if r1 \<noteq> [] \<and> hd r1 = CHR ''.'' then dropWhile is_digit (tl r1) else r1);
          v = (digits_val ip + digits_val fp / 10 ^ length fp) * rat_pow10 (parse_exponent r2)
      in if ip = [] \<and> fp = [] then NonFin else Fin (if neg then - v else v))"

definition cooldownToSeconds :: "duration option \<Rightarrow> string option \<Rightarrow> int" where
  "cooldownToSeconds dur unit =
     (let n = (case dur of Some (DurNum x) \<Rightarrow> x | Some (DurText s) \<Rightarrow> parseFloat s | None \<Rightarrow> parseFloat [])
      in case n of
           NonFin \<Rightarrow> 0
         | Fin q \<Rightarrow>
             if q \<le> 0 then 0
             else let u = (case unit of None \<Rightarrow> ''minutes'' | Some u \<Rightarrow> u)
                  in if u = ''seconds'' then \<lfloor>q\<rfloor>
                     else if u = ''minutes'' then \<lfloor>q * 60\<rfloor>
                     else if u = ''hours'' then \<lfloor>q * 3600\<rfloor>
                     else if u = ''days'' then \<lfloor>q * 86400\<rfloor>
                     else if u = ''months'' then \<lfloor>q * 86400 * 30\<rfloor>
                     else \<lfloor>q * 60\<rfloor>)"

section \<open>Ending a node and a run\<close>

definition run_update_payload :: "run_row \<Rightarrow> json_obj" where
  "run_update_payload r =
     [(''id'', JStr (run_id r)), (''tenantId'', js_nat (Some (run_tenant r))), (''scenarioId'', js_nat (Some (run_scenario r))),
      (''deviceId'', js_nat (Some (run_device r))), (''status'', JStr (run_status r)),
      (''currentNodeId'', js_nat (run_current_node r)), (''lastExitCode'', js_int (run_last_exit r)),
      (''finishedAt'', js_date (run_finished r)), (''errorMessage'', js_str (run_error r))]"

definition emitRunUpdate :: "run_row \<Rightarrow> 'a sc_db_scheme \<Rightarrow> 'a sc_db_scheme" where
  "emitRunUpdate r w = emit (RTenant (run_tenant r)) ''SCENARIO_RUN_UPDATED'' (run_update_payload r) w"

definition dispatchScenarioChannelNotification ::
  "(string \<Rightarrow> bool) \<Rightarrow> run_row \<Rightarrow> bool \<Rightarrow> 'a sc_db_scheme \<Rightarrow> 'a sc_db_scheme" where
  "dispatchScenarioChannelNotification plugin r success w =
     (case scenario_by_id w (run_scenario r) of
        None \<Rightarrow> w
      | Some s \<Rightarrow>
          if scn_channels s = [] then w
          else if success \<and> \<not> scn_notify_success s then w
          else if \<not> success \<and> \<not> scn_notify_failure s then w
          else notify plugin (run_tenant r) (scn_channels s)
                 (device_result ''scenario'' (scn_name s) (device_label w (run_device r)) success) w)"

definition markRunSuccess :: "(string \<Rightarrow> bool) \<Rightarrow> string \<Rightarrow> 'a sc_db_scheme \<Rightarrow> 'a sc_db_scheme" where
  "markRunSuccess plugin i w =
     (let w1 = update_run i (\<lambda>r. r\<lparr>run_status := ''success'', run_finished := Some (now_ms w)\<rparr>) w
      in case run_by_id w1 i of
           None \<Rightarrow> w1
         | Some row \<Rightarrow> emitRunUpdate row (dispatchScenarioChannelNotification plugin row True w1))"

definition markRunFailure :: "(string \<Rightarrow> bool) \<Rightarrow> string \<Rightarrow> string \<Rightarrow> 'a sc_db_scheme \<Rightarrow> 'a sc_db_scheme" where
  "markRunFailure plugin i msg w =
     (let w1 = update_run i (\<lambda>r. r\<lparr>run_status := ''failure'', run_finished := Some (now_ms w), run_error := Some msg\<rparr>) w
      in case run_by_id w1 i of
           None \<Rightarrow> w1
         | Some row \<Rightarrow> emitRunUpdate row (dispatchScenarioChannelNotification plugin row False w1))"

definition horizontal_ellipsis :: string where "horizontal_ellipsis = [CHR 0xE2, CHR 0x80, CHR 0xA6]"

definition truncate_output :: "string option \<Rightarrow> string option" where
  "truncate_output v =
     (case v of None \<Rightarrow> None
      | Some s \<Rightarrow> Some (if length s > 16 * 1024
          then take (16 * 1024) s @ [CHR 0x0A] @ horizontal_ellipsis @ ''[truncated, full output '' @ show_nat (length s) @ '' chars]''
          else s))"

record node_result =
  res_exit :: "int option"
  res_stdout :: "string option"
  res_stderr :: "string option"
  res_error :: "string option"

definition node_update_payload :: "string \<Rightarrow> string \<Rightarrow> nat \<Rightarrow> string \<Rightarrow> nat option \<Rightarrow> node_result \<Rightarrow> nat option \<Rightarrow> json_obj" where
  "node_update_payload runId nodeRunId node status scenario res dev =
     [(''runId'', JStr runId), (''nodeRunId'', JStr nodeRunId), (''nodeId'', js_nat (Some node)), (''status'', JStr status),
      (''scenarioId'', js_nat scenario), (''exitCode'', js_int (res_exit res)), (''stdout'', js_str (truncate_output (res_stdout res))),
      (''stderr'', js_str (truncate_output (res_stderr res))), (''errorMessage'', js_str (res_error res)), (''deviceId'', js_nat dev)]"

definition completeNode :: "string \<Rightarrow> string \<Rightarrow> node_result \<Rightarrow> string \<Rightarrow> 'a sc_db_scheme \<Rightarrow> 'a sc_db_scheme" where
  "completeNode runId nodeRunId res status w =
     (let w1 = w\<lparr>scenario_node_runs := tbl_update (\<lambda>r. nr_id r = nodeRunId)
                  (\<lambda>r. r\<lparr>nr_status := status, nr_exit := res_exit res, nr_stdout := res_stdout res, nr_stderr := res_stderr res,
                         nr_error := res_error res, nr_finished := Some (now_ms w)\<rparr>) (scenario_node_runs w)\<rparr>;
          w2 = update_run runId (\<lambda>r. r\<lparr>run_last_exit := res_exit res, run_last_stdout := res_stdout res,
                  run_last_stderr := res_stderr res\<rparr>) w1
      in case (find (\<lambda>r. nr_id r = nodeRunId) (scenario_node_runs w2), run_by_id w2 runId) of
           (Some nr, Some run) \<Rightarrow>
             emit (RTenant (run_tenant run)) ''SCENARIO_NODE_UPDATED''
               (node_update_payload runId nodeRunId (nr_node nr) status (Some (run_scenario run)) res (Some (run_device run))) w2
         | _ \<Rightarrow> w2)"

end
