(* ===== verification/Scenario_Permission.thy ===== *)
theory Scenario_Permission
  imports Scenario_Schema
begin

text \<open>
  Who may make a scenario run where (\<^verbatim>\<open>server/src/services/scenarioPermission.service.ts\<close>): the devices a scenario
  touches, the first denial for a user, the gate of automatic runs on the accountable user with its one
  minute caches, and the hourly record of skipped runs. The key of the verdict cache is the tuple of the
  four numbers its text joins with colons.
\<close>

section \<open>Operations\<close>

definition acting_types :: "string list" where
  "acting_types = [''run_script'', ''run_command'', ''tag_device'', ''move_device_to_group'']"

text \<open>The nodes looked at: those about to be saved, or the stored ones of the scenario.\<close>

definition acting_nodes :: "'a sc_db_scheme \<Rightarrow> nat \<Rightarrow> nat option \<Rightarrow> node_row list option \<Rightarrow> node_row list" where
  "acting_nodes w scenario only pending =
     (case pending of
        Some ns \<Rightarrow> filter (\<lambda>n. nd_type n \<in> set acting_types) ns
      | None \<Rightarrow> filter (\<lambda>n. nd_scenario n = scenario \<and> nd_type n \<in> set acting_types \<and>
                  (case only of None \<Rightarrow> True | Some i \<Rightarrow> nd_id n = i)) (scenario_nodes w))"

definition override_ids :: "'a sc_db_scheme \<Rightarrow> nat \<Rightarrow> node_row \<Rightarrow> nat list" where
  "override_ids w tenant n =
     (case cf_target_ids (nd_config n) of
        Some xs \<Rightarrow>
          if cf_target_mode (nd_config n) = Some ''devices''
          then let ids = List.map_filter int_id xs
               in map dev_id (filter (\<lambda>d. dev_id d \<in> set ids \<and> dev_tenant d = tenant) (devices w))
          else []
      | None \<Rightarrow> [])"

definition is_exec_node :: "node_row \<Rightarrow> bool" where
  "is_exec_node n \<longleftrightarrow> nd_type n = ''run_script'' \<or> nd_type n = ''run_command''"

definition devicesTouched ::
  "'a sc_db_scheme \<Rightarrow> nat \<Rightarrow> nat \<Rightarrow> nat list \<Rightarrow> nat option \<Rightarrow> node_row list option \<Rightarrow> nat list \<times> nat list" where
  "devicesTouched w scenario tenant runDevices only pending =
     (let nodes = acting_nodes w scenario only pending
      in (uniq (runDevices @ concat (map (override_ids w tenant) (filter is_exec_node nodes))),
          uniq (concat (map (override_ids w tenant) (filter (\<lambda>n. \<not> is_exec_node n) nodes)))))"

datatype scenario_denial = DenyExecute nat | DenyWrite nat | DenyInvalid js_value

definition scenarioDenialFor ::
  "'a sc_db_scheme \<Rightarrow> nat \<Rightarrow> nat \<Rightarrow> nat \<Rightarrow> js_value list \<Rightarrow> nat option \<Rightarrow> node_row list option \<Rightarrow> scenario_denial option" where
  "scenarioDenialFor w user scenario tenant runDevices only pending =
     (case find (\<lambda>v. toDbId v = None) runDevices of
        Some v \<Rightarrow> Some (DenyInvalid v)
      | None \<Rightarrow>
          let (execIds, writeIds) = devicesTouched w scenario tenant (map (\<lambda>v. the (toDbId v)) runDevices) only pending
          in case devicesLackingCapability w user (map (\<lambda>d. Fin (of_nat d)) execIds) ''execute'' of
               d # _ \<Rightarrow> Some (DenyExecute d)
             | [] \<Rightarrow> (case find (\<lambda>d. \<not> canWriteDevice w user d False) writeIds of
                       Some d \<Rightarrow> Some (DenyWrite d) | None \<Rightarrow> None))"

definition initScenarioAccountability :: "'a sc_db_scheme \<Rightarrow> 'a sc_db_scheme" where
  "initScenarioAccountability w =
     (let e = (case app_epoch w of None \<Rightarrow> now_ms w | Some t \<Rightarrow> t)
      in w\<lparr>app_epoch := Some e, epoch_ms := Some e\<rparr>)"

definition verdict_ttl_ms :: int where "verdict_ttl_ms = 60000"

definition read_role :: "'a sc_db_scheme \<Rightarrow> nat \<Rightarrow> role_entry" where
  "read_role w u =
     (case find (\<lambda>r. usr_id r = u) (users w) of
        None \<Rightarrow> \<lparr>re_admin = False, re_active = False, re_username = ''#'' @ show_nat u, re_at = now_ms w\<rparr>
      | Some r \<Rightarrow> \<lparr>re_admin = (usr_role r = ''admin''), re_active = usr_active r, re_username = usr_username r, re_at = now_ms w\<rparr>)"

definition roleOf :: "nat \<Rightarrow> 'a sc_db_scheme \<Rightarrow> 'a sc_db_scheme \<times> role_entry" where
  "roleOf u w =
     (case map_of (roles w) u of
        Some c \<Rightarrow> if now_ms w - re_at c < verdict_ttl_ms then (w, c)
          else (w\<lparr>roles := map_set u (read_role w u) (roles w)\<rparr>, read_role w u)
      | None \<Rightarrow> (w\<lparr>roles := map_set u (read_role w u) (roles w)\<rparr>, read_role w u))"

definition inactive_reason :: "string \<Rightarrow> string" where
  "inactive_reason name = ''Not run: '' @ name @
     '', the user accountable for this scenario (last to save or enable it), is deactivated. '' @
     ''Someone allowed to run it on this device must enable it again.''"

definition denial_device :: "scenario_denial \<Rightarrow> nat" where
  "denial_device d = (case d of DenyExecute i \<Rightarrow> i | DenyWrite i \<Rightarrow> i | DenyInvalid v \<Rightarrow> 0)"

definition lacking_reason :: "string \<Rightarrow> scenario_denial \<Rightarrow> string" where
  "lacking_reason name d = ''Not run: '' @ name @
     '', the user accountable for this scenario (last to save or enable it), lacks '' @
     (case d of DenyWrite _ \<Rightarrow> ''write access'' | _ \<Rightarrow> [CHR 0x74, CHR 0x68, CHR 0x65, CHR 0x20, CHR 0x27] @ ''execute'' @ [CHR 0x27] @ '' capability'') @
     '' on device #'' @ show_nat (denial_device d) @ ''. '' @
     ''Grant it to their team, or have someone allowed on this device enable the scenario again.''"

text \<open>The verdict computed afresh for a non-administrator.\<close>

definition fresh_verdict :: "'a sc_db_scheme \<Rightarrow> nat \<Rightarrow> role_entry \<Rightarrow> scenario_row \<Rightarrow> nat \<Rightarrow> string option" where
  "fresh_verdict w user role s device =
     (if \<not> re_active role then Some (inactive_reason (re_username role))
      else map_option (lacking_reason (re_username role))
             (scenarioDenialFor w user (scn_id s) (scn_tenant s) [VNum (Fin (of_nat device))] None None))"

definition accountableUserDenial :: "scenario_row \<Rightarrow> nat \<Rightarrow> 'a sc_db_scheme \<Rightarrow> 'a sc_db_scheme \<times> string option" where
  "accountableUserDenial s device w =
     (case orElse (scn_updated_by s) (scn_created_by s) of
        None \<Rightarrow> (w, None)
      | Some user \<Rightarrow>
          let w1 = (if epoch_ms w = None then initScenarioAccountability w else w);
              stamp = (case scn_updated_at s of None \<Rightarrow> 0 | Some t \<Rightarrow> t)
          in if \<not> stamp \<ge> the (epoch_ms w1) then (w1, None)
             else let (w2, role) = roleOf user w1
                  in if re_admin role then (w2, None)
                     else let key = (scn_id s, stamp, user, device);
                              v = fresh_verdict w2 user role s device;
                              stored = (w2\<lparr>verdicts := map_set key (v, now_ms w2)
                                               (if length (verdicts w2) > 10000 then [] else verdicts w2)\<rparr>, v)
                          in case map_of (verdicts w2) key of
                               Some (d, t) \<Rightarrow> if now_ms w2 - t < verdict_ttl_ms then (w2, d) else stored
                             | None \<Rightarrow> stored)"

definition skip_record_interval_ms :: int where "skip_record_interval_ms = 60 * 60 * 1000"

definition shouldRecordSkippedRun :: "nat \<Rightarrow> nat \<Rightarrow> 'a sc_db_scheme \<Rightarrow> 'a sc_db_scheme \<times> bool" where
  "shouldRecordSkippedRun scenario device w =
     (let record_it = (w\<lparr>skipRecordedAt := map_set (scenario, device) (now_ms w)
                          (if length (skipRecordedAt w) > 20000 then [] else skipRecordedAt w)\<rparr>, True)
      in case map_of (skipRecordedAt w) (scenario, device) of
           Some at_ms \<Rightarrow> if now_ms w - at_ms < skip_record_interval_ms then (w, False) else record_it
         | None \<Rightarrow> record_it)"

section \<open>Properties\<close>

lemma int_id_of_nat: "int_id (Fin (of_nat n)) = (if n = 0 then None else Some n)"
  by (simp add: int_id_def)

lemma set_map_filter_of_nat: "set (List.map_filter int_id (map (\<lambda>d. Fin (of_nat d)) ds)) = {d \<in> set ds. d \<noteq> 0}"
  by (induction ds) (auto simp: map_filter_simps int_id_of_nat)

lemma toDbId_device: "0 < d \<Longrightarrow> d \<le> int4_max \<Longrightarrow> toDbId (VNum (Fin (of_nat d))) = Some d"
  by (simp add: id_in_range_iff)

lemma int_id_pos: "int_id x = Some n \<Longrightarrow> n \<noteq> 0"
  by (auto simp: int_id_def split: jsnum.splits if_splits)

lemma override_pos: "d \<in> set (override_ids w t n) \<Longrightarrow> d \<noteq> 0"
  using int_id_pos by (fastforce simp: override_ids_def Let_def map_filter_def split: option.splits if_splits)

text \<open>The devices a run on device \<open>d\<close> executes on, and those it only writes.\<close>

definition exec_devices :: "'a sc_db_scheme \<Rightarrow> scenario_row \<Rightarrow> nat \<Rightarrow> nat set" where
  "exec_devices w s d = insert d {x. \<exists>n \<in> set (scenario_nodes w). nd_scenario n = scn_id s \<and>
     nd_type n \<in> {''run_script'', ''run_command''} \<and> x \<in> set (override_ids w (scn_tenant s) n)}"

definition write_devices :: "'a sc_db_scheme \<Rightarrow> scenario_row \<Rightarrow> nat set" where
  "write_devices w s = {x. \<exists>n \<in> set (scenario_nodes w). nd_scenario n = scn_id s \<and>
     nd_type n \<in> {''tag_device'', ''move_device_to_group''} \<and> x \<in> set (override_ids w (scn_tenant s) n)}"

lemma touched_sets:
  assumes "devicesTouched w (scn_id s) (scn_tenant s) [d] None None = (ex, wr)"
  shows "set ex = exec_devices w s d \<and> set wr = write_devices w s"
proof -
  let ?nodes = "acting_nodes w (scn_id s) None None" and ?ids = "\<lambda>n. set (override_ids w (scn_tenant s) n)"
  have mem: "n \<in> set ?nodes \<longleftrightarrow> n \<in> set (scenario_nodes w) \<and> nd_scenario n = scn_id s \<and> nd_type n \<in> set acting_types" for n
    by (simp add: acting_nodes_def)
  have "set ex = insert d (\<Union>n \<in> {n \<in> set ?nodes. is_exec_node n}. ?ids n)"
    "set wr = (\<Union>n \<in> {n \<in> set ?nodes. \<not> is_exec_node n}. ?ids n)"
    using assms by (auto simp: devicesTouched_def Let_def)
  moreover have "{n \<in> set ?nodes. is_exec_node n} =
      {n \<in> set (scenario_nodes w). nd_scenario n = scn_id s \<and> nd_type n \<in> {''run_script'', ''run_command''}}"
    unfolding mem is_exec_node_def acting_types_def list.set by blast
  moreover have "nd_type n \<in> set acting_types \<and> \<not> is_exec_node n \<longleftrightarrow> nd_type n \<in> {''tag_device'', ''move_device_to_group''}" for n
    unfolding is_exec_node_def acting_types_def by auto
  then have "{n \<in> set ?nodes. \<not> is_exec_node n} =
      {n \<in> set (scenario_nodes w). nd_scenario n = scn_id s \<and> nd_type n \<in> {''tag_device'', ''move_device_to_group''}}"
    unfolding mem by blast
  ultimately show ?thesis unfolding exec_devices_def write_devices_def by blast
qed

lemma denial_None_iff:
  assumes "org_ids_ok w" and "0 < d" and "d \<le> int4_max"
  shows "scenarioDenialFor w u (scn_id s) (scn_tenant s) [VNum (Fin (of_nat d))] None None = None \<longleftrightarrow>
    (\<forall>x \<in> exec_devices w s d. canUseCapability w u x False ''execute'') \<and> (\<forall>x \<in> write_devices w s. canWriteDevice w u x False)"
proof -
  obtain ex wr where t: "devicesTouched w (scn_id s) (scn_tenant s) [d] None None = (ex, wr)" by fastforce
  have sets: "set ex = exec_devices w s d" "set wr = write_devices w s" using touched_sets [OF t] by auto
  have nz: "\<forall>x \<in> set ex. x \<noteq> 0" using assms(2) override_pos unfolding sets exec_devices_def by blast
  have "set (uniq (List.map_filter int_id (map (\<lambda>d. Fin (of_nat d)) ex))) = set ex"
    using nz by (simp only: set_uniq set_map_filter_of_nat) blast
  then have "devicesLackingCapability w u (map (\<lambda>d. Fin (of_nat d)) ex) ''execute'' = [] \<longleftrightarrow>
      (\<forall>x \<in> exec_devices w s d. canUseCapability w u x False ''execute'')"
    unfolding devicesLackingCapability_filter [OF assms(1)] filter_empty_conv sets by simp
  moreover have "find (\<lambda>d. \<not> canWriteDevice w u d False) wr = None \<longleftrightarrow> (\<forall>x \<in> write_devices w s. canWriteDevice w u x False)"
    by (auto simp: find_None_iff sets)
  ultimately show ?thesis
    unfolding scenarioDenialFor_def using toDbId_device [OF assms(2,3)]
    by (cases "devicesLackingCapability w u (map (\<lambda>d. Fin (of_nat d)) ex) ''execute''";
        cases "find (\<lambda>d. \<not> canWriteDevice w u d False) wr") (simp_all add: t del: not_None_eq)
qed

lemma roleOf_cold:
  "(\<forall>c. map_of (roles w) u = Some c \<longrightarrow> now_ms w - re_at c \<ge> verdict_ttl_ms) \<Longrightarrow>
   roleOf u w = (w\<lparr>roles := map_set u (read_role w u) (roles w)\<rparr>, read_role w u)"
  by (auto simp: roleOf_def split: option.split)

lemma org_tables_roles [simp]:
  "user_grants (w\<lparr>roles := x\<rparr>) = user_grants w" "group_grants (w\<lparr>roles := x\<rparr>) = group_grants w"
  "device_by_id (w\<lparr>roles := x\<rparr>) = device_by_id w" "override_ids (w\<lparr>roles := x\<rparr>) = override_ids w"
  "org_ids_ok (w\<lparr>roles := x\<rparr>) = org_ids_ok w"
  by (simp_all add: fun_eq_iff user_grants_def group_grants_def device_by_id_def override_ids_def org_ids_ok_def Let_def
      cong: option.case_cong if_cong)

lemma rights_roles [simp]:
  "canUseCapability (w\<lparr>roles := x\<rparr>) = canUseCapability w" "canWriteDevice (w\<lparr>roles := x\<rparr>) = canWriteDevice w"
  "exec_devices (w\<lparr>roles := x\<rparr>) = exec_devices w" "write_devices (w\<lparr>roles := x\<rparr>) = write_devices w"
  by (simp_all add: fun_eq_iff canUseCapability_def canWriteDevice_def getDevicePermission_def getHighestPermission_def
      getGroupPermissionViaClosure_def exec_devices_def write_devices_def cong: option.case_cong if_cong)

lemma fresh_verdict_None:
  assumes "org_ids_ok w" and "0 < d" and "d \<le> int4_max"
  shows "fresh_verdict (w\<lparr>roles := x\<rparr>) u (read_role w u) s d = None \<longleftrightarrow>
    re_active (read_role w u) \<and> (\<forall>x \<in> exec_devices w s d. canUseCapability w u x False ''execute'') \<and>
    (\<forall>x \<in> write_devices w s. canWriteDevice w u x False)"
  using denial_None_iff [of "w\<lparr>roles := x\<rparr>" d u s] assms by (simp add: fresh_verdict_def del: not_None_eq)


definition ex_config :: node_config where
  "ex_config = \<lparr>cf_target_mode = None, cf_target_ids = None, cf_duration = None, cf_unit = None, cf_script = None, cf_parameters = None,
     cf_timeout = None, cf_channels = [], cf_subject = None, cf_seconds = None, cf_command = None, cf_payload = None, cf_add = None,
     cf_remove = None, cf_group = None, cf_match = None, cf_value = None, cf_message = None\<rparr>"

definition ex_scenario :: scenario_row where
  "ex_scenario = \<lparr>scn_id = 1, scn_tenant = 2, scn_name = ''Nightly'', scn_bypass = True, scn_channels = [], scn_notify_success = False,
     scn_notify_failure = False, scn_updated_by = Some 7, scn_created_by = None, scn_updated_at = Some 100\<rparr>"

definition ex_sc :: sc_db where
  "ex_sc = nt_db.extend (ex_nt\<lparr>users := [\<lparr>usr_id = 7, usr_role = ''user'', usr_active = True, usr_username = ''eve'', usr_foreign = None\<rparr>],
       team_memberships := [\<lparr>tm_team = 1, tm_user = 7\<rparr>],
       team_permissions := [\<lparr>tp_team = 1, tp_scope = ScDevice, tp_scope_id = 4, tp_level = Ro, tp_caps = [''execute'']\<rparr>]\<rparr>)
     \<lparr>scripts = [], scenarios = [ex_scenario],
      scenario_nodes = [\<lparr>nd_id = 10, nd_scenario = 1, nd_type = ''trigger_manual'', nd_label = None, nd_config = ex_config\<rparr>,
        \<lparr>nd_id = 11, nd_scenario = 1, nd_type = ''run_command'', nd_label = None, nd_config = ex_config\<lparr>cf_command := Some ''reboot''\<rparr>\<rparr>],
      scenario_edges = [\<lparr>ed_id = 1, ed_scenario = 1, ed_source = 10, ed_target = 11, ed_condition = CondAlways, ed_sort = 0\<rparr>],
      scenario_runs = [], scenario_node_runs = [], scenario_cooldown_state = [], pendingFanOuts = [], timers = [], rebaseline_jobs = [],
      app_epoch = Some 50, epoch_ms = Some 50, verdicts = [], roles = [], skipRecordedAt = []\<rparr>"

lemmas ex_sc_defs = ex_sc_def ex_nt_def ex_cq_def ex_scenario_def ex_config_def nt_db.defs cq_db.defs


end
