(* ===== verification/Scenario_Executors.thy ===== *)
theory Scenario_Executors
  imports Scenario_Permission
begin

text \<open>
  What each node type of a scenario does (\<open>EXECUTORS\<close> of \<^verbatim>\<open>server/src/services/scenarioGraph.service.ts\<close>). An executor
  returns the state it leaves, also when it throws, and either the message of the error or its result. The
  timers of \<open>wait\<close> nodes are kept with the time they fire: \<open>setTimeout\<close> runs a delay below one millisecond or
  above 32 bits after one millisecond. A database error inside an executor has the text \<open>db_error\<close>.
\<close>

record exec_result =
  xr_awaits :: bool
  xr_terminate :: "bool option"
  xr_error :: "string option"
  xr_exit :: "int option"
  xr_stdout :: "string option"

definition exit_with :: "int option \<Rightarrow> exec_result" where
  "exit_with e = \<lparr>xr_awaits = False, xr_terminate = None, xr_error = None, xr_exit = e, xr_stdout = None\<rparr>"

definition awaits_ack :: exec_result where
  "awaits_ack = \<lparr>xr_awaits = True, xr_terminate = None, xr_error = None, xr_exit = None, xr_stdout = None\<rparr>"

definition db_error :: string where "db_error = ''database error''"

type_synonym 'a executor = "'a sc_db_scheme \<Rightarrow> 'a sc_db_scheme \<times> (string + exec_result)"

section \<open>Pacing\<close>

definition set_cooldown :: "nat \<Rightarrow> nat \<Rightarrow> nat \<Rightarrow> 'a sc_db_scheme \<Rightarrow> 'a sc_db_scheme" where
  "set_cooldown sc dev node w =
     (let hit = (\<lambda>c. cd_scenario c = sc \<and> cd_device c = dev \<and> cd_node c = node)
      in w\<lparr>scenario_cooldown_state :=
             (if list_ex hit (scenario_cooldown_state w)
              then tbl_update hit (\<lambda>c. c\<lparr>cd_last_pass := now_ms w\<rparr>) (scenario_cooldown_state w)
              else scenario_cooldown_state w @ [\<lparr>cd_scenario = sc, cd_device = dev, cd_node = node, cd_last_pass = now_ms w\<rparr>])\<rparr>)"

definition exec_cooldown :: "run_row \<Rightarrow> node_row \<Rightarrow> 'a executor" where
  "exec_cooldown run node w =
     (let seconds = cooldownToSeconds (cf_duration (nd_config node)) (cf_unit (nd_config node));
          pass = (set_cooldown (run_scenario run) (run_device run) (nd_id node) w, Inr (exit_with (Some 0)))
      in if seconds \<le> 0 then (w, Inr (exit_with (Some 0)))
         else case find (\<lambda>c. cd_scenario c = run_scenario run \<and> cd_device c = run_device run \<and> cd_node c = nd_id node)
                     (scenario_cooldown_state w) of
           Some c \<Rightarrow>
             let elapsedMs = now_ms w - cd_last_pass c
             in if elapsedMs < seconds * 1000
                then (w, Inr \<lparr>xr_awaits = False, xr_terminate = Some True, xr_error = None, xr_exit = Some (-1),
                       xr_stdout = Some (''cooldown active ('' @ show_nat (nat ((seconds * 1000 - elapsedMs) div 1000)) @ ''s remaining)'')\<rparr>)
                else pass
         | None \<Rightarrow> pass)"

definition timer_delay :: "rat \<Rightarrow> int" where
  "timer_delay ms = (if 1 \<le> ms \<and> ms \<le> 2147483647 then \<lfloor>ms\<rfloor> else 1)"

definition exec_wait :: "node_row \<Rightarrow> string \<Rightarrow> 'a executor" where
  "exec_wait node nodeRunId w =
     (let delayMs = max 0 ((case cf_seconds (nd_config node) of None \<Rightarrow> 0 | Some s \<Rightarrow> s) * 1000)
      in if delayMs = 0 then (w, Inr (exit_with (Some 0)))
         else (w\<lparr>timers := timers w @ [(now_ms w + timer_delay delayMs, nodeRunId)]\<rparr>, Inr awaits_ack))"

section \<open>Commands\<close>

text \<open>The loop over the targets: it stops at the first command the queue refuses.\<close>

fun enqueue_all :: "enqueue_args list \<Rightarrow> 'a executor" where
  "enqueue_all [] w = (w, Inr awaits_ack)"
| "enqueue_all (a # as) w =
     (case enqueue a w of (w', Some _) \<Rightarrow> enqueue_all as w' | (w', None) \<Rightarrow> (w', Inl db_error))"

definition register_fan_out :: "string \<Rightarrow> nat list \<Rightarrow> 'a sc_db_scheme \<Rightarrow> 'a sc_db_scheme" where
  "register_fan_out nodeRunId targets w =
     (if length targets > 1
      then w\<lparr>pendingFanOuts := map_set nodeRunId
              \<lparr>fo_expected = length targets, fo_received = 0, fo_worst = None, fo_stdouts = [], fo_stderrs = []\<rparr> (pendingFanOuts w)\<rparr>
      else w)"

definition bypasses :: "'a sc_db_scheme \<Rightarrow> nat \<Rightarrow> bool" where
  "bypasses w sc = (case scenario_by_id w sc of None \<Rightarrow> False | Some s \<Rightarrow> scn_bypass s)"

definition with_bypass :: "bool \<Rightarrow> json_obj \<Rightarrow> json_obj" where
  "with_bypass b p = (if b then obj_put ''bypassPrivacy'' (JBool True) p else p)"

definition node_command :: "run_row \<Rightarrow> string \<Rightarrow> string \<Rightarrow> json_obj \<Rightarrow> int \<Rightarrow> nat \<Rightarrow> enqueue_args" where
  "node_command run nodeRunId ty payload expires device =
     \<lparr>ea_device = device, ea_tenant = run_tenant run, ea_type = ty, ea_payload = payload, ea_priority = Some ''high'',
      ea_max_retries = 0, ea_expires_in = Some expires, ea_source_type = Some ''scenario_node'', ea_source_id = Some nodeRunId,
      ea_created_by = None\<rparr>"

definition script_payload :: "script_row \<Rightarrow> node_config \<Rightarrow> int \<Rightarrow> bool \<Rightarrow> json_obj" where
  "script_payload s cfg timeout byp = with_bypass byp
     [(''scriptId'', js_nat (Some (scr_id s))), (''runtime'', JStr (scr_runtime s)), (''content'', JStr (scr_content s)),
      (''parameters'', JObj (case cf_parameters cfg of None \<Rightarrow> [] | Some p \<Rightarrow> p)), (''timeoutSeconds'', js_int (Some timeout)),
      (''expectedExitCode'', js_int (Some (case scr_expected s of None \<Rightarrow> 0 | Some e \<Rightarrow> e))), (''runAs'', js_str (scr_run_as s))]"

definition exec_run_script :: "run_row \<Rightarrow> node_row \<Rightarrow> string \<Rightarrow> 'a executor" where
  "exec_run_script run node nodeRunId w =
     (let cfg = nd_config node
      in if \<not> truthy_id (cf_script cfg) then (w, Inl ''run_script node missing scriptId'')
         else case find (\<lambda>s. Some (scr_id s) = cf_script cfg \<and> scr_tenant s = run_tenant run) (scripts w) of
           None \<Rightarrow> (w, Inl (''run_script: script '' @ show_nat (the (cf_script cfg)) @ '' not found in tenant''))
         | Some s \<Rightarrow>
             (case validateTargetsInTenant w (run_tenant run) (resolveActionTargets run node) (run_scenario run) of
                None \<Rightarrow> (w, Inl db_error)
              | Some targets \<Rightarrow>
                  if targets = [] then (w, Inl ''run_script: no valid target device in tenant'')
                  else let timeout = (case orElse (cf_timeout cfg) (scr_timeout s) of None \<Rightarrow> 300 | Some t \<Rightarrow> t);
                           w1 = register_fan_out nodeRunId targets w;
                           payload = script_payload s cfg timeout (bypasses w (run_scenario run))
                       in enqueue_all (map (node_command run nodeRunId ''run_script'' payload (timeout + 300)) targets) w1))"

definition exec_run_command :: "run_row \<Rightarrow> node_row \<Rightarrow> string \<Rightarrow> 'a executor" where
  "exec_run_command run node nodeRunId w =
     (let cfg = nd_config node
      in if text_or (cf_command cfg) [] = [] then (w, Inl ''run_command node missing commandType'')
         else case validateTargetsInTenant w (run_tenant run) (resolveActionTargets run node) (run_scenario run) of
           None \<Rightarrow> (w, Inl db_error)
         | Some targets \<Rightarrow>
             if targets = [] then (w, Inl ''run_command: no valid target device in tenant'')
             else let w1 = register_fan_out nodeRunId targets w;
                      payload = with_bypass (bypasses w (run_scenario run)) (case cf_payload cfg of None \<Rightarrow> [] | Some p \<Rightarrow> p)
                  in enqueue_all (map (node_command run nodeRunId (the (cf_command cfg)) payload
                       (case cf_timeout cfg of None \<Rightarrow> 300 | Some t \<Rightarrow> t)) targets) w1)"

section \<open>Notifications\<close>

definition exec_send_notification :: "(string \<Rightarrow> bool) \<Rightarrow> run_row \<Rightarrow> node_row \<Rightarrow> 'a executor" where
  "exec_send_notification plugin run node w =
     (let cfg = nd_config node
      in if cf_channels cfg = [] then (w, Inr (exit_with (Some 0)))
         else let name = text_or (cf_subject cfg)
                    (text_or (map_option scn_name (scenario_by_id w (run_scenario run))) ''Scenario'');
                  deviceName = device_label w (run_device run);
                  success = (run_last_exit run = None \<or> run_last_exit run = Some 0);
                  w1 = notifyPerDevice plugin (run_tenant run) (cf_channels cfg) ''scenario'' name deviceName success w;
                  w2 = notify plugin (run_tenant run) (cf_channels cfg) (device_result ''scenario'' name deviceName success) w1
              in (w2, Inr (exit_with (Some 0))))"

section \<open>Devices\<close>

definition to_arr :: "tag_list option \<Rightarrow> string list" where
  "to_arr v = filter (\<lambda>x. x \<noteq> []) (map trim
     (case v of None \<Rightarrow> [] | Some (TagArr xs) \<Rightarrow> xs | Some (TagText s) \<Rightarrow> split_on CHR '','' s))"

definition next_tags :: "string list \<Rightarrow> string list \<Rightarrow> string list \<Rightarrow> string list" where
  "next_tags current remove add =
     (let kept = filter (\<lambda>t. t \<notin> set remove) (uniq current) in kept @ filter (\<lambda>t. t \<notin> set kept) (uniq add))"

definition tag_one :: "nat \<Rightarrow> string list \<Rightarrow> string list \<Rightarrow> 'a sc_db_scheme \<times> int \<Rightarrow> nat \<Rightarrow> 'a sc_db_scheme \<times> int" where
  "tag_one tenant add remove acc d =
     (let (w, worst) = acc; hit = (\<lambda>r. dev_id r = d \<and> dev_tenant r = tenant)
      in case find hit (devices w) of
           None \<Rightarrow> (w, 1)
         | Some row \<Rightarrow> (w\<lparr>devices := tbl_update hit (\<lambda>r. r\<lparr>dev_tags := next_tags (dev_tags row) remove add\<rparr>) (devices w)\<rparr>, worst))"

definition exec_tag_device :: "run_row \<Rightarrow> node_row \<Rightarrow> 'a executor" where
  "exec_tag_device run node w =
     (case validateTargetsInTenant w (run_tenant run) (resolveActionTargets run node) (run_scenario run) of
        None \<Rightarrow> (w, Inl db_error)
      | Some targets \<Rightarrow>
          if targets = [] then (w, Inl ''tag_device: no valid target device in tenant'')
          else let (w', worst) = foldl (tag_one (run_tenant run) (to_arr (cf_add (nd_config node))) (to_arr (cf_remove (nd_config node))))
                                   (w, 0) targets
               in (w', Inr (exit_with (Some worst))))"

definition exec_move_device :: "run_row \<Rightarrow> node_row \<Rightarrow> 'a executor" where
  "exec_move_device run node w =
     (let grp = cf_group (nd_config node)
      in if grp \<noteq> None \<and> find (\<lambda>g. Some (grp_id g) = grp \<and> grp_tenant g = run_tenant run) (device_groups w) = None
         then (w, Inl (''move_device_to_group: group '' @ show_nat (the grp) @ '' not in tenant''))
         else case validateTargetsInTenant w (run_tenant run) (resolveActionTargets run node) (run_scenario run) of
           None \<Rightarrow> (w, Inl db_error)
         | Some targets \<Rightarrow>
             if targets = [] then (w, Inl ''move_device_to_group: no valid target device in tenant'')
             else (w\<lparr>devices := tbl_update (\<lambda>r. dev_id r \<in> set targets \<and> dev_tenant r = run_tenant run)
                              (\<lambda>r. r\<lparr>dev_group := grp\<rparr>) (devices w),
                     rebaseline_jobs := rebaseline_jobs w @ [targets]\<rparr>, Inr (exit_with (Some 0))))"

section \<open>Branches and ends\<close>

definition exec_branch_on_device :: "run_row \<Rightarrow> node_row \<Rightarrow> 'a executor" where
  "exec_branch_on_device run node w =
     (let cfg = nd_config node;
          value = (case cf_value cfg of None \<Rightarrow> [] | Some v \<Rightarrow> v);
          verdict = (\<lambda>b. (w, Inr (exit_with (Some (if b then 0 else 1)))))
      in case device_by_id w (run_device run) of
           None \<Rightarrow> (w, Inr (exit_with (Some 1)))
         | Some dev \<Rightarrow>
             (case cf_match cfg of
                Some m \<Rightarrow>
                  if m = ''os_type'' then verdict (dev_os_type dev = value)
                  else if m = ''group'' then verdict ((case dev_group dev of None \<Rightarrow> [] | Some g \<Rightarrow> show_nat g) = value)
                  else if m = ''status'' then verdict (dev_status dev = value)
                  else if m = ''tag'' then verdict (value \<in> set (dev_tags dev))
                  else verdict ([] = value)
              | None \<Rightarrow> verdict ([] = value)))"

definition exec_end :: "bool \<Rightarrow> string option \<Rightarrow> 'a executor" where
  "exec_end success msg w =
     (w, Inr \<lparr>xr_awaits = False, xr_terminate = Some success, xr_error = msg, xr_exit = None, xr_stdout = None\<rparr>)"

definition trigger_types :: "string list" where
  "trigger_types = [''trigger_manual'', ''trigger_session_login'', ''trigger_machine_boot'', ''trigger_agent_approved'',
     ''trigger_group_join'', ''trigger_schedule_failure'', ''trigger_schedule_cron'', ''trigger_agent_back_online'',
     ''trigger_metric_warning'', ''trigger_metric_critical'', ''trigger_metric_custom'']"

text \<open>The table of executors; \<open>None\<close> for a node type it does not have.\<close>

definition executor :: "(string \<Rightarrow> bool) \<Rightarrow> run_row \<Rightarrow> node_row \<Rightarrow> string \<Rightarrow> ('a executor) option" where
  "executor plugin run node nodeRunId =
     (let ty = nd_type node
      in if ty \<in> set trigger_types then Some (\<lambda>w. (w, Inr (exit_with None)))
         else if ty = ''cooldown'' then Some (exec_cooldown run node)
         else if ty = ''run_script'' then Some (exec_run_script run node nodeRunId)
         else if ty = ''send_notification'' then Some (exec_send_notification plugin run node)
         else if ty = ''wait'' then Some (exec_wait node nodeRunId)
         else if ty = ''branch_exit_code'' then Some (\<lambda>w. (w, Inr (exit_with (run_last_exit run))))
         else if ty = ''run_command'' then Some (exec_run_command run node nodeRunId)
         else if ty = ''tag_device'' then Some (exec_tag_device run node)
         else if ty = ''move_device_to_group'' then Some (exec_move_device run node)
         else if ty = ''branch_on_device'' then Some (exec_branch_on_device run node)
         else if ty = ''end_success'' then Some (exec_end True (cf_message (nd_config node)))
         else if ty = ''end_failure''
         then Some (exec_end False (Some (case cf_message (nd_config node) of None \<Rightarrow> ''Ended via end_failure node'' | Some m \<Rightarrow> m)))
         else None)"

end
