(* ===== verification/Scenario_Engine.thy ===== *)
theory Scenario_Engine
  imports Scenario_Executors
begin

text \<open>
  The walk of a scenario run over its graph (\<^verbatim>\<open>server/src/services/scenarioGraph.service.ts\<close>): starting a run, executing
  a node, advancing along the edges, resuming on the acknowledgement of a command or of all commands of a
  fan-out, and re-arming the wait timers after a restart. \<open>executeNode1\<close> is one call of \<open>executeNode\<close> up to the call
  of the next one through \<open>_advance\<close>; the recursion ends because no node is visited more than 100 times in a
  run. Database errors outside the executors are not modelled. The last section links the engine with the
  acknowledgements and the expiry job of the command queue.
\<close>

section \<open>Walking the graph\<close>

definition max_node_visits :: nat where "max_node_visits = 100"

definition visits_of :: "run_row \<Rightarrow> nat \<Rightarrow> nat" where
  "visits_of r n = (case map_of (run_visits r) n of None \<Rightarrow> 0 | Some k \<Rightarrow> k)"

definition single_node_mark :: string where "single_node_mark = ''__single_node''"

definition advance :: "(string \<Rightarrow> bool) \<Rightarrow> string \<Rightarrow> nat \<Rightarrow> int option \<Rightarrow> 'a sc_db_scheme \<Rightarrow> 'a sc_db_scheme \<times> nat option" where
  "advance plugin runId fromNode exitCode w =
     (case run_by_id w runId of
        None \<Rightarrow> (w, None)
      | Some run \<Rightarrow>
          if (case run_trigger_source run of None \<Rightarrow> False | Some s \<Rightarrow> includes_str s single_node_mark)
          then (markRunSuccess plugin runId w, None)
          else case pickNextEdge w (run_scenario run) fromNode exitCode of
                 None \<Rightarrow> (markRunSuccess plugin runId w, None)
               | Some e \<Rightarrow> (w, Some (ed_target e)))"

definition node_name :: "node_row \<Rightarrow> string" where
  "node_name n = text_or (nd_label n) (nd_type n)"

definition cycle_message :: "node_row \<Rightarrow> string" where
  "cycle_message n = ''Node \"'' @ node_name n @ ''\" visited '' @ show_nat max_node_visits @ ''+ times '' @ em_dash @ '' likely cycle''"

text \<open>The bookkeeping before the executor: visit counter, current node, trace row, \<open>running\<close> event.\<close>

definition begin_node :: "run_row \<Rightarrow> node_row \<Rightarrow> 'a sc_db_scheme \<Rightarrow> 'a sc_db_scheme \<times> string" where
  "begin_node run node w =
     (let n = nd_id node; nodeRunId = uuid_pool w (next_uuid w);
          w1 = update_run (run_id run) (\<lambda>r. r\<lparr>run_current_node := Some n, run_visits := map_set n (visits_of run n + 1) (run_visits run)\<rparr>) w;
          w2 = w1\<lparr>next_uuid := next_uuid w + 1,
                  scenario_node_runs := scenario_node_runs w1 @ [\<lparr>nr_id = nodeRunId, nr_run = run_id run, nr_node = n, nr_type = nd_type node,
                    nr_status = ''running'', nr_exit = None, nr_stdout = None, nr_stderr = None, nr_error = None, nr_started = now_ms w,
                    nr_finished = None\<rparr>]\<rparr>
      in (emit (RTenant (run_tenant run)) ''SCENARIO_NODE_UPDATED''
            (node_update_payload (run_id run) nodeRunId n ''running'' (Some (run_scenario run))
               \<lparr>res_exit = None, res_stdout = None, res_stderr = None, res_error = None\<rparr> (Some (run_device run))) w2, nodeRunId))"

definition fail_node :: "(string \<Rightarrow> bool) \<Rightarrow> string \<Rightarrow> string \<Rightarrow> string \<Rightarrow> string \<Rightarrow> 'a sc_db_scheme \<Rightarrow> 'a sc_db_scheme" where
  "fail_node plugin runId nodeRunId nodeMsg runMsg w =
     markRunFailure plugin runId runMsg
       (completeNode runId nodeRunId \<lparr>res_exit = None, res_stdout = None, res_stderr = None, res_error = Some nodeMsg\<rparr> ''failed'' w)"

definition end_node :: "(string \<Rightarrow> bool) \<Rightarrow> string \<Rightarrow> string \<Rightarrow> bool \<Rightarrow> exec_result \<Rightarrow> 'a sc_db_scheme \<Rightarrow> 'a sc_db_scheme" where
  "end_node plugin runId nodeRunId success r w =
     (let w1 = completeNode runId nodeRunId
                 \<lparr>res_exit = xr_exit r, res_stdout = (if success then xr_error r else None), res_stderr = None,
                  res_error = (if success then None else xr_error r)\<rparr> (if success then ''success'' else ''failed'') w
      in if success then markRunSuccess plugin runId w1
         else markRunFailure plugin runId (case xr_error r of None \<Rightarrow> ''Scenario ended in failure node'' | Some m \<Rightarrow> m) w1)"

definition executeNode1 :: "(string \<Rightarrow> bool) \<Rightarrow> string \<Rightarrow> nat \<Rightarrow> 'a sc_db_scheme \<Rightarrow> 'a sc_db_scheme \<times> nat option" where
  "executeNode1 plugin runId nodeId w =
     (case run_by_id w runId of
        None \<Rightarrow> (w, None)
      | Some run \<Rightarrow>
          if run_status run \<noteq> ''running'' then (w, None)
          else case node_by_id w nodeId of
            None \<Rightarrow> (markRunFailure plugin runId (''Node '' @ show_nat nodeId @ '' not found'') w, None)
          | Some node \<Rightarrow>
              if visits_of run nodeId + 1 > max_node_visits then (markRunFailure plugin runId (cycle_message node) w, None)
              else let (w1, nodeRunId) = begin_node run node w
                   in case executor plugin run node nodeRunId of
                        None \<Rightarrow>
                          (fail_node plugin runId nodeRunId (''Unsupported node type: '' @ nd_type node)
                             (''Unsupported node type: '' @ nd_type node) w1, None)
                      | Some exec \<Rightarrow>
                          (case exec w1 of
                             (w2, Inl err) \<Rightarrow>
                               (fail_node plugin runId nodeRunId err (''Node \"'' @ node_name node @ ''\" failed: '' @ err) w2, None)
                           | (w2, Inr r) \<Rightarrow>
                               if xr_awaits r then (w2, None)
                               else case xr_terminate r of
                                 Some success \<Rightarrow> (end_node plugin runId nodeRunId success r w2, None)
                               | None \<Rightarrow>
                                   advance plugin runId nodeId (xr_exit r)
                                     (completeNode runId nodeRunId
                                        \<lparr>res_exit = xr_exit r, res_stdout = xr_stdout r, res_stderr = None, res_error = None\<rparr>
                                        ''success'' w2)))"

section \<open>What the steps keep\<close>

text \<open>The tables the executors never touch.\<close>

definition engine_view :: "'a sc_db_scheme \<Rightarrow> _" where
  "engine_view w = (scenario_runs w, scenario_nodes w, scenario_edges w, scenario_node_runs w, scenarios w, now_ms w)"

lemma engine_view_eq:
  "engine_view w' = engine_view w \<longleftrightarrow> scenario_runs w' = scenario_runs w \<and> scenario_nodes w' = scenario_nodes w \<and>
     scenario_edges w' = scenario_edges w \<and> scenario_node_runs w' = scenario_node_runs w \<and> scenarios w' = scenarios w \<and> now_ms w' = now_ms w"
  by (simp add: engine_view_def)

lemma view_emit [simp]: "engine_view (emit r ev p w) = engine_view w"
  by (simp add: engine_view_def emit_def)

lemma view_dispatch [simp]: "engine_view (dispatch p c t su b w) = engine_view w"
  by (simp add: engine_view_def dispatch_def split: option.split)

lemma view_notify [simp]: "engine_view (notify p t bs r w) = engine_view w"
  by (induction bs arbitrary: w) (auto split: option.split)

lemma view_notifyPerDevice [simp]: "engine_view (notifyPerDevice p t bs ty n d ok w) = engine_view w"
  by (induction bs arbitrary: w) auto

lemma view_enqueue: "enqueue a w = (w', r) \<Longrightarrow> engine_view w' = engine_view w"
  by (auto simp: enqueue_def Let_def insert_command_def engine_view_def emit_def split: prod.splits if_splits)

lemma view_enqueue_all: "enqueue_all as w = (w', r) \<Longrightarrow> engine_view w' = engine_view w"
  by (induction as arbitrary: w) (auto split: prod.splits option.splits dest: view_enqueue)

lemma view_fan_out [simp]: "engine_view (register_fan_out i ts w) = engine_view w"
  by (simp add: register_fan_out_def engine_view_def)

lemma view_tag_one: "tag_one t add rm (w, x) d = (w', y) \<Longrightarrow> engine_view w' = engine_view w"
  by (auto simp: tag_one_def engine_view_def Let_def split: option.splits)

lemma view_tags: "foldl (tag_one t add rm) (w, x) ds = (w', y) \<Longrightarrow> engine_view w' = engine_view w"
proof (induction ds arbitrary: w x)
  case (Cons d ds)
  obtain w1 x1 where "tag_one t add rm (w, x) d = (w1, x1)" by fastforce
  with Cons show ?case by (auto dest: view_tag_one)
qed simp

lemma view_executor:
  assumes "executor p run node i = Some ex" and "ex w = (w', r)"
  shows "engine_view w' = engine_view w"
proof -
  have "engine_view w' = engine_view w" if "exec_run_script run node i w = (w', r)"
    using that view_enqueue_all by (fastforce simp: exec_run_script_def Let_def split: option.splits if_splits)
  moreover have "engine_view w' = engine_view w" if "exec_run_command run node i w = (w', r)"
    using that view_enqueue_all by (fastforce simp: exec_run_command_def Let_def split: option.splits if_splits)
  moreover have "engine_view w' = engine_view w" if "exec_tag_device run node w = (w', r)"
    using that view_tags by (fastforce simp: exec_tag_device_def split: option.splits if_splits prod.splits)
  moreover have "engine_view w' = engine_view w" if "exec_send_notification p run node w = (w', r)"
    using that by (auto simp: exec_send_notification_def Let_def split: if_splits)
  moreover have "engine_view w' = engine_view w" if "exec_move_device run node w = (w', r)"
    using that by (auto simp: exec_move_device_def engine_view_def Let_def split: if_splits option.splits)
  moreover have "engine_view w' = engine_view w" if "exec_cooldown run node w = (w', r)"
    using that by (auto simp: exec_cooldown_def set_cooldown_def engine_view_def Let_def split: if_splits option.splits)
  moreover have "engine_view w' = engine_view w" if "exec_wait node i w = (w', r)"
    using that by (auto simp: exec_wait_def engine_view_def Let_def split: if_splits)
  moreover have "engine_view w' = engine_view w" if "exec_branch_on_device run node w = (w', r)"
    using that by (auto simp: exec_branch_on_device_def Let_def split: if_splits option.splits)
  ultimately show ?thesis
    using assms by (auto simp: executor_def exec_end_def Let_def split: if_splits)
qed

lemma run_by_id_update:
  assumes "\<And>r. run_id (f r) = run_id r"
  shows "run_by_id (update_run i f w) j = (if j = i then map_option f (run_by_id w i) else run_by_id w j)"
proof (cases "j = i")
  case True
  then show ?thesis
    using find_key_update [of run_id f i "scenario_runs w"] assms by (simp add: run_by_id_def update_run_def)
next
  case False
  then show ?thesis
    using find_key_update_other [of run_id f j "\<lambda>r. run_id r = i" "scenario_runs w"] assms by (auto simp: run_by_id_def update_run_def)
qed

lemma run_by_id_view: "engine_view w' = engine_view w \<Longrightarrow> run_by_id w' i = run_by_id w i"
  by (simp add: run_by_id_def engine_view_eq)

lemma run_by_idD: "run_by_id w i = Some r \<Longrightarrow> run_id r = i"
  by (auto simp: run_by_id_def dest: find_SomeD)

lemma node_by_idD: "node_by_id w n = Some node \<Longrightarrow> nd_id node = n \<and> node \<in> set (scenario_nodes w)"
  by (auto simp: node_by_id_def dest: find_SomeD)

lemma update_run_tables [simp]:
  "scenario_nodes (update_run i f w) = scenario_nodes w" "scenario_edges (update_run i f w) = scenario_edges w"
  "scenario_node_runs (update_run i f w) = scenario_node_runs w" "scenarios (update_run i f w) = scenarios w"
  "command_queue (update_run i f w) = command_queue w" "timers (update_run i f w) = timers w" "devices (update_run i f w) = devices w"
  "now_ms (update_run i f w) = now_ms w" "next_uuid (update_run i f w) = next_uuid w" "uuid_pool (update_run i f w) = uuid_pool w"
  by (simp_all add: update_run_def)

lemma view_channel_notification [simp]:
  "engine_view (dispatchScenarioChannelNotification p r ok w) = engine_view w"
  by (simp add: dispatchScenarioChannelNotification_def split: option.split)

lemma view_markRunSuccess:
  "engine_view (markRunSuccess p i w) =
     engine_view (update_run i (\<lambda>r. r\<lparr>run_status := ''success'', run_finished := Some (now_ms w)\<rparr>) w)"
  by (simp add: markRunSuccess_def emitRunUpdate_def Let_def split: option.split)

lemma view_markRunFailure:
  "engine_view (markRunFailure p i m w) =
     engine_view (update_run i (\<lambda>r. r\<lparr>run_status := ''failure'', run_finished := Some (now_ms w), run_error := Some m\<rparr>) w)"
  by (simp add: markRunFailure_def emitRunUpdate_def Let_def split: option.split)

lemma run_markRunSuccess:
  "run_by_id (markRunSuccess p i w) i = map_option (\<lambda>r. r\<lparr>run_status := ''success'', run_finished := Some (now_ms w)\<rparr>) (run_by_id w i)"
  using run_by_id_view [OF view_markRunSuccess [of p i w], of i] by (simp add: run_by_id_update)

lemma run_markRunFailure:
  "run_by_id (markRunFailure p i m w) i =
     map_option (\<lambda>r. r\<lparr>run_status := ''failure'', run_finished := Some (now_ms w), run_error := Some m\<rparr>) (run_by_id w i)"
  using run_by_id_view [OF view_markRunFailure [of p i m w], of i] by (simp add: run_by_id_update)

lemma run_completeNode:
  "run_by_id (completeNode i nr res st w) i =
     map_option (\<lambda>r. r\<lparr>run_last_exit := res_exit res, run_last_stdout := res_stdout res, run_last_stderr := res_stderr res\<rparr>) (run_by_id w i)"
proof -
  let ?w1 = "w\<lparr>scenario_node_runs := tbl_update (\<lambda>r. nr_id r = nr)
                  (\<lambda>r. r\<lparr>nr_status := st, nr_exit := res_exit res, nr_stdout := res_stdout res, nr_stderr := res_stderr res,
                         nr_error := res_error res, nr_finished := Some (now_ms w)\<rparr>) (scenario_node_runs w)\<rparr>"
  let ?w2 = "update_run i (\<lambda>r. r\<lparr>run_last_exit := res_exit res, run_last_stdout := res_stdout res, run_last_stderr := res_stderr res\<rparr>) ?w1"
  have "engine_view (completeNode i nr res st w) = engine_view ?w2"
    by (simp add: completeNode_def Let_def split: option.split)
  from run_by_id_view [OF this, of i] show ?thesis
    by (simp add: run_by_id_update) (simp add: run_by_id_def)
qed

lemma tables_completeNode [simp]:
  "scenario_nodes (completeNode i nr res st w) = scenario_nodes w" "scenario_edges (completeNode i nr res st w) = scenario_edges w"
  "scenarios (completeNode i nr res st w) = scenarios w" "command_queue (completeNode i nr res st w) = command_queue w"
  "timers (completeNode i nr res st w) = timers w" "devices (completeNode i nr res st w) = devices w"
  "length (scenario_node_runs (completeNode i nr res st w)) = length (scenario_node_runs w)"
  by (simp_all add: completeNode_def Let_def emit_def split: option.split)

lemma begin_node_run:
  assumes "run_by_id w i = Some run" and "begin_node run node w = (w1, nr)"
  shows "run_by_id w1 i = Some (run\<lparr>run_current_node := Some (nd_id node),
      run_visits := map_set (nd_id node) (visits_of run (nd_id node) + 1) (run_visits run)\<rparr>)"
    and "scenario_nodes w1 = scenario_nodes w" and "scenario_edges w1 = scenario_edges w" and "scenarios w1 = scenarios w"
    and "devices w1 = devices w" and "command_queue w1 = command_queue w" and "timers w1 = timers w"
    and "nr = uuid_pool w (next_uuid w)"
    and "\<exists>row. scenario_node_runs w1 = scenario_node_runs w @ [row] \<and> nr_id row = nr \<and> nr_run row = i \<and> nr_node row = nd_id node \<and> nr_status row = ''running''"
proof -
  have i: "run_id run = i" using run_by_idD [OF assms(1)] .
  let ?f = "\<lambda>r. r\<lparr>run_current_node := Some (nd_id node), run_visits := map_set (nd_id node) (visits_of run (nd_id node) + 1) (run_visits run)\<rparr>"
  have "scenario_runs w1 = scenario_runs (update_run i ?f w)"
    using assms(2) by (auto simp: begin_node_def Let_def i emit_def)
  then have "run_by_id w1 i = run_by_id (update_run i ?f w) i" by (simp add: run_by_id_def)
  then show "run_by_id w1 i = Some (?f run)" by (simp add: run_by_id_update assms(1))
  show "scenario_nodes w1 = scenario_nodes w" "scenario_edges w1 = scenario_edges w" "scenarios w1 = scenarios w"
    "devices w1 = devices w" "command_queue w1 = command_queue w" "timers w1 = timers w" "nr = uuid_pool w (next_uuid w)"
    "\<exists>row. scenario_node_runs w1 = scenario_node_runs w @ [row] \<and> nr_id row = nr \<and> nr_run row = i \<and> nr_node row = nd_id node \<and> nr_status row = ''running''"
    using assms(2) by (auto simp: begin_node_def Let_def i emit_def)
qed

lemma advance_next: "advance p i n e w = (w', Some m) \<Longrightarrow> w' = w \<and> (\<exists>run e'. run_by_id w i = Some run \<and>
    pickNextEdge w (run_scenario run) n e = Some e' \<and> m = ed_target e')"
  by (auto simp: advance_def split: option.splits if_splits)

lemma executeNode1_next:
  assumes "executeNode1 p i n w = (w', Some m)"
  shows "\<exists>run node w1 nr ex w2 r. run_by_id w i = Some run \<and> run_status run = ''running'' \<and> node_by_id w n = Some node \<and>
    visits_of run n < max_node_visits \<and> begin_node run node w = (w1, nr) \<and> executor p run node nr = Some ex \<and> ex w1 = (w2, Inr r) \<and>
    w' = completeNode i nr \<lparr>res_exit = xr_exit r, res_stdout = xr_stdout r, res_stderr = None, res_error = None\<rparr> ''success'' w2"
  using assms by (auto simp: executeNode1_def split: option.splits if_splits prod.splits sum.splits dest!: advance_next)

section \<open>Termination\<close>

definition visit_budget :: "'a sc_db_scheme \<Rightarrow> string \<Rightarrow> nat" where
  "visit_budget w i = (case run_by_id w i of None \<Rightarrow> 0
     | Some r \<Rightarrow> (\<Sum>n \<in> nd_id ` set (scenario_nodes w). max_node_visits - visits_of r n))"

lemma visits_map_set:
  "visits_of (r\<lparr>run_current_node := c, run_visits := map_set n k (run_visits r)\<rparr>) m = (if m = n then k else visits_of r m)"
  by (simp add: visits_of_def)

lemma visits_complete [simp]:
  "visits_of (r\<lparr>run_last_exit := a, run_last_stdout := b, run_last_stderr := c\<rparr>) = visits_of r"
  by (simp add: visits_of_def fun_eq_iff)

lemma step_run:
  assumes "executeNode1 p i n w = (w', Some m)"
  obtains run run' where "run_by_id w i = Some run" "run_by_id w' i = Some run'" "run_status run = ''running''" "run_status run' = ''running''"
    "visits_of run' = (visits_of run)(n := visits_of run n + 1)" "visits_of run n < max_node_visits" "n \<in> nd_id ` set (scenario_nodes w)"
    "scenario_nodes w' = scenario_nodes w" "length (scenario_node_runs w') = length (scenario_node_runs w) + 1"
    "run_tenant run' = run_tenant run" "run_scenario run' = run_scenario run" "run_device run' = run_device run"
proof -
  obtain run node w1 nr ex w2 r where *: "run_by_id w i = Some run" "run_status run = ''running''" "node_by_id w n = Some node"
    "visits_of run n < max_node_visits" "begin_node run node w = (w1, nr)" "executor p run node nr = Some ex" "ex w1 = (w2, Inr r)"
    "w' = completeNode i nr \<lparr>res_exit = xr_exit r, res_stdout = xr_stdout r, res_stderr = None, res_error = None\<rparr> ''success'' w2"
    using executeNode1_next [OF assms] by blast
  have n: "nd_id node = n" "n \<in> nd_id ` set (scenario_nodes w)" using node_by_idD [OF *(3)] by auto
  have v: "engine_view w2 = engine_view w1" using view_executor [OF *(6,7)] .
  note b = begin_node_run [OF *(1,5)]
  let ?run' = "run\<lparr>run_current_node := Some n, run_visits := map_set n (visits_of run n + 1) (run_visits run)\<rparr>"
  let ?run'' = "?run'\<lparr>run_last_exit := xr_exit r, run_last_stdout := xr_stdout r, run_last_stderr := None\<rparr>"
  have "run_by_id w' i = Some ?run''"
    using b(1) run_by_id_view [OF v] by (simp add: *(8) run_completeNode n(1))
  moreover have "visits_of ?run'' = (visits_of run)(n := visits_of run n + 1)"
    by (simp add: fun_eq_iff visits_map_set)
  moreover have "scenario_nodes w' = scenario_nodes w" "length (scenario_node_runs w') = length (scenario_node_runs w) + 1"
    using v b by (auto simp: *(8) engine_view_eq)
  ultimately show thesis using that [OF *(1)] *(2,4) n(2) by simp
qed

lemma step_decreases: "executeNode1 p i n w = (w', Some m) \<Longrightarrow> visit_budget w' i < visit_budget w i"
proof (elim step_run)
  fix run run'
  assume r: "run_by_id w i = Some run" "run_by_id w' i = Some run'" "visits_of run' = (visits_of run)(n := visits_of run n + 1)"
    "visits_of run n < max_node_visits" "n \<in> nd_id ` set (scenario_nodes w)" "scenario_nodes w' = scenario_nodes w"
  have "(\<Sum>k \<in> nd_id ` set (scenario_nodes w). max_node_visits - visits_of run' k) < (\<Sum>k \<in> nd_id ` set (scenario_nodes w). max_node_visits - visits_of run k)"
    by (rule sum_strict_mono_ex1) (use r in \<open>auto intro!: bexI [of _ n]\<close>)
  with r show ?thesis by (simp add: visit_budget_def)
qed

function executeNode :: "(string \<Rightarrow> bool) \<Rightarrow> string \<Rightarrow> nat \<Rightarrow> 'a sc_db_scheme \<Rightarrow> 'a sc_db_scheme" where
  "executeNode plugin runId nodeId w =
     (case executeNode1 plugin runId nodeId w of
        (w', None) \<Rightarrow> w'
      | (w', Some nextNode) \<Rightarrow> executeNode plugin runId nextNode w')"
  by pat_completeness auto

termination
  by (relation "measure (\<lambda>(plugin, runId, nodeId, w). visit_budget w runId)") (auto dest!: sym [of "(_, _)"] step_decreases)

declare executeNode.simps [simp del]

text \<open>How one call that does not go on leaves the trace: at most one more row, none removed.\<close>

lemma tables_mark [simp]:
  "scenario_node_runs (markRunSuccess p i w) = scenario_node_runs w" "scenario_node_runs (markRunFailure p i m w) = scenario_node_runs w"
  "scenario_nodes (markRunSuccess p i w) = scenario_nodes w" "scenario_nodes (markRunFailure p i m w) = scenario_nodes w"
  "scenarios (markRunSuccess p i w) = scenarios w" "scenarios (markRunFailure p i m w) = scenarios w"
  using view_markRunSuccess [of p i w] view_markRunFailure [of p i m w] by (auto simp: engine_view_eq)

lemma length_fail_end [simp]:
  "length (scenario_node_runs (fail_node p i nr a b w)) = length (scenario_node_runs w)"
  "length (scenario_node_runs (end_node p i nr ok r w)) = length (scenario_node_runs w)"
  by (simp_all add: fail_node_def end_node_def Let_def)

lemma advance_length: "advance p i n e w = (w', m) \<Longrightarrow> scenario_node_runs w' = scenario_node_runs w"
  by (auto simp: advance_def split: option.splits if_splits)

lemma executeNode1_stop_length:
  assumes "executeNode1 p i n w = (w', None)"
  shows "length (scenario_node_runs w') \<le> length (scenario_node_runs w) + 1 \<and>
    (visit_budget w i = 0 \<longrightarrow> length (scenario_node_runs w') = length (scenario_node_runs w))"
proof (cases "\<exists>run node. run_by_id w i = Some run \<and> run_status run = ''running'' \<and> node_by_id w n = Some node \<and> visits_of run n < max_node_visits")
  case False
  then have "length (scenario_node_runs w') = length (scenario_node_runs w)"
    using assms by (auto simp: executeNode1_def split: option.splits if_splits)
  then show ?thesis by simp
next
  case True
  then obtain run node where r: "run_by_id w i = Some run" "run_status run = ''running''" "node_by_id w n = Some node" "visits_of run n < max_node_visits"
    by blast
  obtain w1 nr where b: "begin_node run node w = (w1, nr)" by fastforce
  have len1: "length (scenario_node_runs w1) = length (scenario_node_runs w) + 1" using begin_node_run(9) [OF r(1) b] by auto
  have "length (scenario_node_runs w2) = length (scenario_node_runs w1)" if "executor p run node nr = Some ex" "ex w1 = (w2, x)" for ex w2 x
    using view_executor [OF that] by (simp add: engine_view_eq)
  then have "length (scenario_node_runs w') = length (scenario_node_runs w1)"
    using assms r b by (auto simp: executeNode1_def split: option.splits if_splits prod.splits sum.splits dest!: advance_length)
  moreover have "visit_budget w i \<noteq> 0"
    using r node_by_idD [OF r(3)] by (auto simp: visit_budget_def intro!: bexI [of _ node])
  ultimately show ?thesis using len1 by simp
qed

lemma trace_within_budget:
  "length (scenario_node_runs (executeNode p i n w)) \<le> length (scenario_node_runs w) + visit_budget w i"
proof (induction p i n w rule: executeNode.induct)
  case (1 p i n w)
  obtain w' nx where e: "executeNode1 p i n w = (w', nx)" by fastforce
  show ?case
  proof (cases nx)
    case None
    with e executeNode1_stop_length [of p i n w w'] show ?thesis by (subst executeNode.simps) fastforce
  next
    case (Some m)
    have s: "executeNode1 p i n w = (w', Some m)" using e Some by simp
    have "length (scenario_node_runs w') = length (scenario_node_runs w) + 1" using s by (elim step_run)
    moreover have "visit_budget w' i < visit_budget w i" using s by (rule step_decreases)
    ultimately show ?thesis using 1 [OF e [symmetric] Some] s by (subst executeNode.simps) simp
  qed
qed

lemma budget_bound: "visit_budget w i \<le> max_node_visits * card (nd_id ` set (scenario_nodes w))"
proof (cases "run_by_id w i")
  case (Some r)
  have "(\<Sum>n \<in> nd_id ` set (scenario_nodes w). max_node_visits - visits_of r n) \<le> (\<Sum>n \<in> nd_id ` set (scenario_nodes w). max_node_visits)"
    by (rule sum_mono) simp
  with Some show ?thesis by (simp add: visit_budget_def mult.commute)
qed (simp add: visit_budget_def)

text \<open>
  C10. The engine always comes to rest, whatever cycles the graph has: walking on from a node adds at most 100
  trace rows per node of the graph.
\<close>

theorem engine_trace_bounded:
  "length (scenario_node_runs (executeNode p i n w)) \<le> length (scenario_node_runs w) + 100 * card (nd_id ` set (scenario_nodes w))"
  using trace_within_budget [of p i n w] budget_bound [of w i] by (simp add: max_node_visits_def)

end
