(* ===== verification/Scenario_Runs.thy ===== *)
theory Scenario_Runs
  imports Scenario_Engine
begin

text \<open>
  What a run of the scenario engine guarantees: it never gets stuck, it only sends commands to devices of its
  own tenant that are not in privacy mode, and a finished run stays finished.
\<close>

section \<open>A run is finished or waits for something\<close>

definition waits_for :: "'a sc_db_scheme \<Rightarrow> string \<Rightarrow> bool" where
  "waits_for w nr \<longleftrightarrow>
     (\<exists>c \<in> set (command_queue w). cq_source_type c = Some ''scenario_node'' \<and> cq_source_id c = Some nr \<and> cq_status c = ''pending'') \<or>
     nr \<in> snd ` set (timers w)"

definition at_rest :: "'a sc_db_scheme \<Rightarrow> string \<Rightarrow> bool" where
  "at_rest w i \<longleftrightarrow> (\<exists>run. run_by_id w i = Some run \<and>
     (run_status run \<in> {''success'', ''failure''} \<or>
      run_status run = ''running'' \<and>
      (\<exists>row \<in> set (scenario_node_runs w). nr_run row = i \<and> Some (nr_node row) = run_current_node run \<and> nr_status row = ''running'' \<and>
         waits_for w (nr_id row))))"

lemma enqueue_queue: "enqueue a w = (w', r) \<Longrightarrow> set (command_queue w) \<subseteq> set (command_queue w')"
  using queue_enqueue [of a w] by auto

lemma enqueue_all_mono: "enqueue_all as w = (w', r) \<Longrightarrow> set (command_queue w) \<subseteq> set (command_queue w')"
proof (induction as arbitrary: w)
  case (Cons a as)
  obtain w1 x where e: "enqueue a w = (w1, x)" by fastforce
  with Cons enqueue_queue [OF e] show ?case by (auto split: option.splits)
qed simp

lemma enqueue_all_first:
  assumes "enqueue_all (a # as) w = (w', Inr r)"
  shows "\<exists>c \<in> set (command_queue w'). cq_source_type c = ea_source_type a \<and> cq_source_id c = ea_source_id a \<and> cq_status c = ''pending''"
proof -
  obtain w1 x where e: "enqueue a w = (w1, x)" by fastforce
  with assms obtain v where v: "x = Some v" "enqueue_all as w1 = (w', Inr r)" by (auto split: option.splits)
  have "\<exists>c \<in> set (command_queue w1). cq_source_type c = ea_source_type a \<and> cq_source_id c = ea_source_id a \<and> cq_status c = ''pending''"
    using e v(1) by (auto simp: enqueue_def Let_def insert_command_def split: prod.splits if_splits)
  with enqueue_all_mono [OF v(2)] show ?thesis by blast
qed

lemma targets_nonempty:
  "targets \<noteq> [] \<Longrightarrow> enqueue_all (map (node_command run nr ty pl ex) targets) w = (w', Inr r) \<Longrightarrow> waits_for w' nr"
  using enqueue_all_first [of "node_command run nr ty pl ex (hd targets)" "map (node_command run nr ty pl ex) (tl targets)"]
  by (cases targets) (auto simp: node_command_def waits_for_def)

lemma sync_executors:
  "exec_cooldown run node w = (w', Inr r) \<Longrightarrow> \<not> xr_awaits r"
  "exec_send_notification p run node w = (w', Inr r) \<Longrightarrow> \<not> xr_awaits r"
  "exec_tag_device run node w = (w', Inr r) \<Longrightarrow> \<not> xr_awaits r"
  "exec_move_device run node w = (w', Inr r) \<Longrightarrow> \<not> xr_awaits r"
  "exec_branch_on_device run node w = (w', Inr r) \<Longrightarrow> \<not> xr_awaits r"
  "exec_end ok m w = (w', Inr r) \<Longrightarrow> \<not> xr_awaits r"
proof -
  show "exec_cooldown run node w = (w', Inr r) \<Longrightarrow> \<not> xr_awaits r"
    by (auto simp: exec_cooldown_def Let_def exit_with_def split: if_splits option.splits)
  show "exec_send_notification p run node w = (w', Inr r) \<Longrightarrow> \<not> xr_awaits r"
    by (auto simp: exec_send_notification_def Let_def exit_with_def split: if_splits option.splits prod.splits)
  show "exec_tag_device run node w = (w', Inr r) \<Longrightarrow> \<not> xr_awaits r"
    by (auto simp: exec_tag_device_def Let_def exit_with_def split: if_splits option.splits prod.splits)
  show "exec_move_device run node w = (w', Inr r) \<Longrightarrow> \<not> xr_awaits r"
    by (auto simp: exec_move_device_def Let_def exit_with_def split: if_splits option.splits)
  have "exec_branch_on_device run node w \<in> range (\<lambda>c. (w, Inr (exit_with c)))"
  proof -
    define verdict where "verdict b = (w, Inr (exit_with (Some (if b then 0 else 1))) :: string + exec_result)" for b
    have v: "verdict b \<in> range (\<lambda>c. (w, Inr (exit_with c)))" "(w, Inr (exit_with c)) \<in> range (\<lambda>c. (w, Inr (exit_with c)))" for b c
      by (auto simp: verdict_def)
    show ?thesis unfolding exec_branch_on_device_def Let_def verdict_def [symmetric]
      by (simp add: v split: option.split)
  qed
  then show "exec_branch_on_device run node w = (w', Inr r) \<Longrightarrow> \<not> xr_awaits r" by (auto simp: exit_with_def)
  show "exec_end ok m w = (w', Inr r) \<Longrightarrow> \<not> xr_awaits r"
    by (auto simp: exec_end_def exit_with_def split: if_splits)
qed

lemma executor_waits:
  assumes "executor p run node nr = Some ex" and "ex w = (w', Inr r)" and "xr_awaits r"
  shows "waits_for w' nr"
proof -
  have "waits_for w' nr" if "exec_run_script run node nr w = (w', Inr r)"
    using that targets_nonempty by (fastforce simp: exec_run_script_def Let_def split: option.splits if_splits)
  moreover have "waits_for w' nr" if "exec_run_command run node nr w = (w', Inr r)"
    using that targets_nonempty by (fastforce simp: exec_run_command_def Let_def split: option.splits if_splits)
  moreover have "waits_for w' nr" if "exec_wait node nr w = (w', Inr r)"
    using that assms(3) by (auto simp: exec_wait_def waits_for_def exit_with_def Let_def split: if_splits)
  ultimately show ?thesis
    using assms by (auto simp: executor_def Let_def exit_with_def split: if_splits dest: sync_executors)
qed

lemma run_fail_node:
  "run_by_id w i = Some run \<Longrightarrow> \<exists>run'. run_by_id (fail_node p i nr a b w) i = Some run' \<and> run_status run' = ''failure''"
  by (simp add: fail_node_def run_markRunFailure run_completeNode)

lemma run_end_node:
  "run_by_id w i = Some run \<Longrightarrow> \<exists>run'. run_by_id (end_node p i nr ok r w) i = Some run' \<and> run_status run' \<in> {''success'', ''failure''}"
  by (simp add: end_node_def run_markRunFailure run_markRunSuccess run_completeNode Let_def)

lemma advance_stop:
  assumes "advance p i n e w = (w', None)" and "run_by_id w i = Some run"
  shows "\<exists>run'. run_by_id w' i = Some run' \<and> run_status run' = ''success''"
  using assms by (auto simp: advance_def run_markRunSuccess split: option.splits if_splits)

lemma stop_at_rest:
  fixes w :: "'a sc_db_scheme"
  assumes "executeNode1 p i n w = (w', None)" and "run_by_id w i = Some run" and "run_status run = ''running''"
  shows "at_rest w' i"
proof (cases "\<exists>node. node_by_id w n = Some node \<and> visits_of run n < max_node_visits")
  case False
  then have "\<exists>run'. run_by_id w' i = Some run' \<and> run_status run' = ''failure''"
    using assms by (auto simp: executeNode1_def run_markRunFailure split: option.splits if_splits)
  then show ?thesis by (auto simp: at_rest_def)
next
  case True
  then obtain node where node: "node_by_id w n = Some node" "visits_of run n < max_node_visits" by blast
  obtain w1 nr where b: "begin_node run node w = (w1, nr)" by fastforce
  note bn = begin_node_run [OF assms(2) b]
  show ?thesis
  proof (cases "executor p run node nr :: ('a executor) option")
    case None
    then have "w' = fail_node p i nr (''Unsupported node type: '' @ nd_type node) (''Unsupported node type: '' @ nd_type node) w1"
      using assms node b by (simp add: executeNode1_def)
    then show ?thesis using run_fail_node [OF bn(1)] by (fastforce simp: at_rest_def)
  next
    case (Some ex)
    obtain w2 x where x: "ex w1 = (w2, x)" by fastforce
    have v: "engine_view w2 = engine_view w1" using view_executor [OF Some x] .
    have r2: "run_by_id w2 i = run_by_id w1 i" using run_by_id_view [OF v] .
    show ?thesis
    proof (cases x)
      case (Inl err)
      then have "w' = fail_node p i nr err (''Node \"'' @ node_name node @ ''\" failed: '' @ err) w2"
        using assms node b Some x by (simp add: executeNode1_def)
      then show ?thesis using run_fail_node [of w2 i] bn(1) r2 by (fastforce simp: at_rest_def)
    next
      case (Inr r)
      show ?thesis
      proof (cases "xr_awaits r")
        case True
        then have w': "w' = w2" using assms node b Some x Inr by (simp add: executeNode1_def)
        have "waits_for w2 nr" using executor_waits [OF Some] x Inr True by blast
        moreover have "scenario_node_runs w2 = scenario_node_runs w1" using v by (simp add: engine_view_eq)
        ultimately show ?thesis
          using bn(1,9) r2 assms(3) unfolding w' at_rest_def by fastforce
      next
        case False
        note nw = this
        show ?thesis
        proof (cases "xr_terminate r")
          case None
          let ?w3 = "completeNode i nr \<lparr>res_exit = xr_exit r, res_stdout = xr_stdout r, res_stderr = None, res_error = None\<rparr> ''success'' w2"
          have "advance p i n (xr_exit r) ?w3 = (w', None)"
            using assms node b Some x Inr nw None by (simp add: executeNode1_def)
          from advance_stop [OF this] show ?thesis
            using bn(1) r2 by (fastforce simp: at_rest_def run_completeNode)
        next
          case (Some ok)
          then have "w' = end_node p i nr ok r w2"
            using assms node b \<open>executor p run node nr = Some ex\<close> x Inr nw by (simp add: executeNode1_def)
          then show ?thesis using run_end_node [of w2 i] bn(1) r2 by (fastforce simp: at_rest_def)
        qed
      qed
    qed
  qed
qed

text \<open>
  C9. A run never gets stuck: when the engine comes to rest on a running run, the run has succeeded or failed, or
  it waits at its current node, whose trace row is running, for a pending command or a timer that resumes it.
\<close>

theorem engine_never_stuck:
  assumes "run_by_id w i = Some run" and "run_status run = ''running''"
  shows "at_rest (executeNode p i n w) i"
  using assms
proof (induction p i n w arbitrary: run rule: executeNode.induct)
  case (1 p i n w)
  obtain w' nx where e: "executeNode1 p i n w = (w', nx)" by fastforce
  show ?case
  proof (cases nx)
    case None
    with e 1(2,3) stop_at_rest show ?thesis by (subst executeNode.simps) auto
  next
    case (Some m)
    then have s: "executeNode1 p i n w = (w', Some m)" using e by simp
    then obtain run' where "run_by_id w' i = Some run'" "run_status run' = ''running''" by (elim step_run)
    from 1(1) [OF e [symmetric] Some this] s show ?thesis by (subst executeNode.simps) simp
  qed
qed

text \<open>An example: a manual run of the scenario, at its \<open>reboot\<close> node.\<close>

definition ex_run :: run_row where
  "ex_run = \<lparr>run_id = ''r1'', run_tenant = 2, run_scenario = 1, run_device = 4, run_trigger_type = ''manual'', run_trigger_source = None,
     run_status = ''running'', run_current_node = None, run_visits = [], run_last_exit = None, run_last_stdout = None,
     run_last_stderr = None, run_finished = None, run_error = None\<rparr>"

definition ex_walk :: sc_db where
  "ex_walk = ex_sc\<lparr>scenario_runs := [ex_run]\<rparr>"

lemma ex_walk_run: "run_by_id ex_walk ''r1'' = Some ex_run"
  by (simp add: ex_walk_def ex_run_def run_by_id_def)

theorem engine_never_stuck_witness: "at_rest (executeNode (\<lambda>_. True) ''r1'' 11 ex_walk) ''r1''"
  by (rule engine_never_stuck [OF ex_walk_run]) (simp add: ex_run_def)

section \<open>Whom a run may command\<close>

text \<open>A device of the tenant that is not in privacy mode, unless the scenario bypasses it.\<close>

definition may_target :: "'a sc_db_scheme \<Rightarrow> nat \<Rightarrow> nat \<Rightarrow> nat \<Rightarrow> bool" where
  "may_target w t sc d \<longleftrightarrow> (\<exists>b. (d, t, b) \<in> set (map (\<lambda>r. (dev_id r, dev_tenant r, dev_privacy r)) (devices w)) \<and> (b \<longrightarrow> bypasses w sc))"

text \<open>Queue and devices, as far as targets depend on them.\<close>

definition target_view :: "'a sc_db_scheme \<Rightarrow> _" where
  "target_view w = (command_queue w, map (\<lambda>r. (dev_id r, dev_tenant r, dev_privacy r)) (devices w), scenarios w)"

lemma may_target_view: "target_view w' = target_view w \<Longrightarrow> may_target w' = may_target w"
  by (simp add: may_target_def target_view_def bypasses_def scenario_by_id_def fun_eq_iff)

lemma validated_targets:
  assumes "validateTargetsInTenant w t ids sc = Some ts" and "d \<in> set ts"
  shows "may_target w t sc d"
proof -
  from assms obtain r where "r \<in> set (devices w)" "dev_id r = d" "dev_tenant r = t" "dev_privacy r \<longrightarrow> bypasses w sc"
    by (auto simp: validateTargetsInTenant_def bypasses_def Let_def split: if_splits)
  then show ?thesis unfolding may_target_def by (auto intro!: exI [of _ "dev_privacy r"] image_eqI [of _ _ r])
qed

lemma target_view_simps [simp]:
  "target_view (emit r ev pl w) = target_view w" "target_view (dispatch p c t su b w) = target_view w"
  "target_view (register_fan_out nr ts w) = target_view w" "target_view (update_run i f w) = target_view w"
  by (simp_all add: target_view_def emit_def dispatch_def register_fan_out_def update_run_def split: option.split)

lemma target_view_notify [simp]: "target_view (notify p t bs r w) = target_view w"
  by (induction bs arbitrary: w) (auto split: option.split)

lemma target_view_notifyPerDevice [simp]: "target_view (notifyPerDevice p t bs ty n d ok w) = target_view w"
  by (induction bs arbitrary: w) auto

lemma target_view_mark [simp]:
  "target_view (markRunSuccess p i w) = target_view w" "target_view (markRunFailure p i m w) = target_view w"
  by (simp_all add: markRunSuccess_def markRunFailure_def emitRunUpdate_def dispatchScenarioChannelNotification_def Let_def split: option.split)

lemma target_view_complete [simp]: "target_view (completeNode i nr res st w) = target_view w"
  by (simp add: target_view_def)

lemma target_view_ends [simp]:
  "target_view (fail_node p i nr a b w) = target_view w" "target_view (end_node p i nr ok r w) = target_view w"
  by (simp_all add: fail_node_def end_node_def Let_def)

lemma target_view_advance: "advance p i n e w = (w', m) \<Longrightarrow> target_view w' = target_view w"
  by (auto simp: advance_def split: option.splits if_splits)

lemma target_view_begin: "begin_node run node w = (w', nr) \<Longrightarrow> target_view w' = target_view w"
  by (auto simp: begin_node_def target_view_def emit_def update_run_def Let_def)

lemma tag_one_devices: "tag_one t add rm (w, x) d = (w', y) \<Longrightarrow> target_view w' = target_view w"
  by (auto simp: tag_one_def target_view_def Let_def tbl_update_def split: option.splits)

lemma tags_devices: "foldl (tag_one t add rm) (w, x) ds = (w', y) \<Longrightarrow> target_view w' = target_view w"
proof (induction ds arbitrary: w x)
  case (Cons d ds)
  obtain w1 x1 where "tag_one t add rm (w, x) d = (w1, x1)" by fastforce
  with Cons show ?case by (auto dest: tag_one_devices)
qed simp

text \<open>What an executor leaves: the devices keep id, tenant and privacy, and every new command is for an admissible one.\<close>

definition only_new_targets :: "'a sc_db_scheme \<Rightarrow> 'a sc_db_scheme \<Rightarrow> nat \<Rightarrow> nat \<Rightarrow> bool" where
  "only_new_targets w w' t sc \<longleftrightarrow> snd (target_view w') = snd (target_view w) \<and>
     (\<forall>c \<in> set (command_queue w'). c \<in> set (command_queue w) \<or> cq_tenant c = t \<and> may_target w t sc (cq_device c))"

lemma only_new_refl: "target_view w' = target_view w \<Longrightarrow> only_new_targets w w' t sc"
  by (simp add: only_new_targets_def target_view_def)

lemma only_new_trans:
  assumes "only_new_targets w w1 t sc" and "only_new_targets w1 w2 t sc"
  shows "only_new_targets w w2 t sc"
proof -
  have "may_target w1 = may_target w"
    using assms(1) by (auto simp: only_new_targets_def may_target_def target_view_def bypasses_def scenario_by_id_def fun_eq_iff)
  with assms show ?thesis by (auto simp: only_new_targets_def)
qed

lemma enqueue_new_target:
  assumes "enqueue a w = (w', r)" and "ea_tenant a = t" and "may_target w t sc (ea_device a)"
  shows "only_new_targets w w' t sc"
  using assms by (auto simp: enqueue_def Let_def insert_command_def only_new_targets_def target_view_def emit_def split: prod.splits if_splits)

lemma enqueue_all_new_targets:
  assumes "enqueue_all as w = (w', r)" and "\<forall>a \<in> set as. ea_tenant a = t \<and> may_target w t sc (ea_device a)"
  shows "only_new_targets w w' t sc"
  using assms
proof (induction as arbitrary: w)
  case Nil
  then show ?case by (simp add: only_new_refl)
next
  case (Cons a as)
  obtain w1 x where e: "enqueue a w = (w1, x)" by fastforce
  have n: "only_new_targets w w1 t sc" using enqueue_new_target [OF e] Cons.prems(2) by simp
  then have "may_target w1 = may_target w"
    by (auto simp: only_new_targets_def may_target_def target_view_def bypasses_def scenario_by_id_def fun_eq_iff)
  with Cons.IH [of w1] Cons.prems e n show ?case by (auto intro: only_new_trans split: option.splits)
qed

lemma commands_new_targets:
  assumes "enqueue_all (map (node_command run nr ty pl ex) targets) (register_fan_out nr targets w) = (w', r)"
    and "validateTargetsInTenant w (run_tenant run) ids (run_scenario run) = Some targets"
  shows "only_new_targets w w' (run_tenant run) (run_scenario run)"
proof -
  let ?w = "register_fan_out nr targets w"
  have "may_target ?w = may_target w" by (rule may_target_view) simp
  then have "only_new_targets ?w w' (run_tenant run) (run_scenario run)"
    using validated_targets [OF assms(2)] by (intro enqueue_all_new_targets [OF assms(1)]) (auto simp: node_command_def)
  moreover have "only_new_targets w ?w (run_tenant run) (run_scenario run)" by (rule only_new_refl) simp
  ultimately show ?thesis by (rule only_new_trans [rotated])
qed

lemma quiet_executors:
  "exec_cooldown run node w = (w', r) \<Longrightarrow> target_view w' = target_view w"
  "exec_send_notification p run node w = (w', r) \<Longrightarrow> target_view w' = target_view w"
  "exec_tag_device run node w = (w', r) \<Longrightarrow> target_view w' = target_view w"
  "exec_move_device run node w = (w', r) \<Longrightarrow> target_view w' = target_view w"
  "exec_branch_on_device run node w = (w', r) \<Longrightarrow> target_view w' = target_view w"
  "exec_wait node nr w = (w', r) \<Longrightarrow> target_view w' = target_view w"
  "exec_end ok m w = (w', r) \<Longrightarrow> target_view w' = target_view w"
proof -
  show "exec_tag_device run node w = (w', r) \<Longrightarrow> target_view w' = target_view w"
    by (auto simp: exec_tag_device_def split: option.splits if_splits prod.splits dest: tags_devices)
  show "exec_send_notification p run node w = (w', r) \<Longrightarrow> target_view w' = target_view w"
    by (auto simp: exec_send_notification_def Let_def split: if_splits)
qed (auto simp: exec_cooldown_def set_cooldown_def exec_move_device_def exec_branch_on_device_def exec_wait_def exec_end_def
      target_view_def tbl_update_def Let_def split: option.splits if_splits)

lemma executor_new_targets:
  assumes "executor p run node nr = Some ex" and "ex w = (w', r)"
  shows "only_new_targets w w' (run_tenant run) (run_scenario run)"
proof -
  have "only_new_targets w w' (run_tenant run) (run_scenario run)" if "exec_run_script run node nr w = (w', r)"
    using that commands_new_targets
    by (fastforce simp: exec_run_script_def Let_def only_new_refl split: option.splits if_splits)
  moreover have "only_new_targets w w' (run_tenant run) (run_scenario run)" if "exec_run_command run node nr w = (w', r)"
    using that commands_new_targets
    by (fastforce simp: exec_run_command_def Let_def only_new_refl split: option.splits if_splits)
  ultimately show ?thesis
    using assms by (auto simp: executor_def Let_def only_new_refl split: if_splits dest: quiet_executors)
qed

lemma executeNode1_new_targets:
  fixes w :: "'a sc_db_scheme"
  assumes "executeNode1 p i n w = (w', m)" and "run_by_id w i = Some run"
  shows "only_new_targets w w' (run_tenant run) (run_scenario run)"
proof (cases "\<exists>node. run_status run = ''running'' \<and> node_by_id w n = Some node \<and> visits_of run n < max_node_visits")
  case False
  then have "target_view w' = target_view w"
    using assms by (auto simp: executeNode1_def split: option.splits if_splits)
  then show ?thesis by (rule only_new_refl)
next
  case True
  then obtain node where node: "run_status run = ''running''" "node_by_id w n = Some node" "visits_of run n < max_node_visits" by blast
  obtain w1 nr where b: "begin_node run node w = (w1, nr)" by fastforce
  have n1: "only_new_targets w w1 (run_tenant run) (run_scenario run)" using target_view_begin [OF b] by (rule only_new_refl)
  show ?thesis
  proof (cases "executor p run node nr :: ('a executor) option")
    case None
    then have "target_view w' = target_view w1" using assms node b by (auto simp: executeNode1_def)
    with n1 show ?thesis by (auto intro: only_new_trans only_new_refl)
  next
    case (Some ex)
    obtain w2 x where x: "ex w1 = (w2, x)" by fastforce
    have n2: "only_new_targets w1 w2 (run_tenant run) (run_scenario run)" using executor_new_targets [OF Some x] .
    have "target_view w' = target_view w2"
      using assms node b Some x by (auto simp: executeNode1_def split: sum.splits if_splits option.splits dest!: target_view_advance)
    with n1 n2 show ?thesis by (blast intro: only_new_trans only_new_refl)
  qed
qed

lemma executeNode_new_targets:
  "run_by_id w i = Some run \<Longrightarrow> only_new_targets w (executeNode p i n w) (run_tenant run) (run_scenario run)"
proof (induction p i n w arbitrary: run rule: executeNode.induct)
  case (1 p i n w)
  obtain w' nx where e: "executeNode1 p i n w = (w', nx)" by fastforce
  have n1: "only_new_targets w w' (run_tenant run) (run_scenario run)" using executeNode1_new_targets [OF e 1(2)] .
  show ?case
  proof (cases nx)
    case None
    with e n1 show ?thesis by (subst executeNode.simps) simp
  next
    case (Some m)
    then have s: "executeNode1 p i n w = (w', Some m)" using e by simp
    then obtain run0 run' where "run_by_id w i = Some run0" "run_by_id w' i = Some run'" "run_tenant run' = run_tenant run0"
      "run_scenario run' = run_scenario run0" by (elim step_run)
    with 1(1) [OF e [symmetric] Some] 1(2) n1 s show ?thesis by (subst executeNode.simps) (auto intro: only_new_trans)
  qed
qed

text \<open>
  C11. However far a run walks, every command it queues is for a device of the run's own tenant that is not in
  privacy mode, unless the scenario was explicitly allowed to bypass privacy; stale target lists never cross
  a tenant.
\<close>

theorem run_commands_stay_in_tenant:
  assumes "run_by_id w i = Some run" and "c \<in> set (command_queue (executeNode p i n w))" and "c \<notin> set (command_queue w)"
  shows "cq_tenant c = run_tenant run \<and>
    (\<exists>d \<in> set (devices w). dev_id d = cq_device c \<and> dev_tenant d = run_tenant run \<and> (dev_privacy d \<longrightarrow> bypasses w (run_scenario run)))"
  using executeNode_new_targets [OF assms(1), of p n] assms(2,3) by (fastforce simp: only_new_targets_def may_target_def)

lemma ex_walk_queue: "\<exists>c. command_queue (executeNode (\<lambda>_. True) ''r1'' 11 ex_walk) = [c]"
proof -
  let ?n = "\<lparr>nd_id = 11, nd_scenario = 1, nd_type = ''run_command'', nd_label = None, nd_config = ex_config\<lparr>cf_command := Some ''reboot''\<rparr>\<rparr>"
  obtain w1 nr where b: "begin_node ex_run ?n ex_walk = (w1, nr)" by fastforce
  have d: "devices w1 = devices ex_walk" "scenarios w1 = scenarios ex_walk" "command_queue w1 = []" "command_types w1 = [''list_directory'', ''reboot'']"
    using b by (auto simp: begin_node_def Let_def emit_def update_run_def ex_walk_def ex_sc_defs)
  have v: "validateTargetsInTenant w1 2 (resolveActionTargets ex_run ?n) 1 = Some [4]"
    by (simp add: validateTargetsInTenant_def resolveActionTargets_def ex_run_def id_in_range_def int4_max_def scenario_by_id_def d ex_walk_def ex_sc_defs)
  obtain w2 x where e: "enqueue (node_command ex_run nr ''reboot'' (with_bypass (bypasses w1 1) []) 300 4) w1 = (w2, x)" by fastforce
  have "x \<noteq> None \<and> (\<exists>c. command_queue w2 = [c])"
    using e d by (auto simp: enqueue_def insert_command_def Let_def node_command_def device_by_id_def ex_walk_def ex_sc_defs split: prod.splits if_splits)
  then have "\<exists>c. command_queue w2 = [c]" "exec_run_command ex_run ?n nr w1 = (w2, Inr awaits_ack)"
    using v e by (auto simp: exec_run_command_def text_or_def ex_config_def register_fan_out_def ex_run_def Let_def split: option.split)
  moreover have "executeNode1 (\<lambda>_. True) ''r1'' 11 ex_walk = (w2, None)"
    using calculation(2) b ex_walk_run
    by (simp add: executeNode1_def executor_def trigger_types_def node_by_id_def visits_of_def max_node_visits_def ex_walk_def ex_sc_defs ex_run_def awaits_ack_def)
  ultimately show ?thesis by (subst executeNode.simps) simp
qed

theorem run_commands_stay_in_tenant_witness:
  "\<exists>c. command_queue (executeNode (\<lambda>_. True) ''r1'' 11 ex_walk) = [c] \<and> cq_tenant c = 2 \<and> bypasses ex_walk 1"
proof -
  obtain c where c: "command_queue (executeNode (\<lambda>_. True) ''r1'' 11 ex_walk) = [c]" using ex_walk_queue by blast
  have "command_queue ex_walk = []" "run_tenant ex_run = 2" "run_scenario ex_run = 1" "\<forall>d \<in> set (devices ex_walk). dev_privacy d"
    by (simp_all add: ex_walk_def ex_run_def ex_sc_defs)
  with c run_commands_stay_in_tenant [OF ex_walk_run, of c "\<lambda>_. True" 11] show ?thesis by auto
qed

end
