(* ===== verification/Scenario_Resume.thy ===== *)
theory Scenario_Resume
  imports Scenario_Runs
begin

text \<open>
  How runs start and resume (\<^verbatim>\<open>server/src/services/scenarioGraph.service.ts\<close>): \<open>startRun\<close>, the acknowledgement of a node's
  command with the collection of a fan-out, the wait timers and their re-arming at boot, and the two callers in
  \<^verbatim>\<open>server/src/services/command.service.ts\<close>: the acknowledgements of the agents and the expiry job. The exit code in
  the result of an acknowledgement is an integer, as the agent sends it. An id refused by the database (an
  unknown device, a taken run id) is the error \<open>DbRejected\<close>. \<open>restart\<close> is a restart of the process, which
  loses everything the services keep in memory.
\<close>

section \<open>Acknowledgements\<close>

definition map_del :: "'k \<Rightarrow> ('k \<times> 'v) list \<Rightarrow> ('k \<times> 'v) list" where
  "map_del k xs = filter (\<lambda>e. fst e \<noteq> k) xs"

type_synonym node_ack = "int option \<times> string option \<times> string option"

definition device_boundary :: string where
  "device_boundary = [CHR 0x0A] @ ''--- device boundary ---'' @ [CHR 0x0A]"

definition push_text :: "string option \<Rightarrow> string list \<Rightarrow> string list" where
  "push_text s xs = (case s of None \<Rightarrow> xs | Some t \<Rightarrow> if t = [] then xs else xs @ [t])"

definition worse :: "int option \<Rightarrow> int option \<Rightarrow> int option" where
  "worse worst e = (case (e, worst) of (None, _) \<Rightarrow> worst | (Some x, None) \<Rightarrow> Some x | (Some x, Some y) \<Rightarrow> if x > y then Some x else worst)"

definition collect_ack :: "node_ack \<Rightarrow> pending_fan_out \<Rightarrow> pending_fan_out" where
  "collect_ack a f = f\<lparr>fo_received := fo_received f + 1, fo_worst := worse (fo_worst f) (fst a),
     fo_stdouts := push_text (fst (snd a)) (fo_stdouts f), fo_stderrs := push_text (snd (snd a)) (fo_stderrs f)\<rparr>"

definition joined_output :: "string list \<Rightarrow> string option" where
  "joined_output xs = (if xs = [] then None else Some (join_with device_boundary xs))"

text \<open>The part after the collection: record the result and go on from the node.\<close>

definition resume_node :: "(string \<Rightarrow> bool) \<Rightarrow> string \<Rightarrow> node_ack \<Rightarrow> 'a sc_db_scheme \<Rightarrow> 'a sc_db_scheme" where
  "resume_node plugin nodeRunId a w =
     (case find (\<lambda>r. nr_id r = nodeRunId) (scenario_node_runs w) of
        None \<Rightarrow> w
      | Some nr \<Rightarrow>
          (case run_by_id w (nr_run nr) of
             None \<Rightarrow> w
           | Some run \<Rightarrow>
               if run_status run \<noteq> ''running'' then w
               else let w1 = completeNode (nr_run nr) nodeRunId
                               \<lparr>res_exit = fst a, res_stdout = fst (snd a), res_stderr = snd (snd a), res_error = None\<rparr> ''success'' w
                    in case advance plugin (nr_run nr) (nr_node nr) (fst a) w1 of
                         (w2, None) \<Rightarrow> w2
                       | (w2, Some nextNode) \<Rightarrow> executeNode plugin (nr_run nr) nextNode w2))"

definition handleNodeCommandAck :: "(string \<Rightarrow> bool) \<Rightarrow> string \<Rightarrow> node_ack \<Rightarrow> 'a sc_db_scheme \<Rightarrow> 'a sc_db_scheme" where
  "handleNodeCommandAck plugin nodeRunId a w =
     (case map_of (pendingFanOuts w) nodeRunId of
        None \<Rightarrow> resume_node plugin nodeRunId a w
      | Some pending \<Rightarrow>
          (let f = collect_ack a pending
           in if fo_received f < fo_expected f then w\<lparr>pendingFanOuts := map_set nodeRunId f (pendingFanOuts w)\<rparr>
              else resume_node plugin nodeRunId (fo_worst f, joined_output (fo_stdouts f), joined_output (fo_stderrs f))
                     (w\<lparr>pendingFanOuts := map_del nodeRunId (pendingFanOuts w)\<rparr>)))"

text \<open>A terminal acknowledgement of a command that a node of the graph sent.\<close>

definition ack_exit_code :: "command_ack \<Rightarrow> int" where
  "ack_exit_code a =
     (case map_of (ack_result_obj a) ''exitCode'' of
        Some (JNum q) \<Rightarrow> \<lfloor>q\<rfloor>
      | _ \<Rightarrow> if ack_status a = ''success'' then 0 else -1)"

definition result_text :: "command_ack \<Rightarrow> string \<Rightarrow> string option" where
  "result_text a k = (case map_of (ack_result_obj a) k of Some (JStr s) \<Rightarrow> Some s | _ \<Rightarrow> None)"

definition node_ack_of :: "command_ack \<Rightarrow> node_ack" where
  "node_ack_of a =
     (Some (ack_exit_code a), Some (case result_text a ''stdout'' of None \<Rightarrow> [] | Some s \<Rightarrow> s),
      Some (case orElse (result_text a ''stderr'') (result_text a ''error'') of None \<Rightarrow> [] | Some s \<Rightarrow> s))"

definition ackToScenario :: "(string \<Rightarrow> bool) \<Rightarrow> command_ack \<Rightarrow> command_row option \<Rightarrow> 'a sc_db_scheme \<Rightarrow> 'a sc_db_scheme" where
  "ackToScenario plugin a row w =
     (case row of
        None \<Rightarrow> w
      | Some r \<Rightarrow>
          if is_terminal a \<and> cq_source_type r = Some ''scenario_node''
          then (case cq_source_id r of None \<Rightarrow> w | Some i \<Rightarrow> handleNodeCommandAck plugin i (node_ack_of a) w)
          else w)"

definition ackCommand :: "(string \<Rightarrow> bool) \<Rightarrow> nat \<Rightarrow> nat \<Rightarrow> command_ack \<Rightarrow> 'a sc_db_scheme \<Rightarrow> 'a sc_db_scheme" where
  "ackCommand plugin d t a w = (let (w1, row) = processAck d t a w in ackToScenario plugin a row w1)"

text \<open>The expiry job: every expired command of a node counts as an acknowledgement with exit code -1.\<close>

definition timeout_message :: string where
  "timeout_message = ''Command timed out '' @ em_dash @ '' agent never acknowledged within the configured timeout window.''"

fun expire_notify :: "(string \<Rightarrow> bool) \<Rightarrow> command_row list \<Rightarrow> 'a sc_db_scheme \<Rightarrow> 'a sc_db_scheme" where
  "expire_notify plugin [] w = w"
| "expire_notify plugin (c # cs) w =
     expire_notify plugin cs
       (if cq_source_type c = Some ''scenario_node'' \<and> text_or (cq_source_id c) [] \<noteq> []
        then handleNodeCommandAck plugin (the (cq_source_id c)) (Some (-1), None, Some timeout_message) w else w)"

definition cleanupJob :: "(string \<Rightarrow> bool) \<Rightarrow> 'a sc_db_scheme \<Rightarrow> 'a sc_db_scheme" where
  "cleanupJob plugin w = (let (w1, expired) = expireCommands w in expire_notify plugin expired w1)"

section \<open>Wait timers\<close>

definition fire_timer :: "(string \<Rightarrow> bool) \<Rightarrow> (int \<times> string) \<Rightarrow> 'a sc_db_scheme \<Rightarrow> 'a sc_db_scheme" where
  "fire_timer plugin t w = handleNodeCommandAck plugin (snd t) (Some 0, None, None) (w\<lparr>timers := remove1 t (timers w)\<rparr>)"

definition restart :: "'a sc_db_scheme \<Rightarrow> 'a sc_db_scheme" where
  "restart w = w\<lparr>gate := [], pendingFanOuts := [], timers := [], verdicts := [], roles := [], skipRecordedAt := [], epoch_ms := None\<rparr>"

record orphan =
  or_node_run :: string
  or_started :: int
  or_seconds :: "rat option"

definition wait_orphans :: "'a sc_db_scheme \<Rightarrow> orphan list" where
  "wait_orphans w =
     concat (map (\<lambda>r. concat (map (\<lambda>nr. map (\<lambda>n. \<lparr>or_node_run = nr_id nr, or_started = nr_started nr, or_seconds = cf_seconds (nd_config n)\<rparr>)
         (filter (\<lambda>n. Some (nd_id n) = run_current_node r \<and> nd_type n = ''wait'') (scenario_nodes w)))
       (filter (\<lambda>nr. nr_run nr = run_id r \<and> Some (nr_node nr) = run_current_node r \<and> nr_status nr = ''running'' \<and> nr_finished nr = None)
          (scenario_node_runs w))))
     (filter (\<lambda>r. run_status r = ''running'') (scenario_runs w)))"

definition rearm_one :: "(string \<Rightarrow> bool) \<Rightarrow> 'a sc_db_scheme \<Rightarrow> orphan \<Rightarrow> 'a sc_db_scheme" where
  "rearm_one plugin w o1 =
     (let seconds = (case or_seconds o1 of None \<Rightarrow> 0 | Some s \<Rightarrow> s);
          elapsedMs = now_ms w - or_started o1;
          remainingMs = max 0 (seconds * 1000 - of_int elapsedMs)
      in if remainingMs = 0 then handleNodeCommandAck plugin (or_node_run o1) (Some 0, None, None) w
         else w\<lparr>timers := timers w @ [(now_ms w + timer_delay remainingMs, or_node_run o1)]\<rparr>)"

definition rearmWaitTimersOnBoot :: "(string \<Rightarrow> bool) \<Rightarrow> 'a sc_db_scheme \<Rightarrow> 'a sc_db_scheme" where
  "rearmWaitTimersOnBoot plugin w = foldl (rearm_one plugin) w (wait_orphans w)"

section \<open>Starting a run\<close>

record start_opts =
  so_trigger_type :: string
  so_trigger_source :: "string option"
  so_trigger_node :: "nat option"
  so_start_node :: "nat option"
  so_single :: bool

datatype start_error = InvalidDeviceId | ScenarioNotFound nat | NodeNotFound nat nat | NoTriggerNode nat | DbRejected

definition new_run :: "string \<Rightarrow> scenario_row \<Rightarrow> nat \<Rightarrow> start_opts \<Rightarrow> string option \<Rightarrow> string \<Rightarrow> run_row" where
  "new_run i s dev opts src status =
     \<lparr>run_id = i, run_tenant = scn_tenant s, run_scenario = scn_id s, run_device = dev, run_trigger_type = so_trigger_type opts,
      run_trigger_source = src, run_status = status, run_current_node = None, run_visits = [], run_last_exit = None,
      run_last_stdout = None, run_last_stderr = None, run_finished = None, run_error = None\<rparr>"

definition insert_run :: "run_row \<Rightarrow> 'a sc_db_scheme \<Rightarrow> 'a sc_db_scheme option" where
  "insert_run r w =
     (if device_by_id w (run_device r) = None \<or> run_id r \<in> run_id ` set (scenario_runs w) then None
      else Some (w\<lparr>scenario_runs := scenario_runs w @ [r]\<rparr>))"

definition fresh_uuid :: "'a sc_db_scheme \<Rightarrow> 'a sc_db_scheme \<times> string" where
  "fresh_uuid w = (w\<lparr>next_uuid := next_uuid w + 1\<rparr>, uuid_pool w (next_uuid w))"

text \<open>A refusal leaves a cancelled run in the history, at most one per scenario and device in an hour.\<close>

definition record_skipped :: "scenario_row \<Rightarrow> nat \<Rightarrow> start_opts \<Rightarrow> string \<Rightarrow> 'a sc_db_scheme \<Rightarrow> 'a sc_db_scheme" where
  "record_skipped s dev opts denial w =
     (let (w1, rec) = shouldRecordSkippedRun (scn_id s) dev w
      in if \<not> rec then w1
         else let (w2, i) = fresh_uuid w1;
                  row = (new_run i s dev opts (so_trigger_source opts) ''cancelled'')\<lparr>run_finished := Some (now_ms w), run_error := Some denial\<rparr>
              in case insert_run row w2 of None \<Rightarrow> w2 | Some w3 \<Rightarrow> emitRunUpdate row w3)"

definition single_source :: "start_opts \<Rightarrow> string option" where
  "single_source opts =
     (if so_single opts
      then Some ((case so_trigger_source opts of None \<Rightarrow> [] | Some b \<Rightarrow> b) @ ''|'' @ single_node_mark)
      else so_trigger_source opts)"

definition like_trigger :: "string \<Rightarrow> bool" where
  "like_trigger ty \<longleftrightarrow> starts_with ''trigger'' ty \<and> length ty > length ''trigger''"

definition node_in_scenario :: "'a sc_db_scheme \<Rightarrow> nat \<Rightarrow> nat \<Rightarrow> node_row option" where
  "node_in_scenario w sc n = find (\<lambda>x. nd_id x = n \<and> nd_scenario x = sc) (scenario_nodes w)"

text \<open>The entry node, and whether the walk starts at its first edge.\<close>

definition entry_node :: "'a sc_db_scheme \<Rightarrow> nat \<Rightarrow> start_opts \<Rightarrow> start_error + (nat \<times> bool)" where
  "entry_node w sc opts =
     (if truthy_id (so_start_node opts)
      then (case node_in_scenario w sc (the (so_start_node opts)) of
              None \<Rightarrow> Inl (NodeNotFound (the (so_start_node opts)) sc)
            | Some n \<Rightarrow> Inr (nd_id n, False))
      else let named = (if truthy_id (so_trigger_node opts) then node_in_scenario w sc (the (so_trigger_node opts)) else None)
           in case orElse named (find (\<lambda>x. nd_scenario x = sc \<and> like_trigger (nd_type x)) (scenario_nodes w)) of
                None \<Rightarrow> Inl (NoTriggerNode sc)
              | Some n \<Rightarrow> Inr (nd_id n, True))"

definition launch :: "(string \<Rightarrow> bool) \<Rightarrow> string \<Rightarrow> nat \<Rightarrow> nat \<times> bool \<Rightarrow> 'a sc_db_scheme \<Rightarrow> 'a sc_db_scheme" where
  "launch plugin i sc entry w =
     (if snd entry
      then (case pickNextEdge w sc (fst entry) None of
              None \<Rightarrow> markRunFailure plugin i ''Trigger node has no outgoing edge'' w
            | Some e \<Rightarrow> executeNode plugin i (ed_target e) w)
      else executeNode plugin i (fst entry) w)"

definition run_denial :: "scenario_row \<Rightarrow> nat \<Rightarrow> start_opts \<Rightarrow> 'a sc_db_scheme \<Rightarrow> 'a sc_db_scheme \<times> string option" where
  "run_denial s dev opts w = (if so_trigger_type opts \<noteq> ''manual'' then accountableUserDenial s dev w else (w, None))"

definition create_run ::
  "(string \<Rightarrow> bool) \<Rightarrow> scenario_row \<Rightarrow> nat \<Rightarrow> start_opts \<Rightarrow> 'a sc_db_scheme \<Rightarrow> 'a sc_db_scheme \<times> (start_error + string)" where
  "create_run plugin s dev opts w =
     (case entry_node w (scn_id s) opts of
        Inl e \<Rightarrow> (w, Inl e)
      | Inr entry \<Rightarrow>
          (let (w1, i) = fresh_uuid w
           in case insert_run (new_run i s dev opts (single_source opts) ''running'') w1 of
                None \<Rightarrow> (w1, Inl DbRejected)
              | Some w2 \<Rightarrow> (launch plugin i (scn_id s) entry w2, Inr i)))"

definition startRun ::
  "(string \<Rightarrow> bool) \<Rightarrow> nat \<Rightarrow> js_value \<Rightarrow> start_opts \<Rightarrow> 'a sc_db_scheme \<Rightarrow> 'a sc_db_scheme \<times> (start_error + string)" where
  "startRun plugin sc rawDevice opts w =
     (case toDbId rawDevice of
        None \<Rightarrow> (w, Inl InvalidDeviceId)
      | Some dev \<Rightarrow>
          (case scenario_by_id w sc of
             None \<Rightarrow> (w, Inl (ScenarioNotFound sc))
           | Some s \<Rightarrow>
               if (case device_by_id w dev of None \<Rightarrow> False | Some d \<Rightarrow> dev_privacy d) \<and> \<not> scn_bypass s then (w, Inr [])
               else let (w1, denial) = run_denial s dev opts w
                    in if text_or denial [] \<noteq> [] then (record_skipped s dev opts (the denial) w1, Inr [])
                       else create_run plugin s dev opts w1))"

section \<open>Collecting a fan-out\<close>

definition worst_exit :: "node_ack list \<Rightarrow> int option" where
  "worst_exit as = foldl worse None (map fst as)"

definition texts :: "string option list \<Rightarrow> string list" where
  "texts xs = filter (\<lambda>t. t \<noteq> []) (List.map_filter (\<lambda>t. t) xs)"

lemma push_text: "push_text s xs = xs @ texts [s]"
  by (simp add: push_text_def texts_def map_filter_simps split: option.split)

lemma texts_Cons: "texts (x # xs) = texts [x] @ texts xs"
  by (simp add: texts_def map_filter_simps split: option.split)

lemma map_del_set [simp]: "map_del k (map_set k v xs) = map_del k xs"
  by (induction k v xs rule: map_set.induct) (auto simp: map_del_def)

lemma map_set_set [simp]: "map_set k v (map_set k v' xs) = map_set k v xs"
  by (induction k v xs rule: map_set.induct) auto

text \<open>All acknowledgements but the last only update the tally; the last one resumes the run.\<close>

lemma collect_fold:
  "fo_received (fold collect_ack as f) = fo_received f + length as"
  "fo_expected (fold collect_ack as f) = fo_expected f"
  "fo_worst (fold collect_ack as f) = foldl worse (fo_worst f) (map fst as)"
  "fo_stdouts (fold collect_ack as f) = fo_stdouts f @ texts (map (fst \<circ> snd) as)"
  "fo_stderrs (fold collect_ack as f) = fo_stderrs f @ texts (map (snd \<circ> snd) as)"
  by (induction as arbitrary: f)
    (simp_all add: collect_ack_def push_text texts_Cons [of _ "map _ _"] texts_def [of "[]"] map_filter_simps(2))

lemma fan_out_tally:
  assumes "map_of (pendingFanOuts w) nr = Some f" and "fo_received f + length as < fo_expected f"
  shows "foldl (\<lambda>w a. handleNodeCommandAck p nr a w) w as =
    (if as = [] then w else w\<lparr>pendingFanOuts := map_set nr (fold collect_ack as f) (pendingFanOuts w)\<rparr>)"
  using assms
proof (induction as arbitrary: w f)
  case (Cons a as)
  let ?w1 = "w\<lparr>pendingFanOuts := map_set nr (collect_ack a f) (pendingFanOuts w)\<rparr>"
  have c: "fo_received (collect_ack a f) = fo_received f + 1" "fo_expected (collect_ack a f) = fo_expected f"
    by (simp_all add: collect_ack_def)
  have h: "handleNodeCommandAck p nr a w = ?w1"
    using Cons.prems c by (simp add: handleNodeCommandAck_def Let_def)
  have "foldl (\<lambda>w a. handleNodeCommandAck p nr a w) ?w1 as =
      (if as = [] then ?w1 else ?w1\<lparr>pendingFanOuts := map_set nr (fold collect_ack as (collect_ack a f)) (pendingFanOuts ?w1)\<rparr>)"
    using Cons.prems c by (intro Cons.IH) simp_all
  then show ?case by (simp add: h)
qed simp

lemma fan_out_last:
  assumes "map_of (pendingFanOuts w) nr = Some f" and "fo_received f + length as = fo_expected f" and "as \<noteq> []"
  shows "foldl (\<lambda>w a. handleNodeCommandAck p nr a w) w as =
    (let g = fold collect_ack as f
     in resume_node p nr (fo_worst g, joined_output (fo_stdouts g), joined_output (fo_stderrs g))
          (w\<lparr>pendingFanOuts := map_del nr (pendingFanOuts w)\<rparr>))"
proof -
  obtain bs b where as: "as = bs @ [b]" using assms(3) by (metis append_butlast_last_id)
  let ?g = "fold collect_ack bs f"
  have t: "foldl (\<lambda>w a. handleNodeCommandAck p nr a w) w bs =
      (if bs = [] then w else w\<lparr>pendingFanOuts := map_set nr ?g (pendingFanOuts w)\<rparr>)"
    using assms by (intro fan_out_tally) (simp_all add: as)
  have "fo_received (collect_ack b ?g) = fo_expected (collect_ack b ?g)"
    using assms(2) by (simp add: collect_ack_def as collect_fold)
  with assms(1) show ?thesis
    by (cases "bs = []") (simp_all add: as t, simp_all add: handleNodeCommandAck_def Let_def)
qed

lemma worse_simps: "worse x None = x" "worse None (Some b) = Some b" "worse (Some a) (Some b) = Some (max a b)"
  by (simp_all add: worse_def max_def split: option.split)

lemma foldl_worse: "foldl worse (Some x) es = Some (Max (insert x {e. Some e \<in> set es}))"
proof (induction es arbitrary: x)
  case (Cons e es)
  have fin: "finite {e. Some e \<in> set es}" by (rule finite_vimageI [of "set es" Some, unfolded vimage_def]) simp_all
  show ?case
  proof (cases e)
    case (Some y)
    then have "{e'. Some e' \<in> set (e # es)} = insert y {e. Some e \<in> set es}" by auto
    moreover have "worse (Some x) e = Some (max x y)" by (simp add: worse_simps Some)
    moreover have "Max (insert (max x y) {e. Some e \<in> set es}) = Max (insert x (insert y {e. Some e \<in> set es}))"
      using fin by (cases "{e. Some e \<in> set es} = {}") (simp_all add: max.assoc)
    ultimately show ?thesis by (simp only: foldl_Cons Cons.IH)
  qed (simp add: worse_simps Cons.IH)
qed simp

lemma worst_exit_Max: "worst_exit as = (if \<forall>a \<in> set as. fst a = None then None else Some (Max {e. Some e \<in> fst ` set as}))"
proof (induction as)
  case (Cons a as)
  show ?case
  proof (cases "fst a")
    case None
    then have "{e. Some e \<in> fst ` set (a # as)} = {e. Some e \<in> fst ` set as}" by auto
    with Cons None show ?thesis by (simp add: worst_exit_def worse_simps)
  next
    case (Some x)
    then have "{e. Some e \<in> fst ` set (a # as)} = insert x {e. Some e \<in> set (map fst as)}" by auto
    with Some show ?thesis by (simp add: worst_exit_def worse_simps foldl_worse)
  qed
qed (simp add: worst_exit_def)

lemma fan_out_registered:
  assumes "length targets > 1"
  defines "f \<equiv> \<lparr>fo_expected = length targets, fo_received = 0, fo_worst = None, fo_stdouts = [], fo_stderrs = []\<rparr>"
  shows "register_fan_out nr targets w = w\<lparr>pendingFanOuts := map_set nr f (pendingFanOuts w)\<rparr>"
  using assms by (simp add: register_fan_out_def)

text \<open>
  C12. A node that sent its command to several devices resumes its run exactly once, when the last of them has
  answered, with the highest exit code any of them returned - whatever the order of the answers - and their
  outputs joined in the order of arrival; until then the answers change nothing but the tally of the node.
\<close>

theorem fan_out_waits_for_all:
  assumes "length targets > 1" and "length as = length targets"
  shows "foldl (\<lambda>w a. handleNodeCommandAck p nr a w) (register_fan_out nr targets w) as =
      resume_node p nr (if \<forall>a \<in> set as. fst a = None then None else Some (Max {e. Some e \<in> fst ` set as}),
          joined_output (texts (map (fst \<circ> snd) as)), joined_output (texts (map (snd \<circ> snd) as)))
        (w\<lparr>pendingFanOuts := map_del nr (pendingFanOuts w)\<rparr>) \<and>
    (\<forall>k < length as. \<exists>fs. foldl (\<lambda>w a. handleNodeCommandAck p nr a w) (register_fan_out nr targets w) (take k as) = w\<lparr>pendingFanOuts := fs\<rparr>)"
proof (intro conjI allI impI)
  let ?f = "\<lparr>fo_expected = length targets, fo_received = 0, fo_worst = None, fo_stdouts = [], fo_stderrs = []\<rparr>"
  let ?w = "w\<lparr>pendingFanOuts := map_set nr ?f (pendingFanOuts w)\<rparr>"
  have "as \<noteq> []" using assms by auto
  then show "foldl (\<lambda>w a. handleNodeCommandAck p nr a w) (register_fan_out nr targets w) as =
      resume_node p nr (if \<forall>a \<in> set as. fst a = None then None else Some (Max {e. Some e \<in> fst ` set as}),
          joined_output (texts (map (fst \<circ> snd) as)), joined_output (texts (map (snd \<circ> snd) as)))
        (w\<lparr>pendingFanOuts := map_del nr (pendingFanOuts w)\<rparr>)"
    unfolding fan_out_registered [OF assms(1)] worst_exit_Max [symmetric]
    by (subst fan_out_last [of ?w nr ?f]) (simp_all add: assms Let_def collect_fold worst_exit_def)
  fix k assume "k < length as"
  then have t: "foldl (\<lambda>w a. handleNodeCommandAck p nr a w) ?w (take k as) =
      (if take k as = [] then ?w else ?w\<lparr>pendingFanOuts := map_set nr (fold collect_ack (take k as) ?f) (pendingFanOuts ?w)\<rparr>)"
    using assms by (intro fan_out_tally) simp_all
  show "\<exists>fs. foldl (\<lambda>w a. handleNodeCommandAck p nr a w) (register_fan_out nr targets w) (take k as) = w\<lparr>pendingFanOuts := fs\<rparr>"
    unfolding fan_out_registered [OF assms(1)] t by (cases "take k as = []") (simp_all, blast+)
qed

theorem fan_out_waits_for_all_witness:
  "foldl (\<lambda>w a. handleNodeCommandAck (\<lambda>_. True) ''n1'' a w) (register_fan_out ''n1'' [4, 5] ex_walk)
     [(Some 0, Some ''ok'', None), (Some 3, None, Some ''boom'')] =
   resume_node (\<lambda>_. True) ''n1'' (Some 3, Some ''ok'', Some ''boom'') (ex_walk\<lparr>pendingFanOuts := map_del ''n1'' (pendingFanOuts ex_walk)\<rparr>)"
proof -
  have "{e. Some e \<in> fst ` set [(Some 0, Some ''ok'', None), (Some (3 :: int), None, Some ''boom'')]} = {0, 3}" by auto
  then show ?thesis
    using fan_out_waits_for_all [of "[4, 5]" "[(Some 0, Some ''ok'', None), (Some 3, None, Some ''boom'')]" "\<lambda>_. True" "''n1''" ex_walk]
    by (simp add: texts_def map_filter_simps joined_output_def)
qed

end
