(* ===== verification/Scenario_Lifecycle.thy ===== *)
theory Scenario_Lifecycle
  imports Scenario_Resume
begin

text \<open>
  The life of scenario runs over every sequence of events: starting a run, the acknowledgements of agents,
  cancellations, the expiry job, wait timers and restarts of the server. A run is created only past the gates of
  \<open>startRun\<close>, and a run that has ended is never touched again.
\<close>

section \<open>Runs over one step\<close>

definition run_ok :: "run_row \<Rightarrow> bool" where
  "run_ok r \<longleftrightarrow> run_status r \<in> {''running'', ''success'', ''failure'', ''cancelled''} \<and> (run_finished r = None \<longleftrightarrow> run_status r = ''running'')"

definition runs_ok :: "run_row list \<Rightarrow> bool" where
  "runs_ok rs \<longleftrightarrow> keyed run_id rs \<and> (\<forall>r \<in> set rs. run_ok r)"

text \<open>Good rows stay good and ended rows stay as they are; no step of a run changes what identifies the runs.\<close>

definition runs_kept :: "run_row list \<Rightarrow> run_row list \<Rightarrow> bool" where
  "runs_kept rs rs' \<longleftrightarrow> (runs_ok rs \<longrightarrow> runs_ok rs' \<and> (\<forall>r \<in> set rs. run_status r \<noteq> ''running'' \<longrightarrow> r \<in> set rs'))"

definition run_key :: "run_row \<Rightarrow> _" where
  "run_key r = (run_id r, run_tenant r, run_scenario r, run_device r, run_trigger_type r, run_trigger_source r)"

definition runs_mono :: "run_row list \<Rightarrow> run_row list \<Rightarrow> bool" where
  "runs_mono rs rs' \<longleftrightarrow> runs_kept rs rs' \<and> map run_key rs' = map run_key rs"

lemma runs_kept_refl [simp]: "runs_kept rs rs"
  by (simp add: runs_kept_def)

lemma runs_kept_trans: "runs_kept a b \<Longrightarrow> runs_kept b c \<Longrightarrow> runs_kept a c"
  by (auto simp: runs_kept_def)

lemma runs_mono_refl [simp]: "runs_mono rs rs"
  by (simp add: runs_mono_def)

lemma runs_mono_trans: "runs_mono a b \<Longrightarrow> runs_mono b c \<Longrightarrow> runs_mono a c"
  by (auto simp: runs_mono_def intro: runs_kept_trans)

lemma runs_mono_kept: "runs_mono a b \<Longrightarrow> runs_kept a b"
  by (simp add: runs_mono_def)

lemma update_run_mono:
  assumes "run_by_id w i = Some run" and "run_status run = ''running''" and "\<And>r. run_key (f r) = run_key r"
    and "run_ok run \<Longrightarrow> run_ok (f run)"
  shows "runs_mono (scenario_runs w) (scenario_runs (update_run i f w))"
  unfolding runs_mono_def runs_kept_def
proof (intro impI conjI ballI)
  have f: "run_id (f r) = run_id r" for r using assms(3) [of r] by (simp add: run_key_def)
  show "map run_key (scenario_runs (update_run i f w)) = map run_key (scenario_runs w)"
    by (simp add: update_run_def map_tbl_update assms(3))
  assume ok: "runs_ok (scenario_runs w)"
  have run: "run \<in> set (scenario_runs w)" "run_id run = i" using assms(1) by (auto simp: run_by_id_def dest: find_SomeD)
  have only: "r = run" if "r \<in> set (scenario_runs w)" "run_id r = i" for r
    using that run ok by (auto simp: runs_ok_def keyed_def inj_on_def distinct_map)
  show "runs_ok (scenario_runs (update_run i f w))"
    using ok assms(4) only run(1) f unfolding runs_ok_def update_run_def
    by (auto simp: keyed_tbl_update set_tbl_update)
  fix r assume "r \<in> set (scenario_runs w)" "run_status r \<noteq> ''running''"
  with only assms(2) show "r \<in> set (scenario_runs (update_run i f w))"
    by (auto simp: update_run_def set_tbl_update image_iff intro!: bexI [of _ r])
qed

lemma mark_runs:
  "scenario_runs (markRunSuccess p i w) = scenario_runs (update_run i (\<lambda>r. r\<lparr>run_status := ''success'', run_finished := Some (now_ms w)\<rparr>) w)"
  "scenario_runs (markRunFailure p i m w) =
     scenario_runs (update_run i (\<lambda>r. r\<lparr>run_status := ''failure'', run_finished := Some (now_ms w), run_error := Some m\<rparr>) w)"
  using view_markRunSuccess [of p i w] view_markRunFailure [of p i m w] by (simp_all add: engine_view_eq)

lemma complete_runs:
  "scenario_runs (completeNode i nr res st w) =
     scenario_runs (update_run i (\<lambda>r. r\<lparr>run_last_exit := res_exit res, run_last_stdout := res_stdout res, run_last_stderr := res_stderr res\<rparr>) w)"
  by (simp add: completeNode_def Let_def emit_def update_run_def split: option.split)

lemma begin_runs:
  "begin_node run node w = (w1, nr) \<Longrightarrow> scenario_runs w1 = scenario_runs (update_run (run_id run)
     (\<lambda>r. r\<lparr>run_current_node := Some (nd_id node), run_visits := map_set (nd_id node) (visits_of run (nd_id node) + 1) (run_visits run)\<rparr>) w)"
  by (auto simp: begin_node_def Let_def emit_def)

lemma mark_mono:
  assumes "run_by_id w i = Some run" and "run_status run = ''running''"
  shows "runs_mono (scenario_runs w) (scenario_runs (markRunSuccess p i w))"
    and "runs_mono (scenario_runs w) (scenario_runs (markRunFailure p i m w))"
    and "runs_mono (scenario_runs w) (scenario_runs (completeNode i nr res st w))"
  unfolding mark_runs complete_runs by (rule update_run_mono [OF assms]; simp add: run_ok_def run_key_def)+

lemma run_complete_running:
  "run_by_id w i = Some run \<Longrightarrow> run_status run = ''running'' \<Longrightarrow>
     \<exists>r. run_by_id (completeNode i nr res st w) i = Some r \<and> run_status r = ''running''"
  by (simp add: run_completeNode)

lemma complete_mark_mono:
  assumes "run_by_id w i = Some run" and "run_status run = ''running''"
  shows "runs_mono (scenario_runs w) (scenario_runs (markRunSuccess p i (completeNode i nr res st w)))"
    and "runs_mono (scenario_runs w) (scenario_runs (markRunFailure p i m (completeNode i nr res st w)))"
proof -
  obtain r where "run_by_id (completeNode i nr res st w) i = Some r" "run_status r = ''running''"
    using run_complete_running [OF assms] by blast
  from mark_mono [OF this] mark_mono(3) [OF assms]
  show "runs_mono (scenario_runs w) (scenario_runs (markRunSuccess p i (completeNode i nr res st w)))"
    and "runs_mono (scenario_runs w) (scenario_runs (markRunFailure p i m (completeNode i nr res st w)))"
    by (blast intro: runs_mono_trans)+
qed

lemma end_mono:
  assumes "run_by_id w i = Some run" and "run_status run = ''running''"
  shows "runs_mono (scenario_runs w) (scenario_runs (fail_node p i nr a b w))"
    and "runs_mono (scenario_runs w) (scenario_runs (end_node p i nr ok r w))"
  by (simp_all add: fail_node_def end_node_def Let_def complete_mark_mono [OF assms])

lemma advance_mono:
  assumes "run_by_id w i = Some run" and "run_status run = ''running''" and "advance p i n e w = (w', m)"
  shows "runs_mono (scenario_runs w) (scenario_runs w')"
  using assms by (auto simp: advance_def mark_mono split: option.splits if_splits)

lemma complete_advance_mono:
  assumes "run_by_id w i = Some run" and "run_status run = ''running''" and "advance p i n e (completeNode i nr res st w) = (w', m)"
  shows "runs_mono (scenario_runs w) (scenario_runs w')"
proof -
  obtain r where "run_by_id (completeNode i nr res st w) i = Some r" "run_status r = ''running''"
    using run_complete_running [OF assms(1,2)] by blast
  from advance_mono [OF this assms(3)] mark_mono(3) [OF assms(1,2)] show ?thesis by (blast intro: runs_mono_trans)
qed

lemma executeNode1_mono:
  fixes w :: "'a sc_db_scheme"
  assumes "executeNode1 p i n w = (w', m)"
  shows "runs_mono (scenario_runs w) (scenario_runs w')"
proof (cases "\<exists>run node. run_by_id w i = Some run \<and> run_status run = ''running'' \<and> node_by_id w n = Some node \<and> visits_of run n < max_node_visits")
  case False
  then show ?thesis using assms by (auto simp: executeNode1_def mark_mono split: option.splits if_splits)
next
  case True
  then obtain run node where r: "run_by_id w i = Some run" "run_status run = ''running''" "node_by_id w n = Some node" "visits_of run n < max_node_visits"
    by blast
  obtain w1 nr where b: "begin_node run node w = (w1, nr)" by fastforce
  have i: "run_id run = i" using run_by_idD [OF r(1)] .
  have m1: "runs_mono (scenario_runs w) (scenario_runs w1)"
    unfolding begin_runs [OF b] i by (rule update_run_mono [OF r(1,2)]) (simp_all add: run_ok_def run_key_def)
  obtain run1 where r1: "run_by_id w1 i = Some run1" "run_status run1 = ''running''"
    using begin_node_run(1) [OF r(1) b] r(2) by simp
  show ?thesis
  proof (cases "executor p run node nr :: ('a executor) option")
    case None
    then show ?thesis using assms r b m1 by (auto simp: executeNode1_def intro: runs_mono_trans end_mono [OF r1])
  next
    case (Some ex)
    obtain w2 x where x: "ex w1 = (w2, x)" by fastforce
    have s: "scenario_runs w2 = scenario_runs w1" using view_executor [OF Some x] by (simp add: engine_view_eq)
    then have r2: "run_by_id w2 i = Some run1" using r1 by (simp add: run_by_id_def)
    have "runs_mono (scenario_runs w2) (scenario_runs w')"
      using assms r b Some x
      by (auto simp: executeNode1_def end_mono [OF r2 r1(2)] split: sum.splits if_splits option.splits
          intro: complete_advance_mono [OF r2 r1(2)])
    with m1 s show ?thesis by (auto intro: runs_mono_trans)
  qed
qed

lemma executeNode_mono: "runs_mono (scenario_runs w) (scenario_runs (executeNode p i n w))"
proof (induction p i n w rule: executeNode.induct)
  case (1 p i n w)
  obtain w' nx where e: "executeNode1 p i n w = (w', nx)" by fastforce
  with 1 executeNode1_mono [OF e] show ?case
    by (subst executeNode.simps) (auto intro: runs_mono_trans split: option.split)
qed

lemma resume_mono: "runs_mono (scenario_runs w) (scenario_runs (resume_node p nr a w))"
proof (cases "\<exists>row run. find (\<lambda>r. nr_id r = nr) (scenario_node_runs w) = Some row \<and> run_by_id w (nr_run row) = Some run \<and> run_status run = ''running''")
  case True
  then obtain row run where r: "find (\<lambda>r. nr_id r = nr) (scenario_node_runs w) = Some row" "run_by_id w (nr_run row) = Some run" "run_status run = ''running''"
    by blast
  let ?w1 = "completeNode (nr_run row) nr \<lparr>res_exit = fst a, res_stdout = fst (snd a), res_stderr = snd (snd a), res_error = None\<rparr> ''success'' w"
  obtain w2 m where a: "advance p (nr_run row) (nr_node row) (fst a) ?w1 = (w2, m)" by fastforce
  have "runs_mono (scenario_runs w) (scenario_runs w2)"
    using complete_advance_mono [OF r(2,3) a] .
  with r a show ?thesis
    by (auto simp: resume_node_def Let_def intro: runs_mono_trans executeNode_mono split: option.split)
qed (auto simp: resume_node_def split: option.split)

lemma ack_mono: "runs_mono (scenario_runs w) (scenario_runs (handleNodeCommandAck p nr a w))"
proof -
  have "runs_mono (scenario_runs w) (scenario_runs (resume_node p nr b (w\<lparr>pendingFanOuts := fs\<rparr>)))" for b fs
    using resume_mono [of "w\<lparr>pendingFanOuts := fs\<rparr>"] by simp
  then show ?thesis using resume_mono [of w p nr a]
    by (auto simp: handleNodeCommandAck_def Let_def split: option.split)
qed

lemma runs_queue_ops [simp]:
  "scenario_runs (cancelCommand i t w) = scenario_runs w" "scenario_runs (fst (expireCommands w)) = scenario_runs w"
  by (simp_all add: cancelCommand_def expireCommands_def Let_def)

lemma runs_ack_ops [simp]:
  "scenario_runs (fst (ack_update d a w)) = scenario_runs w" "scenario_runs (ack_insert d t a w) = scenario_runs w"
  "scenario_runs (ack_emit t a row w) = scenario_runs w" "scenario_runs (ack_tunnel_failed a row w) = scenario_runs w"
  "scenario_runs (ack_updates d a row w) = scenario_runs w" "scenario_runs (ack_probe_done a row w) = scenario_runs w"
proof -
  show "scenario_runs (fst (ack_update d a w)) = scenario_runs w" by (simp add: ack_update_def Let_def)
  show "scenario_runs (ack_insert d t a w) = scenario_runs w"
    by (simp add: ack_insert_def insert_command_def Let_def split: option.split)
  show "scenario_runs (ack_emit t a row w) = scenario_runs w" by (simp add: ack_emit_def emit_def Let_def split: option.split)
  show "scenario_runs (ack_tunnel_failed a row w) = scenario_runs w"
    by (simp add: ack_tunnel_failed_def emit_def Let_def split: option.split json.split)
  show "scenario_runs (ack_updates d a row w) = scenario_runs w" by (simp add: ack_updates_def Let_def split: option.split)
  show "scenario_runs (ack_probe_done a row w) = scenario_runs w" by (simp add: ack_probe_done_def Let_def split: option.split)
qed

lemma runs_processAck: "processAck d t a w = (w', r) \<Longrightarrow> scenario_runs w' = scenario_runs w"
proof -
  assume e: "processAck d t a w = (w', r)"
  obtain w1 k where u: "ack_update d a w = (w1, k)" by fastforce
  then have "scenario_runs w1 = scenario_runs w" using runs_ack_ops(1) [of d a w] by simp
  with e u show ?thesis by (auto simp: processAck_def Let_def split: if_splits)
qed

lemma ackCommand_mono: "runs_mono (scenario_runs w) (scenario_runs (ackCommand p d t a w))"
proof -
  obtain w1 row where e: "processAck d t a w = (w1, row)" by fastforce
  show ?thesis
    using runs_processAck [OF e] ack_mono [of w1] by (auto simp: ackCommand_def e ackToScenario_def split: option.split)
qed

lemma expire_mono: "runs_mono (scenario_runs w) (scenario_runs (expire_notify p cs w))"
proof (induction p cs w rule: expire_notify.induct)
  case (2 p c cs w)
  let ?w1 = "if cq_source_type c = Some ''scenario_node'' \<and> text_or (cq_source_id c) [] \<noteq> []
    then handleNodeCommandAck p (the (cq_source_id c)) (Some (-1), None, Some timeout_message) w else w"
  have "runs_mono (scenario_runs w) (scenario_runs ?w1)" using ack_mono [of w p] by simp
  from this 2 show ?case unfolding expire_notify.simps by (rule runs_mono_trans)
qed simp

lemma cleanup_mono: "runs_mono (scenario_runs w) (scenario_runs (cleanupJob p w))"
  using expire_mono [of "fst (expireCommands w)" p "snd (expireCommands w)"]
  by (simp add: cleanupJob_def case_prod_unfold Let_def)

lemma rearm_mono: "runs_mono (scenario_runs w) (scenario_runs (foldl (rearm_one p) w os))"
proof (induction os arbitrary: w)
  case (Cons x os)
  have "runs_mono (scenario_runs w) (scenario_runs (rearm_one p w x))"
    using ack_mono [of w p] by (simp add: rearm_one_def Let_def)
  with Cons show ?case by (auto intro: runs_mono_trans)
qed simp

lemma timer_mono: "runs_mono (scenario_runs w) (scenario_runs (fire_timer p t w))"
  using ack_mono [of "w\<lparr>timers := remove1 t (timers w)\<rparr>"] by (simp add: fire_timer_def)

section \<open>Starting\<close>

text \<open>The gate only writes its own caches.\<close>

definition gate_view :: "'a sc_db_scheme \<Rightarrow> _" where
  "gate_view w = (scenario_runs w, command_queue w, devices w)"

lemma gate_view_caches [simp]:
  "gate_view (initScenarioAccountability w) = gate_view w" "gate_view (fst (roleOf u w)) = gate_view w"
  "gate_view (w\<lparr>verdicts := v\<rparr>) = gate_view w"
  by (simp_all add: initScenarioAccountability_def roleOf_def gate_view_def Let_def split: option.split)

lemma gate_view_denial: "gate_view (fst (accountableUserDenial s d w)) = gate_view w"
proof (cases "orElse (scn_updated_by s) (scn_created_by s)")
  case (Some u)
  let ?w1 = "if epoch_ms w = None then initScenarioAccountability w else w"
  obtain w2 r where r: "roleOf u ?w1 = (w2, r)" by fastforce
  have "gate_view w2 = gate_view w" using gate_view_caches(2) [of u ?w1] r by (simp split: if_splits)
  with r show ?thesis by (simp add: accountableUserDenial_def Some Let_def split: option.split)
qed (simp add: accountableUserDenial_def)

lemma denial_same:
  assumes "run_denial s dev opts w = (w1, r)"
  shows "scenario_runs w1 = scenario_runs w" "command_queue w1 = command_queue w" "device_by_id w1 d = device_by_id w d"
proof -
  have "gate_view w1 = gate_view w" using gate_view_denial [of s dev w] assms by (auto simp: run_denial_def split: if_splits)
  then show "scenario_runs w1 = scenario_runs w" "command_queue w1 = command_queue w" "device_by_id w1 d = device_by_id w d"
    by (simp_all add: gate_view_def device_by_id_def)
qed

lemma insert_run_Some: "insert_run r w = Some w' \<longleftrightarrow>
    device_by_id w (run_device r) \<noteq> None \<and> run_id r \<notin> run_id ` set (scenario_runs w) \<and> w' = w\<lparr>scenario_runs := scenario_runs w @ [r]\<rparr>"
  by (auto simp: insert_run_def)

lemma snoc_kept: "run_ok r \<Longrightarrow> run_id r \<notin> run_id ` set rs \<Longrightarrow> runs_kept rs (rs @ [r])"
  by (auto simp: runs_kept_def runs_ok_def keyed_snoc)

lemma skip_record_runs:
  "shouldRecordSkippedRun a b w = (w1, x) \<Longrightarrow> scenario_runs w1 = scenario_runs w \<and> now_ms w1 = now_ms w \<and> devices w1 = devices w"
  by (auto simp: shouldRecordSkippedRun_def Let_def split: option.splits if_splits)

text \<open>A refused run leaves at most one cancelled row.\<close>

lemma record_skipped_runs:
  "scenario_runs (record_skipped s d opts m w) = scenario_runs w \<or>
   (\<exists>i. i \<notin> run_id ` set (scenario_runs w) \<and> device_by_id w d \<noteq> None \<and> scenario_runs (record_skipped s d opts m w) =
      scenario_runs w @ [(new_run i s d opts (so_trigger_source opts) ''cancelled'')\<lparr>run_finished := Some (now_ms w), run_error := Some m\<rparr>])"
proof -
  obtain w1 x where "shouldRecordSkippedRun (scn_id s) d w = (w1, x)" by fastforce
  with skip_record_runs [OF this] show ?thesis
    by (simp add: record_skipped_def fresh_uuid_def emitRunUpdate_def insert_run_def new_run_def emit_def Let_def device_by_id_def)
qed

lemma skipped_kept: "runs_kept (scenario_runs w) (scenario_runs (record_skipped s d opts m w))"
  using record_skipped_runs [of s d opts m w] by (auto simp: new_run_def run_ok_def intro!: snoc_kept)

lemma launch_mono:
  assumes "run_by_id w i = Some run" and "run_status run = ''running''"
  shows "runs_mono (scenario_runs w) (scenario_runs (launch p i sc e w))"
  using assms by (auto simp: launch_def executeNode_mono mark_mono split: option.split)

lemma run_by_id_new:
  assumes "run_id r \<notin> run_id ` set (scenario_runs w)"
  shows "run_by_id (w\<lparr>scenario_runs := scenario_runs w @ [r]\<rparr>) (run_id r) = Some r"
proof -
  have "find (\<lambda>x. run_id x = run_id r) (scenario_runs w) = None"
    unfolding find_None_iff by (metis assms image_eqI)
  then show ?thesis by (simp add: run_by_id_def find_append)
qed

lemma create_run_runs:
  assumes "create_run p s dev opts w = (w', res)"
  shows "(scenario_runs w' = scenario_runs w \<and> (\<exists>e. res = Inl e)) \<or>
    (\<exists>r. r = new_run (run_id r) s dev opts (single_source opts) ''running'' \<and> res = Inr (run_id r) \<and> run_id r \<notin> run_id ` set (scenario_runs w) \<and>
       device_by_id w dev \<noteq> None \<and> runs_mono (scenario_runs w @ [r]) (scenario_runs w'))"
proof (cases "\<exists>e. res = Inl e")
  case True
  then show ?thesis
    using assms by (auto simp: create_run_def fresh_uuid_def split: sum.splits option.splits)
next
  case False
  then obtain entry i w1 where *: "insert_run (new_run i s dev opts (single_source opts) ''running'') (w\<lparr>next_uuid := next_uuid w + 1\<rparr>) = Some w1"
    "w' = launch p i (scn_id s) entry w1" "res = Inr i"
    using assms by (auto simp: create_run_def fresh_uuid_def split: sum.splits option.splits)
  let ?r = "new_run i s dev opts (single_source opts) ''running''"
  have i: "run_id ?r = i" "run_device ?r = dev" "run_status ?r = ''running''" by (simp_all add: new_run_def)
  have n: "i \<notin> run_id ` set (scenario_runs w)" "device_by_id w dev \<noteq> None" "scenario_runs w1 = scenario_runs w @ [?r]"
    using *(1) by (auto simp: insert_run_Some device_by_id_def i)
  have "run_by_id w1 i = Some ?r"
    using *(1) run_by_id_new [of ?r "w\<lparr>next_uuid := next_uuid w + 1\<rparr>"] i n(1) by (simp add: insert_run_Some)
  from launch_mono [OF this i(3)] *(2,3) n i show ?thesis by (intro disjI2 exI [of _ ?r]) simp
qed

lemma create_kept: "create_run p s dev opts w = (w', res) \<Longrightarrow> runs_kept (scenario_runs w) (scenario_runs w')"
proof (drule create_run_runs, elim disjE conjE exE)
  fix r assume "r = new_run (run_id r) s dev opts (single_source opts) ''running''" "run_id r \<notin> run_id ` set (scenario_runs w)"
    "runs_mono (scenario_runs w @ [r]) (scenario_runs w')"
  moreover have "run_ok (new_run (run_id r) s dev opts (single_source opts) ''running'')" by (simp add: new_run_def run_ok_def)
  ultimately show ?thesis by (metis snoc_kept runs_kept_trans runs_mono_kept)
qed simp

lemma start_kept: "startRun p sc raw opts w = (w', res) \<Longrightarrow> runs_kept (scenario_runs w) (scenario_runs w')"
proof -
  assume e: "startRun p sc raw opts w = (w', res)"
  show ?thesis
    using e by (auto simp: startRun_def Let_def split: option.splits if_splits prod.splits dest!: create_kept denial_same(1))
      (metis skipped_kept)+
qed

lemma startRun_past:
  assumes "startRun p sc raw opts w = (w', res)" and "scenario_runs w' \<noteq> scenario_runs w"
  obtains dev s w1 den where "toDbId raw = Some dev" "scenario_by_id w sc = Some s"
    "\<forall>d. device_by_id w dev = Some d \<longrightarrow> dev_privacy d \<longrightarrow> scn_bypass s" "run_denial s dev opts w = (w1, den)"
    "(w', res) = (if text_or den [] \<noteq> [] then (record_skipped s dev opts (the den) w1, Inr []) else create_run p s dev opts w1)"
  using assms by (auto simp: startRun_def Let_def split: option.splits if_splits prod.splits)

lemma mono_new_key:
  assumes "runs_mono (rs @ [r0]) rs'" and "r \<in> set rs'" and "run_id r \<notin> run_id ` set rs"
  shows "run_key r = run_key r0"
proof -
  have "run_key r \<in> set (map run_key (rs @ [r0]))" using assms(1,2) unfolding runs_mono_def by (metis image_eqI set_map)
  with assms(3) show ?thesis by (auto simp: run_key_def)
qed

lemma record_skipped_queue: "command_queue (record_skipped s d opts m w) = command_queue w"
  by (simp add: record_skipped_def shouldRecordSkippedRun_def fresh_uuid_def insert_run_def emitRunUpdate_def emit_def Let_def split: option.split)

text \<open>
  C13. A scenario run comes into being only past the gates of its start: the device id is a valid id of an
  existing device, the scenario exists and is not kept off the device by its privacy mode, and the run belongs
  to the tenant of the scenario. An automatic run that the accountable user has no right to leaves at most a
  cancelled row with the reason and queues no command.
\<close>

theorem run_starts_past_gates:
  assumes "startRun p sc raw opts w = (w', res)" and "r \<in> set (scenario_runs w')" and "run_id r \<notin> run_id ` set (scenario_runs w)"
  shows "\<exists>dev s d. toDbId raw = Some dev \<and> scenario_by_id w sc = Some s \<and> device_by_id w dev = Some d \<and> (dev_privacy d \<longrightarrow> scn_bypass s) \<and>
    run_device r = dev \<and> run_scenario r = sc \<and> run_tenant r = scn_tenant s \<and> run_trigger_type r = so_trigger_type opts \<and>
    (res = Inr (run_id r) \<and> (so_trigger_type opts \<noteq> ''manual'' \<longrightarrow> text_or (snd (accountableUserDenial s dev w)) [] = []) \<or>
     res = Inr [] \<and> run_status r = ''cancelled'' \<and> run_error r = snd (accountableUserDenial s dev w) \<and> command_queue w' = command_queue w)"

proof -
  have "scenario_runs w' \<noteq> scenario_runs w" using assms(2,3) by auto
  from startRun_past [OF assms(1) this] obtain dev s w1 den where g: "toDbId raw = Some dev" "scenario_by_id w sc = Some s"
    "\<forall>d. device_by_id w dev = Some d \<longrightarrow> dev_privacy d \<longrightarrow> scn_bypass s" "run_denial s dev opts w = (w1, den)"
    "(w', res) = (if text_or den [] \<noteq> [] then (record_skipped s dev opts (the den) w1, Inr []) else create_run p s dev opts w1)"
    by blast
  have sc: "scn_id s = sc" using g(2) by (auto simp: scenario_by_id_def dest: find_SomeD)
  note same = denial_same [OF g(4)]
  show ?thesis
  proof (cases "text_or den [] \<noteq> []")
    case True
    then have w': "w' = record_skipped s dev opts (the den) w1" "res = Inr []" "den \<noteq> None" using g(5) by (auto simp: text_or_def split: option.splits)
    then have "so_trigger_type opts \<noteq> ''manual''" "snd (accountableUserDenial s dev w) = den" using g(4) by (auto simp: run_denial_def split: if_splits)
    moreover obtain i where "r = (new_run i s dev opts (so_trigger_source opts) ''cancelled'')\<lparr>run_finished := Some (now_ms w1), run_error := Some (the den)\<rparr>"
      "device_by_id w dev \<noteq> None"
      using record_skipped_runs [of s dev opts "the den" w1] assms(2,3) w'(1) same by auto
    ultimately show ?thesis
      using g(1-3) sc w' same by (auto simp: new_run_def record_skipped_queue)
  next
    case False
    then have "create_run p s dev opts w1 = (w', res)" using g(5) by simp
    from create_run_runs [OF this] same assms(2,3) obtain r0 where r0: "r0 = new_run (run_id r0) s dev opts (single_source opts) ''running''"
      "res = Inr (run_id r0)" "device_by_id w dev \<noteq> None" "runs_mono (scenario_runs w @ [r0]) (scenario_runs w')" by auto
    have "run_key r = run_key r0" using mono_new_key [OF r0(4) assms(2,3)] .
    with r0(1) have "run_id r = run_id r0" "run_device r = dev" "run_scenario r = sc" "run_tenant r = scn_tenant s" "run_trigger_type r = so_trigger_type opts"
      by (simp_all add: run_key_def sc) (metis new_run_def run_row.select_convs sc)+
    moreover have "so_trigger_type opts \<noteq> ''manual'' \<longrightarrow> text_or (snd (accountableUserDenial s dev w)) [] = []"
      using g(4) False by (auto simp: run_denial_def)
    ultimately show ?thesis using g(1-3) r0(2,3) by auto
  qed
qed

definition ex_opts :: start_opts where
  "ex_opts = \<lparr>so_trigger_type = ''manual'', so_trigger_source = None, so_trigger_node = None, so_start_node = Some 11, so_single = False\<rparr>"

lemma ex_start: "\<exists>i. snd (startRun (\<lambda>_. True) 1 (VNum (Fin 4)) ex_opts ex_sc) = Inr i \<and> scenario_runs (fst (startRun (\<lambda>_. True) 1 (VNum (Fin 4)) ex_opts ex_sc)) \<noteq> []"
proof -
  have s: "startRun (\<lambda>_. True) 1 (VNum (Fin 4)) ex_opts ex_sc = create_run (\<lambda>_. True) ex_scenario 4 ex_opts ex_sc"
    by (simp add: startRun_def id_in_range_def int4_max_def scenario_by_id_def run_denial_def ex_opts_def text_or_def ex_sc_defs split: option.split)
  obtain w' res where c: "create_run (\<lambda>_. True) ex_scenario 4 ex_opts ex_sc = (w', res)" by fastforce
  have "\<exists>i. res = Inr i"
    using c by (auto simp: create_run_def entry_node_def node_in_scenario_def ex_opts_def fresh_uuid_def insert_run_def new_run_def device_by_id_def
        ex_sc_defs split: option.splits if_splits)
  with create_run_runs [OF c] show ?thesis unfolding s c by (auto simp: runs_mono_def)
qed

theorem run_starts_past_gates_witness:
  "\<exists>r \<in> set (scenario_runs (fst (startRun (\<lambda>_. True) 1 (VNum (Fin 4)) ex_opts ex_sc))). run_device r = 4 \<and> run_tenant r = 2"
proof -
  obtain w' res where e: "startRun (\<lambda>_. True) 1 (VNum (Fin 4)) ex_opts ex_sc = (w', res)" by fastforce
  then obtain r where r: "r \<in> set (scenario_runs w')" using ex_start by (cases "scenario_runs w'") auto
  have n: "run_id r \<notin> run_id ` set (scenario_runs ex_sc)" by (simp add: ex_sc_defs)
  from run_starts_past_gates [OF e r n] obtain dev s where "toDbId (VNum (Fin 4)) = Some dev" "scenario_by_id ex_sc 1 = Some s"
    "run_device r = dev" "run_tenant r = scn_tenant s" by blast
  then have "run_device r = 4 \<and> run_tenant r = 2"
    by (auto simp: id_in_range_def int4_max_def scenario_by_id_def ex_sc_defs)
  with e r show ?thesis by auto
qed

section \<open>Every sequence of events\<close>

datatype sc_event =
    EStart nat js_value start_opts
  | EEnqueue enqueue_args
  | EAck nat nat command_ack
  | ECancel string nat
  | EExpire
  | ETimer "int \<times> string"
  | ERestart
  | ETick int

fun sc_apply :: "(string \<Rightarrow> bool) \<Rightarrow> sc_event \<Rightarrow> 'a sc_db_scheme \<Rightarrow> 'a sc_db_scheme" where
  "sc_apply p (EStart sc dev opts) w = fst (startRun p sc dev opts w)"
| "sc_apply p (EEnqueue a) w = fst (enqueue a w)"
| "sc_apply p (EAck d t a) w = ackCommand p d t a w"
| "sc_apply p (ECancel i t) w = cancelCommand i t w"
| "sc_apply p EExpire w = cleanupJob p w"
| "sc_apply p (ETimer t) w = (if t \<in> set (timers w) \<and> fst t \<le> now_ms w then fire_timer p t w else w)"
| "sc_apply p ERestart w = rearmWaitTimersOnBoot p (initScenarioAccountability (restart w))"
| "sc_apply p (ETick ms) w = w\<lparr>now_ms := now_ms w + abs ms\<rparr>"

lemma sc_apply_kept: "runs_kept (scenario_runs w) (scenario_runs (sc_apply p e w))"
proof (cases e)
  case (EStart sc dev opts)
  then show ?thesis using start_kept [of p sc dev opts w] by (cases "startRun p sc dev opts w") simp
next
  case (EEnqueue a)
  then show ?thesis using view_enqueue [of a w] by (cases "enqueue a w") (simp add: engine_view_eq)
next
  case ERestart
  have "scenario_runs (initScenarioAccountability (restart w)) = scenario_runs w"
    by (simp add: initScenarioAccountability_def restart_def Let_def)
  with ERestart rearm_mono [of "initScenarioAccountability (restart w)" p] show ?thesis
    by (auto simp: rearmWaitTimersOnBoot_def intro: runs_mono_kept)
qed (auto intro: runs_mono_kept ackCommand_mono cleanup_mono timer_mono)

interpretation run_machine: guarded_machine
  "\<lambda>w. runs_ok (scenario_runs w) \<and> R \<subseteq> {r \<in> set (scenario_runs w). run_status r \<noteq> ''running''}"
  "\<lambda>w w'. \<exists>e. w' = sc_apply p e w" for R p
proof
  fix w w' :: "'a sc_db_scheme"
  assume "runs_ok (scenario_runs w) \<and> R \<subseteq> {r \<in> set (scenario_runs w). run_status r \<noteq> ''running''}" "\<exists>e. w' = sc_apply p e w"
  then show "runs_ok (scenario_runs w') \<and> R \<subseteq> {r \<in> set (scenario_runs w'). run_status r \<noteq> ''running''}"
    using sc_apply_kept [of w p] by (auto simp: runs_kept_def)
qed


definition ex_ended :: sc_db where
  "ex_ended = ex_sc\<lparr>scenario_runs := [ex_run\<lparr>run_status := ''success'', run_finished := Some 900\<rparr>]\<rparr>"


text \<open>
  C34. The run table is well typed in every reachable state: starting from no run, after any sequence of starts,
  acknowledgements, cancellations, expiries, timers and restarts no two runs share an id, every status is one of the
  four of the code, and a run has an end date exactly when it is not running.
\<close>

theorem run_rows_typed:
  assumes "scenario_runs w = []" and "(\<lambda>w w'. \<exists>e. w' = sc_apply p e w)\<^sup>*\<^sup>* w w'"
  shows "distinct (map run_id (scenario_runs w')) \<and>
    (\<forall>r \<in> set (scenario_runs w'). run_status r \<in> {''running'', ''success'', ''failure'', ''cancelled''} \<and>
       (run_finished r = None \<longleftrightarrow> run_status r = ''running''))"
proof -
  have "runs_ok (scenario_runs w)" by (simp add: assms(1) runs_ok_def keyed_def)
  then have "runs_ok (scenario_runs w')" using run_machine.reach_inv [OF assms(2), of "{}"] by simp
  then show ?thesis by (simp add: runs_ok_def run_ok_def keyed_def)
qed

theorem run_rows_typed_witness:
  "\<exists>i. snd (startRun (\<lambda>_. True) 1 (VNum (Fin 4)) ex_opts ex_sc) = Inr i \<and>
     list_all (\<lambda>r. run_status r \<in> {''running'', ''success'', ''failure'', ''cancelled''}) (scenario_runs (fst (startRun (\<lambda>_. True) 1 (VNum (Fin 4)) ex_opts ex_sc)))"
proof -
  let ?w = "sc_apply (\<lambda>_. True) (EStart 1 (VNum (Fin 4)) ex_opts) ex_sc"
  have "scenario_runs ex_sc = []" by (simp add: ex_sc_defs)
  moreover have "(\<lambda>w w'. \<exists>e. w' = sc_apply (\<lambda>_. True) e w)\<^sup>*\<^sup>* ex_sc ?w" by blast
  ultimately show ?thesis using run_rows_typed [of ex_sc "\<lambda>_. True" ?w] ex_start by (auto simp: list_all_iff)
qed

end
