(* ===== verification/User_Scope.thy ===== *)
theory User_Scope
  imports Permission
begin

text \<open>
  Whom a user manager may act on (\<^verbatim>\<open>server/src/services/userScope.service.ts\<close> and \<open>setUserTenantAssignments\<close> of
  \<^verbatim>\<open>user.service.ts\<close>). An \<open>AppError\<close> is its HTTP status with its text. Ids arrive as the number \<open>Number()\<close> makes of
  them; a role in an assignment is a text or missing. The foreign key of a membership to its tenant is not
  modelled.
\<close>

datatype app_error = AppError nat string

record scope_actor =
  sa_user :: nat
  sa_admin :: bool
  sa_tenant :: nat

record tenant_assignment =
  ta_tenant :: nat
  ta_role :: string

definition master_tenant_id :: nat where "master_tenant_id = 1"

definition normaliseTenantRole :: "string option \<Rightarrow> string" where
  "normaliseTenantRole role =
     (let r = trim (case role of None \<Rightarrow> [] | Some s \<Rightarrow> s) in if r = [] \<or> r = ''member'' then ''user'' else r)"

datatype caps = AllCaps | CapSet "string list"

definition capsOfRole :: "'a org_scheme \<Rightarrow> string \<Rightarrow> caps option" where
  "capsOfRole w role =
     (if role = ''admin'' then Some AllCaps
      else map_option (\<lambda>s. CapSet (ps_caps s)) (find (\<lambda>s. ps_slug s = role) (permission_sets w)))"

definition membershipRole :: "'a org_scheme \<Rightarrow> nat \<Rightarrow> nat \<Rightarrow> string option" where
  "membershipRole w u t =
     map_option (\<lambda>r. normaliseTenantRole (Some (ut_role r))) (find (\<lambda>r. ut_user r = u \<and> ut_tenant r = t) (user_tenants w))"

definition holds_more :: string where "holds_more = ''This user has permissions you do not hold''"

definition refusalFor :: "'a org_scheme \<Rightarrow> scope_actor \<Rightarrow> nat \<Rightarrow> string \<Rightarrow> string option" where
  "refusalFor w actor t targetRole =
     (let callerRole = membershipRole w (sa_user actor) t
      in if callerRole = Some ''admin'' then None
         else if targetRole = ''admin''
         then Some ''Only an administrator of each of this user's tenants can manage a tenant administrator''
         else case (case callerRole of None \<Rightarrow> None | Some r \<Rightarrow> if r = [] then None else capsOfRole w r) of
           Some AllCaps \<Rightarrow> None
         | None \<Rightarrow> Some ''This user also belongs to a tenant where you cannot manage users''
         | Some (CapSet cs) \<Rightarrow>
             if ''users.manage'' \<notin> set cs then Some ''This user also belongs to a tenant where you cannot manage users''
             else case capsOfRole w targetRole of
               Some AllCaps \<Rightarrow> Some holds_more
             | Some (CapSet ts) \<Rightarrow> if list_ex (\<lambda>c. c \<notin> set cs) ts then Some holds_more else None
             | None \<Rightarrow> None)"

fun first_refusal :: "'a org_scheme \<Rightarrow> scope_actor \<Rightarrow> user_tenant_row list \<Rightarrow> string option" where
  "first_refusal w actor [] = None"
| "first_refusal w actor (r # rs) =
     (case refusalFor w actor (ut_tenant r) (normaliseTenantRole (Some (ut_role r))) of
        Some m \<Rightarrow> Some m
      | None \<Rightarrow> first_refusal w actor rs)"

definition tenant_rows :: "'a org_scheme \<Rightarrow> nat \<Rightarrow> user_tenant_row list" where
  "tenant_rows w u = filter (\<lambda>r. ut_user r = u) (user_tenants w)"

definition assertManageableTarget :: "'a org_scheme \<Rightarrow> scope_actor \<Rightarrow> jsnum \<Rightarrow> app_error + user_row" where
  "assertManageableTarget w actor targetId =
     (case int_id targetId of
        None \<Rightarrow> Inl (AppError 400 ''Invalid user id'')
      | Some i \<Rightarrow>
          (case find (\<lambda>u. usr_id u = i) (users w) of
             None \<Rightarrow> Inl (AppError 404 ''User not found'')
           | Some target \<Rightarrow>
               if sa_admin actor then Inr target
               else if usr_role target = ''admin''
               then Inl (AppError 403 ''Only a platform administrator can manage an administrator account'')
               else if \<not> list_ex (\<lambda>r. ut_tenant r = sa_tenant actor) (tenant_rows w i) then Inl (AppError 404 ''User not found'')
               else case first_refusal w actor (tenant_rows w i) of
                 Some m \<Rightarrow> Inl (AppError 403 m)
               | None \<Rightarrow> Inr target))"

definition assertReadableTarget :: "'a org_scheme \<Rightarrow> scope_actor \<Rightarrow> jsnum \<Rightarrow> app_error + unit" where
  "assertReadableTarget w actor targetId =
     (case int_id targetId of
        None \<Rightarrow> Inl (AppError 400 ''Invalid user id'')
      | Some i \<Rightarrow>
          if sa_admin actor \<or> sa_tenant actor = master_tenant_id then Inr ()
          else if find (\<lambda>r. ut_user r = i \<and> ut_tenant r = sa_tenant actor) (user_tenants w) = None
          then Inl (AppError 404 ''User not found'') else Inr ())"

text \<open>The assignments as sent: each a tenant id and a role.\<close>

fun wanted_list :: "nat list \<Rightarrow> (jsnum \<times> string option) list \<Rightarrow> app_error + tenant_assignment list" where
  "wanted_list seen [] = Inr []"
| "wanted_list seen ((x, role) # as) =
     (case int_id x of
        None \<Rightarrow> Inl (AppError 400 ''Invalid tenant id'')
      | Some t \<Rightarrow>
          if t \<in> set seen then Inl (AppError 400 ''Duplicate tenant in assignments'')
          else case wanted_list (t # seen) as of
                 Inl e \<Rightarrow> Inl e
               | Inr ws \<Rightarrow> Inr (\<lparr>ta_tenant = t, ta_role = normaliseTenantRole role\<rparr> # ws))"

definition touches_other :: "scope_actor \<Rightarrow> tenant_assignment list \<Rightarrow> tenant_assignment \<Rightarrow> bool" where
  "touches_other actor kept x \<longleftrightarrow> ta_tenant x \<noteq> sa_tenant actor \<and>
     (case find (\<lambda>k. ta_tenant k = ta_tenant x) kept of None \<Rightarrow> True | Some k \<Rightarrow> ta_role k \<noteq> ta_role x)"

definition grantable :: "'a org_scheme \<Rightarrow> scope_actor \<Rightarrow> string \<Rightarrow> app_error option" where
  "grantable w actor role =
     (if role = ''admin''
      then (if membershipRole w (sa_user actor) (sa_tenant actor) \<noteq> Some ''admin''
            then Some (AppError 403 ''Only a tenant administrator can grant the tenant administrator role'') else None)
      else if capsOfRole w role = None then Some (AppError 400 (''Unknown role: '' @ role))
      else if refusalFor w actor (sa_tenant actor) role \<noteq> None
      then Some (AppError 403 ''You can only grant a role whose permissions you hold'') else None)"

text \<open>\<open>assignments\<close> is \<open>None\<close> when the request body holds no array.\<close>

definition resolveTenantAssignments ::
  "'a org_scheme \<Rightarrow> scope_actor \<Rightarrow> nat \<Rightarrow> (jsnum \<times> string option) list option \<Rightarrow> app_error + tenant_assignment list" where
  "resolveTenantAssignments w actor targetId assignments =
     (case assignments of
        None \<Rightarrow> Inl (AppError 400 ''assignments must be an array'')
      | Some as \<Rightarrow>
          (case wanted_list [] as of
             Inl e \<Rightarrow> Inl e
           | Inr wanted \<Rightarrow>
               if sa_admin actor then Inr wanted
               else if targetId = sa_user actor then Inl (AppError 403 ''You cannot change your own tenant access'')
               else case assertManageableTarget w actor (Fin (of_nat targetId)) of
                 Inl e \<Rightarrow> Inl e
               | Inr _ \<Rightarrow>
                   let current = map (\<lambda>r. \<lparr>ta_tenant = ut_tenant r, ta_role = normaliseTenantRole (Some (ut_role r))\<rparr>) (tenant_rows w targetId);
                       kept = filter (\<lambda>r. ta_tenant r \<noteq> sa_tenant actor) current
                   in if list_ex (touches_other actor kept) wanted
                      then Inl (AppError 403 ''You can only change access to the current tenant'')
                      else case find (\<lambda>x. ta_tenant x = sa_tenant actor) wanted of
                        None \<Rightarrow> Inr kept
                      | Some nxt \<Rightarrow>
                          (case grantable w actor (ta_role nxt) of
                             Some e \<Rightarrow> Inl e
                           | None \<Rightarrow> Inr (kept @ [nxt]))))"

definition stored_row :: "nat \<Rightarrow> tenant_assignment \<Rightarrow> user_tenant_row" where
  "stored_row u a = \<lparr>ut_user = u, ut_tenant = ta_tenant a,
     ut_role = (if ta_role a = ''member'' \<or> ta_role a = [] then ''user'' else ta_role a)\<rparr>"

definition setUserTenantAssignments :: "nat \<Rightarrow> tenant_assignment list \<Rightarrow> 'a org_scheme \<Rightarrow> 'a org_scheme" where
  "setUserTenantAssignments u as w =
     w\<lparr>user_tenants := tbl_delete (\<lambda>r. ut_user r = u) (user_tenants w) @ map (stored_row u) as\<rparr>"

section \<open>Dominance\<close>

definition role_has :: "'a org_scheme \<Rightarrow> string \<Rightarrow> string \<Rightarrow> bool" where
  "role_has w role c \<longleftrightarrow> (case capsOfRole w role of None \<Rightarrow> False | Some AllCaps \<Rightarrow> True | Some (CapSet cs) \<Rightarrow> c \<in> set cs)"

definition member_has :: "'a org_scheme \<Rightarrow> nat \<Rightarrow> nat \<Rightarrow> string \<Rightarrow> bool" where
  "member_has w u t c \<longleftrightarrow> (case membershipRole w u t of None \<Rightarrow> False | Some r \<Rightarrow> role_has w r c)"

lemma role_not_empty [simp]: "membershipRole w u t \<noteq> Some []" "normaliseTenantRole r \<noteq> []"
proof -
  show n: "normaliseTenantRole r \<noteq> []" for r by (simp add: normaliseTenantRole_def Let_def)
  then show "membershipRole w u t \<noteq> Some []" by (auto simp: membershipRole_def)
qed

lemma set_not_all: "\<exists>c. c \<notin> set (cs :: string list)"
  using ex_new_if_finite [OF infinite_UNIV_listI, of "set cs"] by auto

lemma refusal_None:
  "refusalFor w actor t role = None \<longleftrightarrow> member_has w (sa_user actor) t ''users.manage'' \<and>
     (\<forall>c. role_has w role c \<longrightarrow> member_has w (sa_user actor) t c)"
proof (cases "membershipRole w (sa_user actor) t")
  case None
  then show ?thesis by (auto simp: refusalFor_def member_has_def)
next
  case (Some r)
  have ne: "r \<noteq> []" using Some by auto
  show ?thesis
  proof (cases "capsOfRole w r")
    case None
    then have "r \<noteq> ''admin''" by (auto simp: capsOfRole_def)
    then show ?thesis using Some ne None by (auto simp: refusalFor_def member_has_def role_has_def)
  next
    case caps: (Some cs)
    show ?thesis
    proof (cases cs)
      case AllCaps
      then have "r = ''admin''" using caps by (auto simp: capsOfRole_def split: if_splits)
      then show ?thesis using Some caps AllCaps by (simp add: refusalFor_def member_has_def role_has_def)
    next
      case (CapSet ks)
      then have "r \<noteq> ''admin''" using caps by (auto simp: capsOfRole_def)
      moreover have "capsOfRole w role = Some AllCaps \<longleftrightarrow> role = ''admin''" by (auto simp: capsOfRole_def)
      ultimately show ?thesis
        using Some ne caps CapSet set_not_all [of ks]
        by (auto simp: refusalFor_def member_has_def role_has_def list_ex_iff split: option.splits caps.splits)
    qed
  qed
qed

lemma first_refusal_None:
  "first_refusal w actor rs = None \<longleftrightarrow> (\<forall>r \<in> set rs. refusalFor w actor (ut_tenant r) (normaliseTenantRole (Some (ut_role r))) = None)"
  by (induction rs) (auto split: option.splits)

text \<open>What migration 091 and the writers of the table keep: one row per user and tenant, with a plain role.\<close>

definition memberships_ok :: "'a org_scheme \<Rightarrow> bool" where
  "memberships_ok w \<longleftrightarrow> keyed (\<lambda>r. (ut_user r, ut_tenant r)) (user_tenants w) \<and>
     list_all (\<lambda>r. normaliseTenantRole (Some (ut_role r)) = ut_role r) (user_tenants w)"

lemma find_membership:
  assumes "memberships_ok w" and "r \<in> set (user_tenants w)"
  shows "find (\<lambda>x. ut_user x = ut_user r \<and> ut_tenant x = ut_tenant r) (user_tenants w) = Some r"
  using assms find_keyed [of "\<lambda>r. (ut_user r, ut_tenant r)" "user_tenants w" r] by (simp add: memberships_ok_def)

lemma member_has_capability:
  assumes "memberships_ok w"
  shows "member_has w u t c \<longleftrightarrow> userHasTenantCapability w u t c"
proof (cases "find (\<lambda>r. ut_user r = u \<and> ut_tenant r = t) (user_tenants w)")
  case None
  then show ?thesis by (simp add: member_has_def membershipRole_def userHasTenantCapability_def)
next
  case (Some r)
  then have "normaliseTenantRole (Some (ut_role r)) = ut_role r"
    using assms find_SomeD [OF Some] by (auto simp: memberships_ok_def list_all_iff)
  with Some show ?thesis
    by (simp add: member_has_def membershipRole_def userHasTenantCapability_def role_has_def capsOfRole_def split: option.split)
qed

lemma rows_dominated:
  assumes "memberships_ok w"
  shows "first_refusal w actor (tenant_rows w u) = None \<longleftrightarrow>
    (\<forall>t. (\<exists>r \<in> set (user_tenants w). ut_user r = u \<and> ut_tenant r = t) \<longrightarrow> userHasTenantCapability w (sa_user actor) t ''users.manage'' \<and>
       (\<forall>c. userHasTenantCapability w u t c \<longrightarrow> userHasTenantCapability w (sa_user actor) t c))"
proof -
  have "role_has w (normaliseTenantRole (Some (ut_role r))) c \<longleftrightarrow> userHasTenantCapability w (ut_user r) (ut_tenant r) c"
    if "r \<in> set (user_tenants w)" for r c
    unfolding member_has_capability [OF assms, symmetric] by (simp add: member_has_def membershipRole_def find_membership [OF assms that])
  then show ?thesis
    by (auto simp: first_refusal_None refusal_None tenant_rows_def member_has_capability [OF assms])
qed

text \<open>
  C15. A user manager who is not a platform administrator may act on an account exactly when the account exists,
  is no platform administrator, belongs to the manager's current tenant, and in every tenant it belongs to
  the manager holds \<open>users.manage\<close> and every capability the account holds there: taking over an account never
  widens the manager's rights.
\<close>

theorem manageable_iff_dominated:
  assumes "memberships_ok w" and "\<not> sa_admin actor"
  shows "assertManageableTarget w actor x = Inr target \<longleftrightarrow>
    (\<exists>i. int_id x = Some i \<and> find (\<lambda>u. usr_id u = i) (users w) = Some target \<and> usr_role target \<noteq> ''admin'' \<and>
       (\<exists>r \<in> set (user_tenants w). ut_user r = i \<and> ut_tenant r = sa_tenant actor) \<and>
       (\<forall>t. (\<exists>r \<in> set (user_tenants w). ut_user r = i \<and> ut_tenant r = t) \<longrightarrow>
          userHasTenantCapability w (sa_user actor) t ''users.manage'' \<and>
          (\<forall>c. userHasTenantCapability w i t c \<longrightarrow> userHasTenantCapability w (sa_user actor) t c)))"
proof -
  have "list_ex (\<lambda>r. ut_tenant r = sa_tenant actor) (tenant_rows w i) \<longleftrightarrow> (\<exists>r \<in> set (user_tenants w). ut_user r = i \<and> ut_tenant r = sa_tenant actor)" for i
    by (auto simp: tenant_rows_def list_ex_iff)
  then show ?thesis
    using assms(2) by (simp add: assertManageableTarget_def rows_dominated [OF assms(1), symmetric] split: option.split) blast
qed

section \<open>Tenant assignments\<close>

lemma trim_trim [simp]: "trim (trim s) = trim s"
proof -
  let ?d = "dropWhile is_space s"
  have p: "prefix (trim s) ?d" by (metis trim_def suffix_dropWhile suffix_to_prefix rev_rev_ident)
  have "dropWhile is_space (trim s) = trim s"
  proof (cases "trim s")
    case (Cons c cs)
    with p obtain zs where d: "?d = c # zs" by (auto simp: prefix_def)
    then have "\<not> is_space c" using hd_dropWhile [of is_space s] by (metis list.sel(1) list.simps(3))
    with Cons show ?thesis by simp
  qed simp
  moreover have "dropWhile is_space (rev (trim s)) = rev (trim s)" by (simp add: trim_def dropWhile_idem)
  ultimately show ?thesis unfolding trim_def [of "trim s"] by simp
qed

lemma normalise_idem [simp]: "normaliseTenantRole (Some (normaliseTenantRole r)) = normaliseTenantRole r"
proof -
  have "trim ''user'' = ''user''" by code_simp
  then show ?thesis by (auto simp: normaliseTenantRole_def Let_def)
qed

definition plain_role :: "string \<Rightarrow> bool" where
  "plain_role r \<longleftrightarrow> r \<noteq> [] \<and> r \<noteq> ''member'' \<and> normaliseTenantRole (Some r) = r"

lemma plain_normalised [simp]: "plain_role (normaliseTenantRole r)"
  by (simp add: plain_role_def) (simp add: normaliseTenantRole_def Let_def)

definition role_in :: "tenant_assignment list \<Rightarrow> nat \<Rightarrow> string option" where
  "role_in as t = map_option ta_role (find (\<lambda>a. ta_tenant a = t) as)"

text \<open>A list of assignments as the resolution makes it: plain roles, one per tenant.\<close>

definition clean_assignments :: "tenant_assignment list \<Rightarrow> bool" where
  "clean_assignments as \<longleftrightarrow> keyed ta_tenant as \<and> (\<forall>a \<in> set as. plain_role (ta_role a))"

lemma stored_row_simps [simp]:
  "ut_user (stored_row u a) = u" "ut_tenant (stored_row u a) = ta_tenant a" "plain_role (ta_role a) \<Longrightarrow> ut_role (stored_row u a) = ta_role a"
  by (auto simp: stored_row_def plain_role_def)

lemma membershipRole_set:
  assumes "clean_assignments as"
  shows "membershipRole (setUserTenantAssignments u as w) v t = (if v = u then role_in as t else membershipRole w v t)"
proof -
  have gone: "find (\<lambda>r. ut_user r = v \<and> ut_tenant r = t) (tbl_delete (\<lambda>r. ut_user r = u) rows) =
      (if v = u then None else find (\<lambda>r. ut_user r = v \<and> ut_tenant r = t) rows)" for rows
    by (induction rows) (auto simp: tbl_delete_def)
  have new: "map_option (\<lambda>r. normaliseTenantRole (Some (ut_role r))) (find (\<lambda>r. ut_user r = v \<and> ut_tenant r = t) (map (stored_row u) bs)) =
      (if v = u then role_in bs t else None)" if "\<forall>a \<in> set bs. plain_role (ta_role a)" for bs
    using that by (induction bs) (auto simp: role_in_def plain_role_def)
  show ?thesis
    using assms new [of as] by (auto simp: membershipRole_def setUserTenantAssignments_def find_append gone orElse_def clean_assignments_def split: option.split)
qed

lemma memberships_ok_set:
  assumes "memberships_ok w" and "clean_assignments as"
  shows "memberships_ok (setUserTenantAssignments u as w)"
proof -
  let ?key = "\<lambda>r. (ut_user r, ut_tenant r)" and ?old = "tbl_delete (\<lambda>r. ut_user r = u) (user_tenants w)" and ?new = "map (stored_row u) as"
  have k: "map ?key ?new = map (\<lambda>a. (u, ta_tenant a)) as" by simp
  have "distinct (map ?key ?old)" using keyed_tbl_delete [of ?key "user_tenants w"] assms(1) by (simp add: memberships_ok_def keyed_def)
  moreover have "distinct (map ?key ?new)"
    using assms(2) unfolding k by (auto simp: clean_assignments_def keyed_def distinct_map inj_on_def)
  moreover have "set (map ?key ?old) \<inter> set (map ?key ?new) = {}" unfolding k by (auto simp: set_tbl_delete)
  ultimately have "keyed ?key (?old @ ?new)" unfolding keyed_def map_append distinct_append by blast
  moreover have "list_all (\<lambda>r. normaliseTenantRole (Some (ut_role r)) = ut_role r) (?old @ ?new)"
    using assms by (auto simp: memberships_ok_def clean_assignments_def list_all_iff set_tbl_delete plain_role_def)
  ultimately show ?thesis by (simp add: memberships_ok_def setUserTenantAssignments_def)
qed

lemma wanted_keyed:
  "wanted_list seen as = Inr ws \<Longrightarrow> keyed ta_tenant ws \<and> (\<forall>x \<in> set ws. ta_tenant x \<notin> set seen \<and> plain_role (ta_role x))"
proof (induction seen as arbitrary: ws rule: wanted_list.induct)
  case (1 seen)
  then show ?case by (simp add: keyed_def)
next
  case (2 seen x role as)
  from "2.prems" obtain t vs where t: "int_id x = Some t" "t \<notin> set seen" "wanted_list (t # seen) as = Inr vs"
    "ws = \<lparr>ta_tenant = t, ta_role = normaliseTenantRole role\<rparr> # vs" by (simp split: option.splits if_splits sum.splits)
  from "2.IH" [OF t(1-3)] t(2,4) show ?case by (auto simp: keyed_def)
qed

text \<open>The memberships of the account outside the manager's tenant, which every resolution keeps.\<close>

definition kept_assignments :: "'a org_scheme \<Rightarrow> scope_actor \<Rightarrow> nat \<Rightarrow> tenant_assignment list" where
  "kept_assignments w actor u = filter (\<lambda>r. ta_tenant r \<noteq> sa_tenant actor)
     (map (\<lambda>r. \<lparr>ta_tenant = ut_tenant r, ta_role = normaliseTenantRole (Some (ut_role r))\<rparr>) (tenant_rows w u))"

lemma resolve_parts:
  assumes "resolveTenantAssignments w actor u asg = Inr l" and "\<not> sa_admin actor"
  shows "u \<noteq> sa_user actor \<and> (\<exists>tg. assertManageableTarget w actor (Fin (of_nat u)) = Inr tg) \<and>
    (l = kept_assignments w actor u \<or>
     (\<exists>nxt. l = kept_assignments w actor u @ [nxt] \<and> ta_tenant nxt = sa_tenant actor \<and> plain_role (ta_role nxt) \<and> grantable w actor (ta_role nxt) = None))"
proof -
  from assms obtain as wanted tg where a: "asg = Some as" "wanted_list [] as = Inr wanted" "u \<noteq> sa_user actor"
    "assertManageableTarget w actor (Fin (of_nat u)) = Inr tg"
    by (auto simp: resolveTenantAssignments_def split: option.splits sum.splits if_splits)
  show ?thesis
  proof (cases "find (\<lambda>x. ta_tenant x = sa_tenant actor) wanted")
    case None
    then show ?thesis
      using assms a by (simp add: resolveTenantAssignments_def kept_assignments_def Let_def split: if_splits)
  next
    case (Some nxt)
    then have "ta_tenant nxt = sa_tenant actor" "plain_role (ta_role nxt)"
      using find_SomeD [OF Some] wanted_keyed [OF a(2)] by auto
    with Some show ?thesis
      using assms a by (simp add: resolveTenantAssignments_def kept_assignments_def Let_def split: if_splits option.splits) blast
  qed
qed

lemma role_in_kept:
  "role_in (kept_assignments w actor u) t = (if t = sa_tenant actor then None else membershipRole w u t)"
proof -
  have "role_in (filter (\<lambda>r. ta_tenant r \<noteq> sa_tenant actor)
      (map (\<lambda>r. \<lparr>ta_tenant = ut_tenant r, ta_role = normaliseTenantRole (Some (ut_role r))\<rparr>) (filter (\<lambda>r. ut_user r = u) rows))) t =
    (if t = sa_tenant actor then None else map_option (\<lambda>r. normaliseTenantRole (Some (ut_role r))) (find (\<lambda>r. ut_user r = u \<and> ut_tenant r = t) rows))" for rows
    by (induction rows) (auto simp: role_in_def)
  then show ?thesis unfolding kept_assignments_def tenant_rows_def membershipRole_def .
qed

lemma kept_clean:
  assumes "memberships_ok w"
  shows "clean_assignments (kept_assignments w actor u)" and "sa_tenant actor \<notin> ta_tenant ` set (kept_assignments w actor u)"
proof -
  have "distinct (map ut_tenant (filter (\<lambda>r. ut_user r = u) rows))" if "distinct (map (\<lambda>r. (ut_user r, ut_tenant r)) rows)" for rows :: "user_tenant_row list"
    using that by (induction rows) (auto simp: image_iff)
  then have "distinct (map ut_tenant (tenant_rows w u))" using assms by (simp add: memberships_ok_def keyed_def tenant_rows_def)
  then show "clean_assignments (kept_assignments w actor u)"
    by (auto simp: clean_assignments_def kept_assignments_def keyed_def filter_map comp_def distinct_map intro: inj_on_subset)
  show "sa_tenant actor \<notin> ta_tenant ` set (kept_assignments w actor u)" by (auto simp: kept_assignments_def)
qed

lemma resolved_clean:
  assumes "memberships_ok w" and "resolveTenantAssignments w actor u asg = Inr l" and "\<not> sa_admin actor"
  shows "clean_assignments l"
  using resolve_parts [OF assms(2,3)] kept_clean [OF assms(1), of actor u] by (auto simp: clean_assignments_def keyed_def)

lemma role_in_snoc: "ta_tenant a \<notin> ta_tenant ` set as \<Longrightarrow> role_in (as @ [a]) t = (if t = ta_tenant a then Some (ta_role a) else role_in as t)"
  by (induction as) (auto simp: role_in_def)

lemma grantable_dominated:
  "grantable w actor role = None \<Longrightarrow> role_has w role c \<Longrightarrow> member_has w (sa_user actor) (sa_tenant actor) c"
  by (auto simp: grantable_def refusal_None member_has_def role_has_def capsOfRole_def split: if_splits option.splits)

lemma role_has_set [simp]: "role_has (setUserTenantAssignments u l w) = role_has w"
  by (simp add: fun_eq_iff role_has_def capsOfRole_def setUserTenantAssignments_def)

lemma resolved_role:
  assumes "memberships_ok w" and "resolveTenantAssignments w actor u asg = Inr l" and "\<not> sa_admin actor"
  shows "t \<noteq> sa_tenant actor \<Longrightarrow> role_in l t = membershipRole w u t"
    and "role_in l (sa_tenant actor) = Some r \<Longrightarrow> grantable w actor r = None"
  using resolve_parts [OF assms(2,3)] kept_clean(2) [OF assms(1), of actor u]
  by (auto simp: role_in_kept role_in_snoc)

text \<open>
  C16. A user manager who is not a platform administrator cannot escalate through tenant assignments: once the
  resolved memberships are stored, every capability the account holds in any tenant is one the manager holds
  there, nothing has changed for another account or outside the manager's current tenant, and the memberships
  still have one plain role per user and tenant.
\<close>

theorem assignments_never_escalate:
  assumes "memberships_ok w" and "resolveTenantAssignments w actor u asg = Inr l" and "\<not> sa_admin actor"
  shows "memberships_ok (setUserTenantAssignments u l w) \<and>
    (\<forall>t c. userHasTenantCapability (setUserTenantAssignments u l w) u t c \<longrightarrow> userHasTenantCapability w (sa_user actor) t c) \<and>
    (\<forall>v t c. v \<noteq> u \<or> t \<noteq> sa_tenant actor \<longrightarrow>
       userHasTenantCapability (setUserTenantAssignments u l w) v t c = userHasTenantCapability w v t c)"
proof -
  let ?w = "setUserTenantAssignments u l w"
  note clean = resolved_clean [OF assms]
  note ok' = memberships_ok_set [OF assms(1) clean]
  note role = membershipRole_set [OF clean, of u w] and rr = resolved_role [OF assms]
  have same: "member_has ?w v t c = member_has w v t c" if "v \<noteq> u \<or> t \<noteq> sa_tenant actor" for v t c
    using that rr(1) by (auto simp: member_has_def role split: option.split)
  have old: "member_has w (sa_user actor) t c" if mh: "member_has w u t c" for t c
  proof -
    obtain tg where "assertManageableTarget w actor (Fin (of_nat u)) = Inr tg" using resolve_parts [OF assms(2,3)] by blast
    then have "first_refusal w actor (tenant_rows w u) = None"
      using assms(3) by (auto simp: assertManageableTarget_def int_id_def split: option.splits if_splits)
    moreover obtain r where "r \<in> set (user_tenants w)" "ut_user r = u" "ut_tenant r = t"
      using mh by (auto simp: member_has_def membershipRole_def dest: find_SomeD split: option.splits)
    ultimately show ?thesis using mh rows_dominated [OF assms(1)] member_has_capability [OF assms(1)] by blast
  qed
  have "member_has w (sa_user actor) t c" if "member_has ?w u t c" for t c
  proof (cases "t = sa_tenant actor")
    case True
    with that rr(2) show ?thesis by (auto simp: member_has_def [of ?w] role intro: grantable_dominated split: option.splits)
  next
    case False
    with that same old show ?thesis by blast
  qed
  with same show ?thesis unfolding member_has_capability [OF assms(1), symmetric] member_has_capability [OF ok', symmetric]
    using ok' by blast
qed

text \<open>An example: user 7, a manager of tenant 2, and the technician 8 whose capabilities he holds.\<close>

definition ex_scope :: org where
  "ex_scope = empty_org\<lparr>
     users := [\<lparr>usr_id = 7, usr_role = ''user'', usr_active = True, usr_username = ''eve'', usr_foreign = None\<rparr>,
               \<lparr>usr_id = 8, usr_role = ''user'', usr_active = True, usr_username = ''bob'', usr_foreign = None\<rparr>],
     user_tenants := [\<lparr>ut_user = 7, ut_tenant = 2, ut_role = ''lead''\<rparr>, \<lparr>ut_user = 8, ut_tenant = 2, ut_role = ''tech''\<rparr>],
     permission_sets := [\<lparr>ps_slug = ''lead'', ps_caps = [''users.manage'', ''reports'']\<rparr>, \<lparr>ps_slug = ''tech'', ps_caps = [''reports'']\<rparr>]\<rparr>"

definition ex_actor :: scope_actor where "ex_actor = \<lparr>sa_user = 7, sa_admin = False, sa_tenant = 2\<rparr>"

lemma ex_scope_ok: "memberships_ok ex_scope"
  by code_simp

theorem manageable_iff_dominated_witness:
  "assertManageableTarget ex_scope ex_actor (Fin 8) = Inr \<lparr>usr_id = 8, usr_role = ''user'', usr_active = True, usr_username = ''bob'', usr_foreign = None\<rparr> \<and>
   userHasTenantCapability ex_scope 7 2 ''users.manage''"
proof -
  have a: "assertManageableTarget ex_scope ex_actor (Fin 8) =
      Inr \<lparr>usr_id = 8, usr_role = ''user'', usr_active = True, usr_username = ''bob'', usr_foreign = None\<rparr>"
    by code_simp
  have "\<not> sa_admin ex_actor" "sa_user ex_actor = 7" "sa_tenant ex_actor = 2" by (simp_all add: ex_actor_def)
  with a manageable_iff_dominated [OF ex_scope_ok, of ex_actor "Fin 8"] show ?thesis by auto
qed

theorem assignments_never_escalate_witness:
  "\<exists>l. resolveTenantAssignments ex_scope ex_actor 8 (Some [(Fin 2, Some ''lead'')]) = Inr l \<and>
     userHasTenantCapability (setUserTenantAssignments 8 l ex_scope) 8 2 ''users.manage'' \<and> userHasTenantCapability ex_scope 7 2 ''users.manage''"
proof -
  have r: "resolveTenantAssignments ex_scope ex_actor 8 (Some [(Fin 2, Some ''lead'')]) = Inr [\<lparr>ta_tenant = 2, ta_role = ''lead''\<rparr>]"
    by code_simp
  have c: "userHasTenantCapability (setUserTenantAssignments 8 [\<lparr>ta_tenant = 2, ta_role = ''lead''\<rparr>] ex_scope) 8 2 ''users.manage''"
    by code_simp
  have "\<not> sa_admin ex_actor" "sa_user ex_actor = 7" by (simp_all add: ex_actor_def)
  with assignments_never_escalate [OF ex_scope_ok r] c r show ?thesis by auto
qed

end
