(* ===== verification/Approval.thy ===== *)
theory Approval
  imports Scenario_Lifecycle User_Scope
begin

text \<open>
  The two-step approvals (\<^verbatim>\<open>server/src/services/approval.service.ts\<close>): requests, reviews and the execution of an approved
  request. A review is several statements on the database between which other requests run: \<open>approve_check\<close>, \<open>claim\<close>,
  \<open>approve_execute\<close> and \<open>approve_finish\<close> are those parts, and \<open>approve\<close> runs them without interruption. The state extends
  the one of the scenario engine with the approvals, the tenants, the bypass flags of the schedules, the second
  factors and the audit log. The payload of a request is its JSON object. \<open>executeNow\<close> of the schedule service and
  SHA-256 are the record \<open>ap_env\<close>; a number in a text is read as a decimal literal. An audit entry that the
  database refuses is not modelled, as the code ignores it.
\<close>

section \<open>State\<close>

record approval_row =
  ap_id :: nat
  ap_tenant :: nat
  ap_requested_by :: nat
  ap_type :: string
  ap_description :: string
  ap_payload :: json_obj
  ap_status :: string
  ap_reviewed_by :: "nat option"
  ap_reviewed_at :: "int option"
  ap_reason :: "string option"
  ap_created :: int
  ap_expires :: int
  ap_executed :: "int option"

record tenant_row =
  tn_id :: nat
  tn_name :: string
  tn_two_step :: bool
  tn_restrictions :: json_obj

record schedule_row =
  sch_id :: nat
  sch_tenant :: nat
  sch_bypass :: bool

record factor_row =
  sf_user :: nat
  sf_totp_secret :: "string option"
  sf_totp :: bool
  sf_email :: bool
  sf_last_step :: "int option"
  sf_last_session :: "string option"
  sf_foreign_id :: "nat option"
  sf_email_address :: "string option"
  sf_password :: "string option"

record throttle_row =
  th_user :: nat
  th_kind :: string
  th_locked :: bool
  th_window_failures :: nat
  th_window_start :: "int option"
  th_day_failures :: nat
  th_day_start :: "int option"
  th_notified :: "int option"

record audit_entry =
  au_tenant :: nat
  au_user :: nat
  au_action :: string
  au_type :: string
  au_path :: string

record ap_db = sc_db +
  tenants :: "tenant_row list"
  pending_approvals :: "approval_row list"
  approval_seq :: nat
  script_schedules :: "schedule_row list"
  second_factors :: "factor_row list"
  step_up_throttle :: "throttle_row list"
  tfa_trusted_sessions :: "trust_row list"
  audit_log :: "audit_entry list"

record 'w ap_env =
  env_sha256 :: "string \<Rightarrow> string"
  env_executeNow :: "nat \<Rightarrow> nat list \<Rightarrow> nat \<Rightarrow> json_obj \<Rightarrow> nat \<Rightarrow> 'w \<Rightarrow> 'w \<times> string option"

section \<open>Reading JSON\<close>

definition decimal_literal :: "string \<Rightarrow> bool" where
  "decimal_literal s =
     (let body = (if s \<noteq> [] \<and> (hd s = CHR ''-'' \<or> hd s = CHR ''+'') then tl s else s);
          ip = takeWhile is_digit body;
          r1 = dropWhile is_digit body;
          dot = (r1 \<noteq> [] \<and> hd r1 = CHR ''.'');
          fp = (if dot then takeWhile is_digit (tl r1) else []);
          r2 = (if dot then dropWhile is_digit (tl r1) else r1);
          ex = (case r2 of c # d # ds \<Rightarrow> if d = CHR ''-'' \<or> d = CHR ''+'' then ds else d # ds | _ \<Rightarrow> [])
      in (ip \<noteq> [] \<or> fp \<noteq> []) \<and>
         (r2 = [] \<or> (hd r2 = CHR ''e'' \<or> hd r2 = CHR ''E'') \<and> ex \<noteq> [] \<and> list_all is_digit ex))"

definition number_of_text :: "string \<Rightarrow> jsnum" where
  "number_of_text s = (let t = trim s in if t = [] then Fin 0 else if decimal_literal t then parseFloat t else NonFin)"

fun json_number :: "json \<Rightarrow> jsnum" where
  "json_number (JNum q) = Fin q"
| "json_number (JStr s) = number_of_text s"
| "json_number (JBool b) = Fin (if b then 1 else 0)"
| "json_number JNull = Fin 0"
| "json_number (JArr []) = Fin 0"
| "json_number (JArr [x]) = (case x of JBool _ \<Rightarrow> NonFin | _ \<Rightarrow> json_number x)"
| "json_number (JArr (x # y # xs)) = NonFin"
| "json_number (JObj es) = NonFin"

definition field_number :: "json_obj \<Rightarrow> string \<Rightarrow> jsnum" where
  "field_number o1 k = (case map_of o1 k of None \<Rightarrow> NonFin | Some j \<Rightarrow> json_number j)"

definition field_text :: "json_obj \<Rightarrow> string \<Rightarrow> string option" where
  "field_text o1 k = (case map_of o1 k of Some (JStr s) \<Rightarrow> Some s | _ \<Rightarrow> None)"

definition field_obj :: "json_obj \<Rightarrow> string \<Rightarrow> json_obj" where
  "field_obj o1 k = (case map_of o1 k of Some (JObj es) \<Rightarrow> es | _ \<Rightarrow> [])"

text \<open>An id as an integer column takes it.\<close>

definition db_id_of :: "json \<Rightarrow> nat option" where
  "db_id_of j = (case j of JNum q \<Rightarrow> id_in_range q | JStr s \<Rightarrow> toDbId (VStr s) | _ \<Rightarrow> None)"

section \<open>Requests\<close>

definition expiry_minutes :: int where "expiry_minutes = 30"

definition rowToApproval :: "approval_row \<Rightarrow> json_obj" where
  "rowToApproval r =
     [(''id'', js_nat (Some (ap_id r))), (''tenantId'', js_nat (Some (ap_tenant r))), (''requestedBy'', js_nat (Some (ap_requested_by r))),
      (''requestedByName'', JNull), (''requestType'', JStr (ap_type r)), (''description'', JStr (ap_description r)),
      (''payload'', JObj (ap_payload r)), (''status'', JStr (ap_status r)), (''reviewedBy'', js_nat (ap_reviewed_by r)),
      (''reviewedByName'', JNull), (''reviewedAt'', js_date (ap_reviewed_at r)), (''reviewReason'', js_str (ap_reason r)),
      (''createdAt'', js_date (Some (ap_created r))), (''expiresAt'', js_date (Some (ap_expires r))), (''executedAt'', js_date (ap_executed r))]"

definition requiresApproval :: "nat \<Rightarrow> 'a ap_db_scheme \<Rightarrow> bool" where
  "requiresApproval t w = (case find (\<lambda>r. tn_id r = t) (tenants w) of None \<Rightarrow> False | Some r \<Rightarrow> tn_two_step r)"

definition audit :: "nat \<Rightarrow> nat \<Rightarrow> string \<Rightarrow> string \<Rightarrow> nat \<Rightarrow> 'a ap_db_scheme \<Rightarrow> 'a ap_db_scheme" where
  "audit t u act ty i w =
     w\<lparr>audit_log := audit_log w @ [\<lparr>au_tenant = t, au_user = u, au_action = act, au_type = ty, au_path = show_nat i\<rparr>]\<rparr>"

definition approvalCreate :: "nat \<Rightarrow> nat \<Rightarrow> string \<Rightarrow> string \<Rightarrow> json_obj \<Rightarrow> 'a ap_db_scheme \<Rightarrow> 'a ap_db_scheme \<times> approval_row" where
  "approvalCreate t u ty descr payload w =
     (let row = \<lparr>ap_id = approval_seq w, ap_tenant = t, ap_requested_by = u, ap_type = ty, ap_description = descr, ap_payload = payload,
                 ap_status = ''pending'', ap_reviewed_by = None, ap_reviewed_at = None, ap_reason = None, ap_created = now_ms w,
                 ap_expires = now_ms w + expiry_minutes * 60 * 1000, ap_executed = None\<rparr>;
          w1 = w\<lparr>approval_seq := approval_seq w + 1, pending_approvals := pending_approvals w @ [row]\<rparr>;
          w2 = audit t u ''approval.requested'' ''approval'' (ap_id row) w1
      in (emit (RTenant t) ''APPROVAL_CREATED'' (rowToApproval row) w2, row))"

definition approvalList :: "nat \<Rightarrow> bool \<Rightarrow> nat option \<Rightarrow> 'a ap_db_scheme \<Rightarrow> approval_row list" where
  "approvalList t includeResolved limit w =
     (let rows = sort_key (\<lambda>r. - ap_created r)
            (filter (\<lambda>r. (t = master_tenant_id \<or> ap_tenant r = t) \<and> (includeResolved \<or> ap_status r = ''pending'')) (pending_approvals w))
      in if truthy_id limit then take (the limit) rows else rows)"

section \<open>Executing a request\<close>

text \<open>Every executor returns the state it leaves and the message of the error it throws, if any.\<close>

fun enqueue_batch :: "nat \<Rightarrow> nat \<Rightarrow> json_obj \<Rightarrow> json list \<Rightarrow> 'a ap_db_scheme \<Rightarrow> 'a ap_db_scheme" where
  "enqueue_batch t u payload [] w = w"
| "enqueue_batch t u payload (j # js) w =
     enqueue_batch t u payload js
       (case (db_id_of j, field_text payload ''action'') of
          (Some d, Some ty) \<Rightarrow>
            fst (enqueue \<lparr>ea_device = d, ea_tenant = t, ea_type = ty, ea_payload = field_obj payload ''params'', ea_priority = Some ''high'',
                   ea_max_retries = 0, ea_expires_in = None, ea_source_type = None, ea_source_id = None, ea_created_by = Some u\<rparr> w)
        | _ \<Rightarrow> w)"

definition is_manual_script :: "json_obj \<Rightarrow> bool" where
  "is_manual_script payload \<longleftrightarrow>
     (let p = field_obj payload ''params''
      in field_text payload ''action'' = Some ''run_script'' \<and> map_of p ''scriptId'' \<noteq> None \<and> map_of p ''scriptId'' \<noteq> Some JNull \<and>
         (map_of p ''source'' = Some (JStr ''script_execute'') \<or>
          map_of p ''source'' = None \<and> map_of p ''parameterValues'' \<noteq> None \<and> map_of p ''content'' = None))"

definition requester_active :: "nat \<Rightarrow> 'a ap_db_scheme \<Rightarrow> user_row option" where
  "requester_active u w = (case find (\<lambda>r. usr_id r = u) (users w) of None \<Rightarrow> None | Some r \<Rightarrow> if usr_active r then Some r else None)"

definition script_devices :: "nat \<Rightarrow> json_obj \<Rightarrow> 'a ap_db_scheme \<Rightarrow> nat list" where
  "script_devices t payload w =
     (let ids = List.map_filter (\<lambda>j. int_id (json_number j)) (case map_of payload ''deviceIds'' of Some (JArr js) \<Rightarrow> js | _ \<Rightarrow> [])
      in map dev_id (filter (\<lambda>d. dev_tenant d = t \<and> dev_id d \<in> set ids) (devices w)))"

definition script_changed :: "'w ap_env \<Rightarrow> nat \<Rightarrow> json_obj \<Rightarrow> 'a ap_db_scheme \<Rightarrow> bool" where
  "script_changed env i params w =
     (case field_text params ''contentSha256'' of
        None \<Rightarrow> False
      | Some h \<Rightarrow> env_sha256 env (case find (\<lambda>s. scr_id s = i) (scripts w) of None \<Rightarrow> [] | Some s \<Rightarrow> scr_content s) \<noteq> h)"

definition executeManualScript ::
  "'a ap_db_scheme ap_env \<Rightarrow> nat \<Rightarrow> nat \<Rightarrow> json_obj \<Rightarrow> 'a ap_db_scheme \<Rightarrow> 'a ap_db_scheme \<times> string option" where
  "executeManualScript env t u payload w =
     (let params = field_obj payload ''params''
      in case int_id (field_number params ''scriptId'') of
           None \<Rightarrow> (w, Some ''run_script approval without a valid scriptId'')
         | Some scriptId \<Rightarrow>
             (case requester_active u w of
                None \<Rightarrow> (w, Some ''requester is no longer active'')
              | Some requester \<Rightarrow>
                  let ids = script_devices t payload w;
                      lacking = devicesLackingCapability w u (map (\<lambda>d. Fin (of_nat d)) ids) ''execute'';
                      left = (if usr_role requester = ''admin'' then ids else filter (\<lambda>d. d \<notin> set lacking) ids)
                  in if left = [] then (w, Some ''approved script run: no device left to run on'')
                     else if script_changed env scriptId params w
                     then (w, Some ''approved script run refused: the script was modified after the request'')
                     else env_executeNow env scriptId left t (field_obj params ''parameterValues'') u w))"

definition is_code_row :: "nat \<Rightarrow> throttle_row \<Rightarrow> bool" where
  "is_code_row u r \<longleftrightarrow> th_user r = u \<and> th_kind r = ''code''"

definition clearCodeThrottle :: "nat \<Rightarrow> 'a ap_db_scheme \<Rightarrow> 'a ap_db_scheme" where
  "clearCodeThrottle u w =
     w\<lparr>step_up_throttle := tbl_update (is_code_row u)
         (\<lambda>r. r\<lparr>th_locked := False, th_window_failures := 0, th_window_start := None, th_day_failures := 0, th_day_start := None\<rparr>) (step_up_throttle w)\<rparr>"

definition resetSecondFactors :: "nat \<Rightarrow> 'a ap_db_scheme \<Rightarrow> 'a ap_db_scheme \<times> bool" where
  "resetSecondFactors u w =
     (if find (\<lambda>r. usr_id r = u) (users w) = None then (w, False)
      else let w1 = clearCodeThrottle u (w\<lparr>second_factors := tbl_update (\<lambda>r. sf_user r = u)
                       (\<lambda>r. r\<lparr>sf_totp_secret := None, sf_totp := False, sf_email := False\<rparr>) (second_factors w)\<rparr>)
           in (w1\<lparr>tfa_trusted_sessions := revokeAllForUser (tfa_trusted_sessions w1) u\<rparr>, True))"

text \<open>The tenant assignments in a payload.\<close>

definition assignments_of :: "json_obj \<Rightarrow> (jsnum \<times> string option) list option" where
  "assignments_of payload =
     (case map_of payload ''assignments'' of
        Some (JArr js) \<Rightarrow> Some (map (\<lambda>j. case j of JObj es \<Rightarrow> (field_number es ''tenantId'', field_text es ''role'') | _ \<Rightarrow> (NonFin, None)) js)
      | _ \<Rightarrow> None)"

definition error_text :: "app_error \<Rightarrow> string" where
  "error_text e = (case e of AppError _ m \<Rightarrow> m)"

definition run_user_action :: "scope_actor \<Rightarrow> nat \<Rightarrow> json_obj \<Rightarrow> 'a ap_db_scheme \<Rightarrow> 'a ap_db_scheme \<times> string option" where
  "run_user_action actor targetId payload w =
     (let act = field_text payload ''action''
      in if act = Some ''user_2fa_reset'' then
           (case assertManageableTarget w actor (Fin (of_nat targetId)) of
              Inl e \<Rightarrow> (w, Some (error_text e))
            | Inr target \<Rightarrow>
                (case resetSecondFactors targetId w of
                   (w1, False) \<Rightarrow> (w1, Some ''user not found'')
                 | (w1, True) \<Rightarrow> (audit (sa_tenant actor) (sa_user actor) ''user.2fa_reset'' ''user'' targetId w1, None)))
         else if act = Some ''user_tenants_set'' then
           (case assertManageableTarget w actor (Fin (of_nat targetId)) of
              Inl e \<Rightarrow> (w, Some (error_text e))
            | Inr target \<Rightarrow>
                if usr_foreign target = Some ''obligate'' then (w, Some ''SSO user tenant access is managed from Obligate'')
                else case resolveTenantAssignments w actor targetId (assignments_of payload) of
                  Inl e \<Rightarrow> (w, Some (error_text e))
                | Inr as \<Rightarrow>
                    (audit (sa_tenant actor) (sa_user actor) ''user.tenants_changed'' ''user'' targetId (setUserTenantAssignments targetId as w), None))
         else (w, Some (''approval action '' @ (case act of None \<Rightarrow> [] | Some a \<Rightarrow> a) @ '' cannot be executed automatically'')))"

definition executeUserAction :: "nat \<Rightarrow> nat \<Rightarrow> json_obj \<Rightarrow> 'a ap_db_scheme \<Rightarrow> 'a ap_db_scheme \<times> string option" where
  "executeUserAction t u payload w =
     (case requester_active u w of
        None \<Rightarrow> (w, Some ''requester is no longer active'')
      | Some requester \<Rightarrow>
          let actor = \<lparr>sa_user = u, sa_admin = (usr_role requester = ''admin''), sa_tenant = t\<rparr>
          in if \<not> sa_admin actor \<and> \<not> userHasTenantCapability w u t ''users.manage''
             then (w, Some ''requester no longer holds users.manage in this tenant'')
             else case int_id (field_number payload ''userId'') of
               None \<Rightarrow> (w, Some ''user approval without a valid userId'')
             | Some targetId \<Rightarrow>
                 if targetId = u then (w, Some ''a user-management request cannot target its requester'')
                 else run_user_action actor targetId payload w)"

definition executeBatch ::
  "'a ap_db_scheme ap_env \<Rightarrow> nat \<Rightarrow> nat \<Rightarrow> json_obj \<Rightarrow> 'a ap_db_scheme \<Rightarrow> 'a ap_db_scheme \<times> string option" where
  "executeBatch env t u payload w =
     (if is_manual_script payload then executeManualScript env t u payload w
      else if (case field_text payload ''action'' of None \<Rightarrow> False | Some a \<Rightarrow> starts_with ''user_'' a \<or> starts_with ''profile_'' a)
      then executeUserAction t u payload w
      else case map_of payload ''deviceIds'' of
        Some (JArr js) \<Rightarrow> (enqueue_batch t u payload js w, None)
      | _ \<Rightarrow> (w, Some ''approval action has no device list''))"

definition executeUninstall :: "nat \<Rightarrow> nat \<Rightarrow> json_obj \<Rightarrow> 'a ap_db_scheme \<Rightarrow> 'a ap_db_scheme \<times> string option" where
  "executeUninstall t u payload w =
     (case (case map_of payload ''deviceId'' of None \<Rightarrow> None | Some j \<Rightarrow> db_id_of j) of
        None \<Rightarrow> (w, Some ''database error'')
      | Some d \<Rightarrow>
          (let w1 = w\<lparr>devices := tbl_update (\<lambda>r. dev_id r = d \<and> dev_tenant r = t) (\<lambda>r. r\<lparr>dev_status := ''pending_uninstall''\<rparr>) (devices w)\<rparr>
           in case enqueue \<lparr>ea_device = d, ea_tenant = t, ea_type = ''uninstall_agent'', ea_payload = [], ea_priority = Some ''urgent'',
                     ea_max_retries = 0, ea_expires_in = None, ea_source_type = None, ea_source_id = None, ea_created_by = Some u\<rparr> w1 of
                (w2, Some _) \<Rightarrow> (w2, None)
              | (w2, None) \<Rightarrow> (w2, Some ''database error'')))"

definition executeSettingChange :: "nat \<Rightarrow> json_obj \<Rightarrow> 'a ap_db_scheme \<Rightarrow> 'a ap_db_scheme \<times> string option" where
  "executeSettingChange t payload w =
     (case (field_text payload ''field'', map_of payload ''value'') of
        (Some f, Some (JBool b)) \<Rightarrow>
          if f \<noteq> ''bypassPrivacyMode'' then (w, None)
          else if field_text payload ''entityType'' \<notin> {Some ''scenario'', Some ''schedule''} then (w, None)
          else (case (case map_of payload ''entityId'' of None \<Rightarrow> None | Some j \<Rightarrow> db_id_of j) of
                  None \<Rightarrow> (w, Some ''database error'')
                | Some i \<Rightarrow>
                    if field_text payload ''entityType'' = Some ''scenario''
                    then (w\<lparr>scenarios := tbl_update (\<lambda>s. scn_id s = i \<and> scn_tenant s = t)
                             (\<lambda>s. s\<lparr>scn_bypass := b, scn_updated_at := Some (now_ms w)\<rparr>) (scenarios w)\<rparr>, None)
                    else (w\<lparr>script_schedules := tbl_update (\<lambda>s. sch_id s = i \<and> sch_tenant s = t) (\<lambda>s. s\<lparr>sch_bypass := b\<rparr>) (script_schedules w)\<rparr>, None))
      | _ \<Rightarrow> (w, None))"

section \<open>Reviews\<close>

record review_params =
  rp_tenant :: nat
  rp_approval :: nat
  rp_reviewer :: nat
  rp_reason :: "string option"

definition approval_of :: "review_params \<Rightarrow> 'a ap_db_scheme \<Rightarrow> approval_row option" where
  "approval_of p w = find (\<lambda>r. ap_id r = rp_approval p \<and> ap_tenant r = rp_tenant p) (pending_approvals w)"

definition update_approval :: "nat \<Rightarrow> (approval_row \<Rightarrow> approval_row) \<Rightarrow> 'a ap_db_scheme \<Rightarrow> 'a ap_db_scheme" where
  "update_approval i f w = w\<lparr>pending_approvals := tbl_update (\<lambda>r. ap_id r = i) f (pending_approvals w)\<rparr>"

definition already :: "approval_row \<Rightarrow> app_error" where
  "already r = AppError 409 (''Already '' @ ap_status r)"

datatype check_result = CheckFail app_error | CheckExpired approval_row | CheckGo approval_row

definition approve_check :: "review_params \<Rightarrow> 'a ap_db_scheme \<Rightarrow> check_result" where
  "approve_check p w =
     (case approval_of p w of
        None \<Rightarrow> CheckFail (AppError 404 ''Not found'')
      | Some row \<Rightarrow>
          if ap_status row \<noteq> ''pending'' then CheckFail (already row)
          else if ap_expires row < now_ms w then CheckExpired row
          else if ap_requested_by row = rp_reviewer p then CheckFail (AppError 403 ''Cannot approve your own request'')
          else CheckGo row)"

definition expire_row :: "approval_row \<Rightarrow> 'a ap_db_scheme \<Rightarrow> 'a ap_db_scheme" where
  "expire_row row w = update_approval (ap_id row) (\<lambda>r. r\<lparr>ap_status := ''expired''\<rparr>) w"

text \<open>The conditional update that claims a pending request, and whether it hit a row.\<close>

definition claim :: "review_params \<Rightarrow> approval_row \<Rightarrow> 'a ap_db_scheme \<Rightarrow> 'a ap_db_scheme \<times> bool" where
  "claim p row w =
     (let hit = (\<lambda>r. ap_id r = ap_id row \<and> ap_status r = ''pending'')
      in (w\<lparr>pending_approvals := tbl_update hit
              (\<lambda>r. r\<lparr>ap_status := ''approved'', ap_reviewed_by := Some (rp_reviewer p), ap_reviewed_at := Some (now_ms w), ap_reason := rp_reason p\<rparr>)
              (pending_approvals w)\<rparr>, list_ex hit (pending_approvals w)))"

definition execute_request :: "'a ap_db_scheme ap_env \<Rightarrow> approval_row \<Rightarrow> 'a ap_db_scheme \<Rightarrow> 'a ap_db_scheme \<times> string option" where
  "execute_request env row w =
     (if ap_type row = ''batch_command'' then executeBatch env (ap_tenant row) (ap_requested_by row) (ap_payload row) w
      else if ap_type row = ''device_uninstall'' then executeUninstall (ap_tenant row) (ap_requested_by row) (ap_payload row) w
      else if ap_type row = ''setting_change'' then executeSettingChange (ap_tenant row) (ap_payload row) w
      else (w, None))"

definition approve_execute :: "'a ap_db_scheme ap_env \<Rightarrow> approval_row \<Rightarrow> 'a ap_db_scheme \<Rightarrow> 'a ap_db_scheme" where
  "approve_execute env row w =
     (case execute_request env row w of
        (w1, None) \<Rightarrow> update_approval (ap_id row) (\<lambda>r. r\<lparr>ap_status := ''executed'', ap_executed := Some (now_ms w1)\<rparr>) w1
      | (w1, Some _) \<Rightarrow> w1)"

text \<open>The event with the row as it now is; without a row there is no event.\<close>

definition emit_updated :: "approval_row \<Rightarrow> 'a ap_db_scheme \<Rightarrow> 'a ap_db_scheme" where
  "emit_updated row w =
     (case find (\<lambda>r. ap_id r = ap_id row) (pending_approvals w) of
        None \<Rightarrow> w
      | Some fresh \<Rightarrow> emit (RTenant (ap_tenant row)) ''APPROVAL_UPDATED'' (rowToApproval fresh) w)"

definition finish_review :: "string \<Rightarrow> review_params \<Rightarrow> approval_row \<Rightarrow> 'a ap_db_scheme \<Rightarrow> 'a ap_db_scheme" where
  "finish_review act p row w = emit_updated row (audit (ap_tenant row) (rp_reviewer p) act ''approval'' (ap_id row) w)"

definition approve :: "'a ap_db_scheme ap_env \<Rightarrow> review_params \<Rightarrow> 'a ap_db_scheme \<Rightarrow> 'a ap_db_scheme \<times> app_error option" where
  "approve env p w =
     (case approve_check p w of
        CheckFail e \<Rightarrow> (w, Some e)
      | CheckExpired row \<Rightarrow> (expire_row row w, Some (AppError 410 ''Expired''))
      | CheckGo row \<Rightarrow>
          (let (w1, claimed) = claim p row w
           in if \<not> claimed then (w1, Some (AppError 409 ''Already handled''))
              else (finish_review ''approval.approved'' p row (approve_execute env row w1), None)))"

definition deny_check :: "review_params \<Rightarrow> 'a ap_db_scheme \<Rightarrow> app_error + approval_row" where
  "deny_check p w =
     (case approval_of p w of
        None \<Rightarrow> Inl (AppError 404 ''Not found'')
      | Some row \<Rightarrow>
          if ap_status row \<noteq> ''pending'' then Inl (already row)
          else if ap_requested_by row = rp_reviewer p then Inl (AppError 403 ''Cannot deny your own request'')
          else Inr row)"

definition deny_write :: "review_params \<Rightarrow> approval_row \<Rightarrow> 'a ap_db_scheme \<Rightarrow> 'a ap_db_scheme" where
  "deny_write p row w =
     update_approval (ap_id row)
       (\<lambda>r. r\<lparr>ap_status := ''denied'', ap_reviewed_by := Some (rp_reviewer p), ap_reviewed_at := Some (now_ms w), ap_reason := rp_reason p\<rparr>) w"

definition deny :: "review_params \<Rightarrow> 'a ap_db_scheme \<Rightarrow> 'a ap_db_scheme \<times> app_error option" where
  "deny p w =
     (case deny_check p w of
        Inl e \<Rightarrow> (w, Some e)
      | Inr row \<Rightarrow> (finish_review ''approval.denied'' p row (deny_write p row w), None))"

definition cancel_check :: "review_params \<Rightarrow> 'a ap_db_scheme \<Rightarrow> app_error + approval_row" where
  "cancel_check p w =
     (case approval_of p w of
        None \<Rightarrow> Inl (AppError 404 ''Not found'')
      | Some row \<Rightarrow>
          if ap_status row \<noteq> ''pending'' then Inl (already row)
          else if ap_requested_by row \<noteq> rp_reviewer p then Inl (AppError 403 ''Only the requester can cancel'')
          else Inr row)"

definition cancel_write :: "approval_row \<Rightarrow> 'a ap_db_scheme \<Rightarrow> 'a ap_db_scheme" where
  "cancel_write row w = update_approval (ap_id row) (\<lambda>r. r\<lparr>ap_status := ''cancelled'', ap_reviewed_at := Some (now_ms w)\<rparr>) w"

definition cancelApproval :: "review_params \<Rightarrow> 'a ap_db_scheme \<Rightarrow> 'a ap_db_scheme \<times> app_error option" where
  "cancelApproval p w =
     (case cancel_check p w of
        Inl e \<Rightarrow> (w, Some e)
      | Inr row \<Rightarrow> (emit_updated row (cancel_write row w), None))"

definition sweepExpired :: "'a ap_db_scheme \<Rightarrow> 'a ap_db_scheme" where
  "sweepExpired w =
     w\<lparr>pending_approvals := tbl_update (\<lambda>r. ap_status r = ''pending'' \<and> ap_expires r < now_ms w) (\<lambda>r. r\<lparr>ap_status := ''expired''\<rparr>) (pending_approvals w)\<rparr>"

section \<open>Requests in flight\<close>

text \<open>
  Where a request of a reviewer or requester stands between two statements. The system is the database, the
  requests in flight and the log of the executions that were started. Between two statements anything may
  happen that leaves the approvals alone.
\<close>

datatype ap_thread =
    TApprove review_params
  | TExpire approval_row
  | TClaim review_params approval_row
  | TExec review_params approval_row
  | TFinish review_params approval_row
  | TDeny review_params
  | TDenyWrite review_params approval_row
  | TCancel review_params
  | TCancelWrite approval_row
  | TDone

fun starts :: "ap_thread \<Rightarrow> bool" where
  "starts (TApprove p) = True"
| "starts (TDeny p) = True"
| "starts (TCancel p) = True"
| "starts _ = False"

type_synonym 'a ap_sys = "'a ap_db_scheme \<times> ap_thread list \<times> (review_params \<times> approval_row) list"

text \<open>One statement of a request: the database, where the request stands next, and the execution it starts.\<close>

fun ap_next ::
  "'a ap_db_scheme ap_env \<Rightarrow> ap_thread \<Rightarrow> 'a ap_db_scheme \<Rightarrow> 'a ap_db_scheme \<times> ap_thread \<times> (review_params \<times> approval_row) list" where
  "ap_next env (TApprove p) w =
     (case approve_check p w of
        CheckFail e \<Rightarrow> (w, TDone, []) | CheckExpired row \<Rightarrow> (w, TExpire row, []) | CheckGo row \<Rightarrow> (w, TClaim p row, []))"
| "ap_next env (TExpire row) w = (expire_row row w, TDone, [])"
| "ap_next env (TClaim p row) w = (let (w1, claimed) = claim p row w in (w1, if claimed then TExec p row else TDone, []))"
| "ap_next env (TExec p row) w = (approve_execute env row w, TFinish p row, [(p, row)])"
| "ap_next env (TFinish p row) w = (finish_review ''approval.approved'' p row w, TDone, [])"
| "ap_next env (TDeny p) w = (case deny_check p w of Inl e \<Rightarrow> (w, TDone, []) | Inr row \<Rightarrow> (w, TDenyWrite p row, []))"
| "ap_next env (TDenyWrite p row) w = (finish_review ''approval.denied'' p row (deny_write p row w), TDone, [])"
| "ap_next env (TCancel p) w = (case cancel_check p w of Inl e \<Rightarrow> (w, TDone, []) | Inr row \<Rightarrow> (w, TCancelWrite row, []))"
| "ap_next env (TCancelWrite row) w = (emit_updated row (cancel_write row w), TDone, [])"
| "ap_next env TDone w = (w, TDone, [])"

inductive ap_step :: "'a ap_db_scheme ap_env \<Rightarrow> 'a ap_sys \<Rightarrow> 'a ap_sys \<Rightarrow> bool" for env where
  arrive: "starts t \<Longrightarrow> ap_step env (w, ts, l) (w, ts @ [t], l)"
| move: "ap_next env t w = (w', t', new) \<Longrightarrow> ap_step env (w, xs @ t # ys, l) (w', xs @ t' # ys, l @ new)"
| create: "ap_step env (w, ts, l) (fst (approvalCreate te u ty descr payload w), ts, l)"
| sweep: "ap_step env (w, ts, l) (sweepExpired w, ts, l)"
| other: "pending_approvals w' = pending_approvals w \<Longrightarrow> approval_seq w' = approval_seq w \<Longrightarrow> ap_step env (w, ts, l) (w', ts, l)"

inductive_cases ap_stepE: "ap_step env s s'"

end
