(* ===== verification/Approval_Race.thy ===== *)
theory Approval_Race
  imports Approval
begin

text \<open>
  Every interleaving of reviews: an approved request is executed at most once, never on the word of its own
  requester, and exactly as it was requested.
\<close>

section \<open>What the executors leave alone\<close>

definition env_ok :: "'a ap_db_scheme ap_env \<Rightarrow> bool" where
  "env_ok env \<longleftrightarrow> (\<forall>i ds t ps u w. pending_approvals (fst (env_executeNow env i ds t ps u w)) = pending_approvals w \<and>
     approval_seq (fst (env_executeNow env i ds t ps u w)) = approval_seq w)"

definition ap_tables :: "'a ap_db_scheme \<Rightarrow> approval_row list \<times> nat" where
  "ap_tables w = (pending_approvals w, approval_seq w)"

lemma tables_small [simp]:
  "ap_tables (emit r ev pl w) = ap_tables w" "ap_tables (audit t u a ty i w) = ap_tables w" "ap_tables (emit_updated row w) = ap_tables w"
  "ap_tables (finish_review act p row w) = ap_tables w" "ap_tables (setUserTenantAssignments v as w) = ap_tables w"
  by (simp_all add: ap_tables_def emit_def audit_def emit_updated_def finish_review_def setUserTenantAssignments_def split: option.split)

lemma tables_enqueue: "enqueue a w = (w', r) \<Longrightarrow> ap_tables w' = ap_tables w"
  by (auto simp: enqueue_def Let_def insert_command_def ap_tables_def emit_def split: prod.splits if_splits)

lemma tables_enqueue_fst [simp]: "ap_tables (fst (enqueue a w)) = ap_tables w"
  by (cases "enqueue a w") (auto dest: tables_enqueue)

lemma tables_batch [simp]: "ap_tables (enqueue_batch t u payload js w) = ap_tables w"
  by (induction t u payload js w rule: enqueue_batch.induct) (simp_all split: option.split)

lemma tables_reset [simp]: "ap_tables (fst (resetSecondFactors u w)) = ap_tables w"
  by (simp add: resetSecondFactors_def clearCodeThrottle_def Let_def ap_tables_def)

lemma tables_user_action [simp]: "ap_tables (fst (run_user_action actor i payload w)) = ap_tables w"
proof -
  obtain w1 ok where r: "resetSecondFactors i w = (w1, ok)" by fastforce
  then have "ap_tables w1 = ap_tables w" using tables_reset [of i w] by simp
  with r show ?thesis by (simp add: run_user_action_def Let_def split: sum.split bool.split)
qed

lemma tables_execute:
  assumes "env_ok env"
  shows "ap_tables (fst (execute_request env row w)) = ap_tables w"
proof -
  have user: "ap_tables (fst (executeUserAction t u payload w)) = ap_tables w" for t u payload
    by (simp add: executeUserAction_def Let_def split: option.split)
  have "ap_tables (fst (executeManualScript env t u payload w)) = ap_tables w" for t u payload
    using assms by (simp add: executeManualScript_def env_ok_def ap_tables_def Let_def split: option.split)
  then have "ap_tables (fst (executeBatch env t u payload w)) = ap_tables w" for t u payload
    using user by (simp add: executeBatch_def split: option.split json.split)
  moreover have "ap_tables (fst (executeUninstall t u payload w)) = ap_tables w" for t u payload
    by (auto simp: executeUninstall_def Let_def split: option.split prod.split dest!: tables_enqueue) (simp_all add: ap_tables_def)
  moreover have "ap_tables (fst (executeSettingChange t payload w)) = ap_tables w" for t payload
    by (simp add: executeSettingChange_def ap_tables_def split: option.split json.split)
  ultimately show ?thesis by (simp add: execute_request_def)
qed

section \<open>How the table of approvals evolves\<close>

definition static :: "approval_row \<Rightarrow> nat \<times> nat \<times> nat \<times> string \<times> json_obj" where
  "static r = (ap_id r, ap_tenant r, ap_requested_by r, ap_type r, ap_payload r)"

text \<open>No row changes what was requested, and none becomes pending again.\<close>

definition evolves :: "approval_row list \<Rightarrow> approval_row list \<Rightarrow> bool" where
  "evolves A B \<longleftrightarrow> list_all2 (\<lambda>r r'. static r' = static r \<and> (ap_status r \<noteq> ''pending'' \<longrightarrow> ap_status r' \<noteq> ''pending'')) A B"

lemma evolves_refl [simp]: "evolves A A"
  by (simp add: evolves_def list_all2_same)

lemma evolves_update:
  assumes "\<And>r. static (f r) = static r" and "\<And>r. ap_status (f r) \<noteq> ''pending''"
  shows "evolves A (tbl_update P f A)"
  using assms by (simp add: evolves_def tbl_update_def list_all2_map2 list_all2_same)

lemma evolves_static: "evolves A B \<Longrightarrow> static ` set B = static ` set A"
proof -
  assume "evolves A B"
  then have "map static B = map static A" by (auto simp: evolves_def list_all2_conv_all_nth intro!: nth_equalityI)
  then show ?thesis by (metis set_map)
qed

lemma evolves_keyed: "evolves A B \<Longrightarrow> keyed ap_id A \<Longrightarrow> keyed ap_id B"
proof -
  assume "evolves A B" "keyed ap_id A"
  moreover from this have "map ap_id B = map ap_id A"
    by (auto simp: evolves_def list_all2_conv_all_nth static_def intro!: nth_equalityI)
  ultimately show ?thesis by (simp add: keyed_def)
qed

definition handled :: "approval_row list \<Rightarrow> nat \<Rightarrow> nat" where
  "handled A i = (if \<exists>r \<in> set A. ap_id r = i \<and> ap_status r \<noteq> ''pending'' then 1 else 0)"

lemma evolves_handled: "evolves A B \<Longrightarrow> handled A i \<le> handled B i"
proof (cases "\<exists>r \<in> set A. ap_id r = i \<and> ap_status r \<noteq> ''pending''")
  case True
  assume e: "evolves A B"
  from True obtain k where k: "k < length A" "ap_id (A ! k) = i" "ap_status (A ! k) \<noteq> ''pending''" by (metis in_set_conv_nth)
  with e have "B ! k \<in> set B" "ap_id (B ! k) = i" "ap_status (B ! k) \<noteq> ''pending''"
    by (auto simp: evolves_def list_all2_conv_all_nth static_def)
  then have "handled B i = 1" unfolding handled_def by metis
  then show ?thesis by (simp add: handled_def)
qed (auto simp: handled_def)

lemma update_evolves:
  "evolves (pending_approvals w) (pending_approvals (expire_row row w))"
  "evolves (pending_approvals w) (pending_approvals (deny_write p row w))"
  "evolves (pending_approvals w) (pending_approvals (cancel_write row w))"
  "evolves (pending_approvals w) (pending_approvals (sweepExpired w))"
  "evolves (pending_approvals w) (pending_approvals (fst (claim p row w)))"
  by (simp_all add: expire_row_def deny_write_def cancel_write_def sweepExpired_def claim_def update_approval_def Let_def static_def evolves_update)

lemma seq_same [simp]:
  "approval_seq (expire_row row w) = approval_seq w" "approval_seq (deny_write p row w) = approval_seq w"
  "approval_seq (cancel_write row w) = approval_seq w" "approval_seq (sweepExpired w) = approval_seq w"
  "approval_seq (fst (claim p row w)) = approval_seq w"
  by (simp_all add: expire_row_def deny_write_def cancel_write_def sweepExpired_def claim_def update_approval_def Let_def)

lemma execute_evolves:
  assumes "env_ok env"
  shows "evolves (pending_approvals w) (pending_approvals (approve_execute env row w)) \<and> approval_seq (approve_execute env row w) = approval_seq w"
proof -
  obtain w1 r where e: "execute_request env row w = (w1, r)" by fastforce
  then have "pending_approvals w1 = pending_approvals w" "approval_seq w1 = approval_seq w"
    using tables_execute [OF assms, of row w] by (simp_all add: ap_tables_def)
  with e show ?thesis by (auto simp: approve_execute_def update_approval_def static_def intro!: evolves_update split: option.split)
qed

lemma next_evolves:
  assumes "env_ok env" and "ap_next env t w = (w', t', new)"
  shows "evolves (pending_approvals w) (pending_approvals w') \<and> approval_seq w' = approval_seq w"
proof -
  have small: "pending_approvals (finish_review act p row v) = pending_approvals v" "approval_seq (finish_review act p row v) = approval_seq v"
    "pending_approvals (emit_updated row v) = pending_approvals v" "approval_seq (emit_updated row v) = approval_seq v" for act p row and v :: "'a ap_db_scheme"
    using tables_small(3) [of row v] tables_small(4) [of act p row v] by (simp_all add: ap_tables_def)
  show ?thesis
    using assms(2)
  proof (cases t)
    case (TClaim p row)
    then have "w' = fst (claim p row w)" using assms(2) by (auto simp: Let_def split: prod.splits)
    then show ?thesis using update_evolves(5) [of w p row] by simp
  qed (use assms(2) execute_evolves [OF assms(1), of w] in \<open>auto simp: small update_evolves split: check_result.splits sum.splits\<close>)
qed

section \<open>The invariant\<close>

definition known :: "approval_row list \<Rightarrow> review_params \<Rightarrow> approval_row \<Rightarrow> bool" where
  "known A p row \<longleftrightarrow> static row \<in> static ` set A \<and> ap_requested_by row \<noteq> rp_reviewer p \<and> ap_tenant row = rp_tenant p"

fun thread_ok :: "approval_row list \<Rightarrow> ap_thread \<Rightarrow> bool" where
  "thread_ok A (TClaim p row) = known A p row"
| "thread_ok A (TExec p row) = known A p row"
| "thread_ok A _ = True"

fun executing :: "nat \<Rightarrow> ap_thread \<Rightarrow> bool" where
  "executing i (TExec p row) = (ap_id row = i)"
| "executing i _ = False"

definition exec_count :: "nat \<Rightarrow> ap_thread list \<Rightarrow> (review_params \<times> approval_row) list \<Rightarrow> nat" where
  "exec_count i ts l = length (filter (executing i) ts) + length (filter (\<lambda>e. ap_id (snd e) = i) l)"

fun ap_inv :: "'a ap_sys \<Rightarrow> bool" where
  "ap_inv (w, ts, l) \<longleftrightarrow>
     keyed ap_id (pending_approvals w) \<and> (\<forall>r \<in> set (pending_approvals w). ap_id r < approval_seq w) \<and>
     (\<forall>t \<in> set ts. thread_ok (pending_approvals w) t) \<and> (\<forall>e \<in> set l. known (pending_approvals w) (fst e) (snd e)) \<and>
     (\<forall>i. exec_count i ts l \<le> handled (pending_approvals w) i)"

lemma starts_harmless: "starts t \<Longrightarrow> thread_ok A t \<and> \<not> executing i t"
  by (cases t) auto

lemma thread_ok_mono: "static ` set A \<subseteq> static ` set B \<Longrightarrow> thread_ok A t \<Longrightarrow> thread_ok B t"
  by (cases t) (auto simp: known_def)

text \<open>What a statement of a request does to the executions: only a successful claim adds one, of a pending request.\<close>

lemma next_threads:
  assumes "ap_next env t w = (w', t', new)" and "thread_ok (pending_approvals w) t" and "evolves (pending_approvals w) (pending_approvals w')"
  shows "thread_ok (pending_approvals w') t' \<and> (\<forall>e \<in> set new. known (pending_approvals w') (fst e) (snd e)) \<and>
    (exec_count i [t'] new = exec_count i [t] [] \<or>
     (exec_count i [t'] new \<le> 1 \<and> handled (pending_approvals w') i = 1 \<and>
      (\<exists>r \<in> set (pending_approvals w). ap_id r = i \<and> ap_status r = ''pending'')))"
proof -
  have st: "static ` set (pending_approvals w') = static ` set (pending_approvals w)" using evolves_static [OF assms(3)] .
  show ?thesis
  proof (cases t)
    case (TApprove p)
    have "known (pending_approvals w) p row" if "approve_check p w = CheckGo row" for row
      using that by (auto simp: approve_check_def approval_of_def known_def dest: find_SomeD split: option.splits if_splits)
    with TApprove assms(1) show ?thesis by (auto simp: exec_count_def split: check_result.splits)
  next
    case (TClaim p row)
    then have c: "w' = fst (claim p row w)" "t' = (if snd (claim p row w) then TExec p row else TDone)" "new = []"
      using assms(1) by (auto simp: Let_def split: prod.splits)
    have k: "known (pending_approvals w') p row" using assms(2) TClaim st by (simp add: known_def)
    show ?thesis
    proof (cases "snd (claim p row w)")
      case True
      then obtain r where r: "r \<in> set (pending_approvals w)" "ap_id r = ap_id row" "ap_status r = ''pending''"
        by (auto simp: claim_def Let_def list_ex_iff)
      let ?r = "r\<lparr>ap_status := ''approved'', ap_reviewed_by := Some (rp_reviewer p), ap_reviewed_at := Some (now_ms w), ap_reason := rp_reason p\<rparr>"
      have "?r \<in> set (pending_approvals w')" using r by (auto simp: c(1) claim_def Let_def set_tbl_update)
      moreover have "ap_id ?r = ap_id row" "ap_status ?r \<noteq> ''pending''" using r by simp_all
      ultimately have "handled (pending_approvals w') (ap_id row) = 1" unfolding handled_def by meson
      with True c k r TClaim show ?thesis by (auto simp: exec_count_def)
    next
      case False
      with c TClaim show ?thesis by (simp add: exec_count_def)
    qed
  next
    case (TExec p row)
    with assms(1,2) st show ?thesis by (auto simp: exec_count_def known_def)
  qed (use assms(1) in \<open>auto simp: exec_count_def split: sum.splits\<close>)
qed

lemma exec_count_split: "exec_count i (xs @ t # ys) (l @ new) = exec_count i (xs @ ys) l + exec_count i [t] new"
  by (simp add: exec_count_def)

lemma move_inv:
  assumes "env_ok env" and "ap_next env t w = (w', t', new)" and "ap_inv (w, xs @ t # ys, l)"
  shows "ap_inv (w', xs @ t' # ys, l @ new)"
proof -
  note ev = next_evolves [OF assms(1,2)]
  have st: "static ` set (pending_approvals w') = static ` set (pending_approvals w)" using evolves_static ev by blast
  have ok: "thread_ok (pending_approvals w) t" using assms(3) by simp
  note th = next_threads [OF assms(2) ok conjunct1 [OF ev]]
  have "\<forall>r \<in> set (pending_approvals w'). ap_id r < approval_seq w'"
  proof
    fix r assume "r \<in> set (pending_approvals w')"
    then have "static r \<in> static ` set (pending_approvals w)" using st by blast
    then show "ap_id r < approval_seq w'" using assms(3) ev by (auto simp: static_def)
  qed
  moreover have "exec_count i (xs @ t' # ys) (l @ new) \<le> handled (pending_approvals w') i" for i
  proof -
    have old: "exec_count i (xs @ t # ys) l \<le> handled (pending_approvals w) i" using assms(3) by simp
    have sp: "exec_count i (xs @ t # ys) l = exec_count i (xs @ ys) l + exec_count i [t] []" using exec_count_split [of i xs t ys l "[]"] by simp
    from th [of i] show ?thesis
    proof (elim conjE disjE)
      assume "exec_count i [t'] new = exec_count i [t] []"
      with old sp evolves_handled [OF conjunct1 [OF ev], of i] show ?thesis by (simp add: exec_count_split)
    next
      assume h: "exec_count i [t'] new \<le> 1" "handled (pending_approvals w') i = 1"
        "\<exists>r \<in> set (pending_approvals w). ap_id r = i \<and> ap_status r = ''pending''"
      have "keyed ap_id (pending_approvals w)" using assms(3) by simp
      with h(3) have "handled (pending_approvals w) i = 0" by (auto simp: handled_def keyed_def distinct_map inj_on_def)
      with old sp h show ?thesis by (simp add: exec_count_split)
    qed
  qed
  moreover have "keyed ap_id (pending_approvals w')" using assms(3) ev evolves_keyed by auto
  moreover have "\<forall>u \<in> set (xs @ t' # ys). thread_ok (pending_approvals w') u"
    using assms(3) th st thread_ok_mono [of "pending_approvals w" "pending_approvals w'"] by auto
  moreover have "\<forall>e \<in> set (l @ new). known (pending_approvals w') (fst e) (snd e)"
    using assms(3) th st by (auto simp: known_def)
  ultimately show ?thesis by simp
qed

lemma create_inv:
  assumes "ap_inv (w, ts, l)"
  shows "ap_inv (fst (approvalCreate te u ty descr payload w), ts, l)"
proof -
  obtain row where r: "pending_approvals (fst (approvalCreate te u ty descr payload w)) = pending_approvals w @ [row]"
    "ap_id row = approval_seq w" "approval_seq (fst (approvalCreate te u ty descr payload w)) = approval_seq w + 1"
    by (simp add: approvalCreate_def Let_def audit_def emit_def)
  have "handled (pending_approvals w) i \<le> handled (pending_approvals w @ [row]) i" for i by (auto simp: handled_def)
  moreover have "keyed ap_id (pending_approvals w @ [row])" using assms r(2) by (auto simp: keyed_snoc)
  ultimately show ?thesis
    using assms thread_ok_mono [of "pending_approvals w" "pending_approvals w @ [row]"]
    by (auto simp: r known_def intro: order_trans less_SucI)
qed

lemma quiet_inv:
  assumes "ap_inv (w, ts, l)" and "evolves (pending_approvals w) (pending_approvals w')" and "approval_seq w' = approval_seq w"
  shows "ap_inv (w', ts, l)"
proof -
  have st: "static ` set (pending_approvals w') = static ` set (pending_approvals w)" using evolves_static [OF assms(2)] .
  have "\<forall>r \<in> set (pending_approvals w'). ap_id r < approval_seq w'"
  proof
    fix r assume "r \<in> set (pending_approvals w')"
    then have "static r \<in> static ` set (pending_approvals w)" using st by blast
    then show "ap_id r < approval_seq w'" using assms(1,3) by (auto simp: static_def)
  qed
  then show ?thesis
    using assms(1) evolves_keyed [OF assms(2)] st thread_ok_mono [of "pending_approvals w" "pending_approvals w'"] evolves_handled [OF assms(2)]
    by (auto simp: known_def intro: order_trans)
qed

lemma ap_step_inv:
  assumes "ap_step env s s'" and "env_ok env" and "ap_inv s"
  shows "ap_inv s'"
  using assms
proof (induction rule: ap_step.induct)
  case (arrive t w ts l)
  then show ?case using starts_harmless [OF arrive(1)] by (auto simp: exec_count_def)
next
  case (move t w w' t' new xs ys l)
  then show ?case by (blast intro: move_inv)
next
  case (create w ts l te u ty descr payload)
  then show ?case by (blast intro: create_inv)
next
  case (sweep w ts l)
  then show ?case using quiet_inv [OF sweep(2) update_evolves(4)] by simp
next
  case (other w' w ts l)
  then show ?case using quiet_inv [of w ts l w'] by simp
qed

interpretation approval_machine: guarded_machine "\<lambda>s. env_ok env \<and> ap_inv s" "ap_step env" for env
  by unfold_locales (blast intro: ap_step_inv)

lemma distinct_by_count: "(\<And>i. length (filter (\<lambda>e. f e = i) l) \<le> 1) \<Longrightarrow> distinct (map f l)"
proof (induction l)
  case (Cons e l)
  have "length (filter (\<lambda>x. f x = i) l) \<le> 1" for i using Cons.prems [of i] by (simp split: if_splits)
  moreover have "f e \<notin> f ` set l"
  proof
    assume "f e \<in> f ` set l"
    then have "filter (\<lambda>x. f x = f e) l \<noteq> []" by (auto simp: filter_empty_conv)
    then show False using Cons.prems [of "f e"] by (cases "filter (\<lambda>x. f x = f e) l") simp_all
  qed
  ultimately show ?case using Cons.IH by simp
qed simp

lemma inv_executions:
  assumes "ap_inv (w, ts, l)"
  shows "distinct (map (\<lambda>e. ap_id (snd e)) l)"
    and "(p, row) \<in> set l \<Longrightarrow> rp_reviewer p \<noteq> ap_requested_by row \<and> rp_tenant p = ap_tenant row \<and>
      (\<exists>r \<in> set (pending_approvals w). static r = static row \<and> ap_status r \<noteq> ''pending'')"
proof -
  have le: "length (filter (\<lambda>e. ap_id (snd e) = i) l) \<le> handled (pending_approvals w) i" for i
    using assms by (simp add: exec_count_def) (meson add_leE)
  then show "distinct (map (\<lambda>e. ap_id (snd e)) l)"
    by (intro distinct_by_count order_trans [OF le]) (simp add: handled_def)
  assume m: "(p, row) \<in> set l"
  then have k: "known (pending_approvals w) p row" using assms by force
  then obtain r where r: "r \<in> set (pending_approvals w)" "static r = static row" by (auto simp: known_def)
  have "filter (\<lambda>e. ap_id (snd e) = ap_id row) l \<noteq> []" using m by (auto simp: filter_empty_conv intro!: bexI [of _ "(p, row)"])
  then have "handled (pending_approvals w) (ap_id row) \<noteq> 0" using le [of "ap_id row"] by (metis le_zero_eq length_0_conv)
  then obtain r' where r': "r' \<in> set (pending_approvals w)" "ap_id r' = ap_id row" "ap_status r' \<noteq> ''pending''"
    by (auto simp: handled_def split: if_splits)
  have "r' = r" using r r' assms by (auto simp: keyed_def distinct_map inj_on_def static_def)
  with k r r' show "rp_reviewer p \<noteq> ap_requested_by row \<and> rp_tenant p = ap_tenant row \<and>
      (\<exists>r \<in> set (pending_approvals w). static r = static row \<and> ap_status r \<noteq> ''pending'')"
    by (auto simp: known_def)
qed

text \<open>
  C5. Whatever requests to approve, deny and cancel arrive and however their statements interleave with each
  other, with new requests, the expiry sweep and the rest of the server, every approved request is executed
  at most once, only on the word of a reviewer of its tenant who is not its requester, and exactly as it was
  requested.
\<close>

theorem approval_executed_once:
  assumes "env_ok env" and "keyed ap_id (pending_approvals w)" and "\<forall>r \<in> set (pending_approvals w). ap_id r < approval_seq w"
    and "(ap_step env)\<^sup>*\<^sup>* (w, [], []) (w', ts, l)"
  shows "distinct (map (\<lambda>e. ap_id (snd e)) l) \<and>
    (\<forall>(p, row) \<in> set l. rp_reviewer p \<noteq> ap_requested_by row \<and> rp_tenant p = ap_tenant row \<and>
       (\<exists>r \<in> set (pending_approvals w'). ap_id r = ap_id row \<and> ap_requested_by r = ap_requested_by row \<and> ap_tenant r = ap_tenant row \<and>
          ap_type r = ap_type row \<and> ap_payload r = ap_payload row \<and> ap_status r \<noteq> ''pending''))"
proof -
  have "ap_inv (w, [], [])" using assms(2,3) by (simp add: exec_count_def)
  then have "ap_inv (w', ts, l)" using approval_machine.reach_inv [OF assms(4)] assms(1) by blast
  from inv_executions [OF this] show ?thesis by (fastforce simp: static_def)
qed

text \<open>An example: user 7 asked for a privacy bypass of scenario 1; user 9 approves while user 8 denies.\<close>

definition ex_approval :: approval_row where
  "ex_approval = \<lparr>ap_id = 1, ap_tenant = 2, ap_requested_by = 7, ap_type = ''setting_change'', ap_description = ''bypass'',
     ap_payload = [(''entityType'', JStr ''scenario''), (''entityId'', JNum 1), (''field'', JStr ''bypassPrivacyMode''), (''value'', JBool True)],
     ap_status = ''pending'', ap_reviewed_by = None, ap_reviewed_at = None, ap_reason = None, ap_created = 500, ap_expires = 5000, ap_executed = None\<rparr>"

definition ex_ap :: ap_db where
  "ex_ap = sc_db.extend (ex_sc\<lparr>scenarios := [ex_scenario\<lparr>scn_bypass := False\<rparr>]\<rparr>) \<lparr>tenants = [], pending_approvals = [ex_approval], approval_seq = 2, script_schedules = [], second_factors = [],
     step_up_throttle = [], tfa_trusted_sessions = [], audit_log = []\<rparr>"

definition ex_env :: "ap_db ap_env" where
  "ex_env = \<lparr>env_sha256 = (\<lambda>s. s), env_executeNow = (\<lambda>i ds t ps u w. (w, None))\<rparr>"

definition ex_yes :: review_params where "ex_yes = \<lparr>rp_tenant = 2, rp_approval = 1, rp_reviewer = 9, rp_reason = None\<rparr>"
definition ex_no :: review_params where "ex_no = \<lparr>rp_tenant = 2, rp_approval = 1, rp_reviewer = 8, rp_reason = None\<rparr>"

lemma ex_env_ok: "env_ok ex_env"
  by (simp add: env_ok_def ex_env_def)

definition ex_claimed :: ap_db where "ex_claimed = fst (claim ex_yes ex_approval ex_ap)"

lemma ex_checks:
  "approve_check ex_yes ex_ap = CheckGo ex_approval" "deny_check ex_no ex_ap = Inr ex_approval" "snd (claim ex_yes ex_approval ex_ap)"
  by (simp_all add: approve_check_def deny_check_def approval_of_def claim_def Let_def ex_yes_def ex_no_def ex_approval_def ex_ap_def ex_sc_defs sc_db.defs)

lemma ex_race:
  "(ap_step ex_env)\<^sup>*\<^sup>* (ex_ap, [], []) (approve_execute ex_env ex_approval ex_claimed, [TFinish ex_yes ex_approval, TDenyWrite ex_no ex_approval], [(ex_yes, ex_approval)])"
proof -
  note mv = ap_step.move [where env = ex_env]
  have "ap_step ex_env (ex_ap, [], []) (ex_ap, [TApprove ex_yes], [])"
    using ap_step.arrive [of "TApprove ex_yes" ex_env ex_ap "[]" "[]"] by simp
  moreover have "ap_step ex_env (ex_ap, [TApprove ex_yes], []) (ex_ap, [TApprove ex_yes, TDeny ex_no], [])"
    using ap_step.arrive [of "TDeny ex_no" ex_env ex_ap "[TApprove ex_yes]" "[]"] by simp
  moreover have "ap_step ex_env (ex_ap, [TApprove ex_yes, TDeny ex_no], []) (ex_ap, [TClaim ex_yes ex_approval, TDeny ex_no], [])"
    using mv [of "TApprove ex_yes" ex_ap ex_ap "TClaim ex_yes ex_approval" "[]" "[]" "[TDeny ex_no]" "[]"] by (simp add: ex_checks)
  moreover have "ap_step ex_env (ex_ap, [TClaim ex_yes ex_approval, TDeny ex_no], []) (ex_ap, [TClaim ex_yes ex_approval, TDenyWrite ex_no ex_approval], [])"
    using mv [of "TDeny ex_no" ex_ap ex_ap "TDenyWrite ex_no ex_approval" "[]" "[TClaim ex_yes ex_approval]" "[]" "[]"] by (simp add: ex_checks)
  moreover have "ap_step ex_env (ex_ap, [TClaim ex_yes ex_approval, TDenyWrite ex_no ex_approval], []) (ex_claimed, [TExec ex_yes ex_approval, TDenyWrite ex_no ex_approval], [])"
    using mv [of "TClaim ex_yes ex_approval" ex_ap ex_claimed "TExec ex_yes ex_approval" "[]" "[]" "[TDenyWrite ex_no ex_approval]" "[]"] ex_checks(3)
    by (simp add: ex_claimed_def case_prod_unfold Let_def)
  moreover have "ap_step ex_env (ex_claimed, [TExec ex_yes ex_approval, TDenyWrite ex_no ex_approval], [])
      (approve_execute ex_env ex_approval ex_claimed, [TFinish ex_yes ex_approval, TDenyWrite ex_no ex_approval], [(ex_yes, ex_approval)])"
    using mv [of "TExec ex_yes ex_approval" ex_claimed _ "TFinish ex_yes ex_approval" "[(ex_yes, ex_approval)]" "[]" "[TDenyWrite ex_no ex_approval]" "[]"] by simp
  ultimately show ?thesis by (meson rtranclp.rtrancl_into_rtrancl rtranclp.rtrancl_refl)
qed

lemma ex_ap_rows: "keyed ap_id (pending_approvals ex_ap)" "\<forall>r \<in> set (pending_approvals ex_ap). ap_id r < approval_seq ex_ap"
  by (simp_all add: ex_ap_def ex_approval_def keyed_def sc_db.defs)

theorem approval_executed_once_witness: "rp_reviewer ex_yes \<noteq> ap_requested_by ex_approval \<and> rp_tenant ex_yes = ap_tenant ex_approval"
  using approval_executed_once [OF ex_env_ok ex_ap_rows ex_race] by simp

text \<open>
  C46. The review of a request can end as denied although the request was executed: the denial was checked before
  the approval claimed the request and its update, which is not conditional on \<open>pending\<close>, comes after the
  execution.
\<close>

theorem denied_after_execution:
  "\<exists>w ts. (ap_step ex_env)\<^sup>*\<^sup>* (ex_ap, [], []) (w, ts, [(ex_yes, ex_approval)]) \<and>
     (\<exists>r \<in> set (pending_approvals w). ap_id r = ap_id ex_approval \<and> ap_status r = ''denied'') \<and> list_all scn_bypass (scenarios w)"
proof -
  let ?w = "approve_execute ex_env ex_approval ex_claimed"
  let ?v = "finish_review ''approval.denied'' ex_no ex_approval (deny_write ex_no ex_approval ?w)"
  have "ap_step ex_env (?w, [TFinish ex_yes ex_approval, TDenyWrite ex_no ex_approval], [(ex_yes, ex_approval)]) (?v, [TFinish ex_yes ex_approval, TDone], [(ex_yes, ex_approval)])"
    using ap_step.move [of ex_env "TDenyWrite ex_no ex_approval" ?w ?v TDone "[]" "[TFinish ex_yes ex_approval]" "[]" "[(ex_yes, ex_approval)]"] by simp
  with ex_race have "(ap_step ex_env)\<^sup>*\<^sup>* (ex_ap, [], []) (?v, [TFinish ex_yes ex_approval, TDone], [(ex_yes, ex_approval)])"
    by (rule rtranclp.rtrancl_into_rtrancl)
  moreover have "pending_approvals ?v = pending_approvals (deny_write ex_no ex_approval ?w)"
    using tables_small(4) [of "''approval.denied''" ex_no ex_approval "deny_write ex_no ex_approval ?w"] by (simp add: ap_tables_def)
  moreover have "\<exists>r \<in> set (pending_approvals (deny_write ex_no ex_approval ?w)). ap_id r = ap_id ex_approval \<and> ap_status r = ''denied''"
    by (simp add: deny_write_def update_approval_def approve_execute_def execute_request_def executeSettingChange_def field_text_def db_id_of_def
        id_in_range_def int4_max_def tbl_update_def ex_claimed_def claim_def Let_def ex_approval_def ex_ap_def ex_sc_defs sc_db.defs)
  moreover have "list_all scn_bypass (scenarios ?v)"
    by (simp add: finish_review_def emit_updated_def audit_def emit_def deny_write_def update_approval_def approve_execute_def execute_request_def
        executeSettingChange_def field_text_def db_id_of_def id_in_range_def int4_max_def tbl_update_def ex_claimed_def claim_def Let_def ex_approval_def
        ex_ap_def ex_sc_defs sc_db.defs)
  ultimately show ?thesis by metis
qed

end
