(* ===== verification/Step_Up.thy ===== *)
theory Step_Up
  imports Approval
begin

text \<open>
  Second-factor checks of signed-in users (\<^verbatim>\<open>server/src/services/deviceKey/stepUpProof.ts\<close>, with the TOTP part of
  \<^verbatim>\<open>server/src/services/twoFactor.service.ts\<close>): the replay guard of TOTP steps, the caps on wrong codes and the verifier
  itself. The otpauth library, the Obligate service, bcrypt and SHA-256 are arguments; a call that throws answers
  \<open>None\<close>. A statement of the database is one step; settling an attempt is one step as well.
\<close>

section \<open>State\<close>

record su_db = ap_db +
  otp_smtp_server :: "nat option"
  failure_notices :: "(nat \<times> string \<times> nat) list"
  live_sessions :: "string list"

record step_up_proof =
  pf_code :: "string option"
  pf_trust_ip :: bool
  pf_password :: "string option"

record su_request =
  rq_user :: "nat option"
  rq_session :: "string option"
  rq_random :: string
  rq_tenant :: "nat option"
  rq_current_tenant :: "nat option"
  rq_ip :: string
  rq_relay :: bool
  rq_proof :: step_up_proof

record su_opts =
  so_action :: string
  so_trusted_ip :: bool
  so_new_step :: bool
  so_no_factor :: "string option"

datatype code_result = CodeValid | CodeInvalid | CodeUsed | CodeUnavailable

record su_env =
  se_sha256 :: "string \<Rightarrow> string"
  se_validate :: "string \<Rightarrow> string \<Rightarrow> int \<Rightarrow> nat \<Rightarrow> int option option"
  se_obligate :: "nat \<Rightarrow> string \<Rightarrow> code_result option"
  se_compare :: "string \<Rightarrow> string \<Rightarrow> bool option"

datatype step_up_via = ViaTrustedIp | ViaTotp | ViaObligate | ViaPassword

datatype step_up_outcome = StepOk step_up_via | StepFail nat json_obj "(string \<times> string) list"

section \<open>TOTP codes\<close>

definition totp_period_s :: int where "totp_period_s = 30"

definition totp_window :: nat where "totp_window = 1"

definition six_digits :: "string \<Rightarrow> bool" where
  "six_digits s \<longleftrightarrow> length s = 6 \<and> list_all is_digit s"

definition verifyTotpStep :: "su_env \<Rightarrow> string \<Rightarrow> string \<Rightarrow> nat \<Rightarrow> int \<Rightarrow> int option" where
  "verifyTotpStep env secret code window now =
     (let token = trim code
      in if \<not> six_digits token then None
         else case se_validate env (trim secret) token now window of
                Some (Some delta) \<Rightarrow> Some (now div (1000 * totp_period_s) + delta)
              | _ \<Rightarrow> None)"

definition totpDriftSteps :: "su_env \<Rightarrow> string \<Rightarrow> string \<Rightarrow> int \<Rightarrow> int option" where
  "totpDriftSteps env secret code now =
     (let token = trim code
      in if \<not> six_digits token then None
         else case se_validate env (trim secret) token now (totp_window + 1) of
                Some (Some delta) \<Rightarrow> if \<bar>delta\<bar> > int totp_window then Some delta else None
              | _ \<Rightarrow> None)"

section \<open>The replay guard\<close>

definition stepup_reuse_steps :: int where "stepup_reuse_steps = 4"

definition hashSessionId :: "su_env \<Rightarrow> string option \<Rightarrow> string \<Rightarrow> string" where
  "hashSessionId env sid random = se_sha256 env (text_or sid random)"

definition fresh_step :: "int \<Rightarrow> factor_row \<Rightarrow> bool" where
  "fresh_step step f \<longleftrightarrow> (case sf_last_step f of None \<Rightarrow> True | Some l \<Rightarrow> l < step)"

definition reusable_step :: "int \<Rightarrow> string \<Rightarrow> factor_row \<Rightarrow> bool" where
  "reusable_step step sess f \<longleftrightarrow>
     sf_last_session f = Some sess \<and> (case sf_last_step f of None \<Rightarrow> False | Some l \<Rightarrow> step \<ge> l - stepup_reuse_steps)"

definition take_step :: "int \<Rightarrow> string \<Rightarrow> factor_row \<Rightarrow> factor_row" where
  "take_step step sess f =
     f\<lparr>sf_last_session := (if fresh_step step f then Some sess else sf_last_session f),
       sf_last_step := Some (max (case sf_last_step f of None \<Rightarrow> step | Some l \<Rightarrow> l) step)\<rparr>"

text \<open>\<open>strict\<close> distinguishes the two modes of the source.\<close>

definition acceptTotpStep :: "nat \<Rightarrow> int \<Rightarrow> string \<Rightarrow> bool \<Rightarrow> 'a ap_db_scheme \<Rightarrow> 'a ap_db_scheme \<times> bool" where
  "acceptTotpStep u step sess strict w =
     (if \<bar>step\<bar> \<ge> 2 ^ 53 \<or> step \<le> 0 then (w, False)
      else if strict
      then let hit = (\<lambda>f. sf_user f = u \<and> fresh_step step f)
           in (w\<lparr>second_factors := tbl_update hit (\<lambda>f. f\<lparr>sf_last_step := Some step, sf_last_session := Some sess\<rparr>) (second_factors w)\<rparr>,
               list_ex hit (second_factors w))
      else let hit = (\<lambda>f. sf_user f = u \<and> (fresh_step step f \<or> reusable_step step sess f))
           in (w\<lparr>second_factors := tbl_update hit (take_step step sess) (second_factors w)\<rparr>, list_ex hit (second_factors w)))"

definition rebindTotpStepSession :: "nat \<Rightarrow> int \<Rightarrow> string \<Rightarrow> string \<Rightarrow> 'a ap_db_scheme \<Rightarrow> 'a ap_db_scheme" where
  "rebindTotpStepSession u step fromHash toHash w =
     w\<lparr>second_factors := tbl_update (\<lambda>f. sf_user f = u \<and> sf_last_step f = Some step \<and> sf_last_session f = Some fromHash)
         (\<lambda>f. f\<lparr>sf_last_session := Some toHash\<rparr>) (second_factors w)\<rparr>"

section \<open>Caps on wrong codes\<close>

definition code_window_ms :: int where "code_window_ms = 15 * 60 * 1000"
definition code_window_max :: nat where "code_window_max = 10"
definition code_day_ms :: int where "code_day_ms = 24 * 60 * 60 * 1000"
definition code_day_max :: nat where "code_day_max = 30"
definition code_notify_at :: nat where "code_notify_at = 5"

definition elapsed :: "int option \<Rightarrow> int \<Rightarrow> int \<Rightarrow> bool" where
  "elapsed start period now \<longleftrightarrow> (case start of None \<Rightarrow> True | Some s \<Rightarrow> s \<le> now - period)"

definition may_try :: "int \<Rightarrow> throttle_row \<Rightarrow> bool" where
  "may_try now r \<longleftrightarrow> \<not> th_locked r \<and> (elapsed (th_window_start r) code_window_ms now \<or> th_window_failures r < code_window_max) \<and>
     (elapsed (th_day_start r) code_day_ms now \<or> th_day_failures r < code_day_max)"

definition count_attempt :: "int \<Rightarrow> throttle_row \<Rightarrow> throttle_row" where
  "count_attempt now r =
     (let win = elapsed (th_window_start r) code_window_ms now; day = elapsed (th_day_start r) code_day_ms now
      in r\<lparr>th_window_start := (if win then Some now else th_window_start r), th_window_failures := (if win then 1 else th_window_failures r + 1),
           th_day_start := (if day then Some now else th_day_start r), th_day_failures := (if day then 1 else th_day_failures r + 1)\<rparr>)"

definition code_row :: "nat \<Rightarrow> 'a ap_db_scheme \<Rightarrow> throttle_row option" where
  "code_row u w = find (is_code_row u) (step_up_throttle w)"

definition update_code_row :: "nat \<Rightarrow> (throttle_row \<Rightarrow> throttle_row) \<Rightarrow> 'a ap_db_scheme \<Rightarrow> 'a ap_db_scheme" where
  "update_code_row u f w = w\<lparr>step_up_throttle := tbl_update (is_code_row u) f (step_up_throttle w)\<rparr>"

text \<open>Locked, and the seconds to wait when the short window is full.\<close>

definition peekCodeThrottle :: "nat \<Rightarrow> 'a ap_db_scheme \<Rightarrow> bool \<times> int option" where
  "peekCodeThrottle u w =
     (case code_row u w of
        None \<Rightarrow> (False, None)
      | Some r \<Rightarrow>
          if th_locked r \<or> (\<not> elapsed (th_day_start r) code_day_ms (now_ms w) \<and> th_day_failures r \<ge> code_day_max) then (True, None)
          else case th_window_start r of
            None \<Rightarrow> (False, None)
          | Some s \<Rightarrow>
              if s > now_ms w - code_window_ms \<and> th_window_failures r \<ge> code_window_max
              then (False, Some (max 1 \<lceil>rat_of_int (s + code_window_ms - now_ms w) / 1000\<rceil>)) else (False, None))"

definition reserveCodeAttempt :: "nat \<Rightarrow> 'a ap_db_scheme \<Rightarrow> 'a ap_db_scheme \<times> (bool \<times> int option) option" where
  "reserveCodeAttempt u w =
     (case code_row u w of
        None \<Rightarrow>
          (w\<lparr>step_up_throttle := step_up_throttle w @
               [\<lparr>th_user = u, th_kind = ''code'', th_locked = False, th_window_failures = 1, th_window_start = Some (now_ms w),
                 th_day_failures = 1, th_day_start = Some (now_ms w), th_notified = None\<rparr>]\<rparr>, None)
      | Some r \<Rightarrow>
          if may_try (now_ms w) r then (update_code_row u (count_attempt (now_ms w)) w, None)
          else (w, Some (let (locked, retry) = peekCodeThrottle u w in if locked then (True, None) else (False, Some (case retry of None \<Rightarrow> 60 | Some s \<Rightarrow> s)))))"

definition throttledOutcome :: "bool \<times> int option \<Rightarrow> step_up_outcome" where
  "throttledOutcome t =
     (if fst t then StepFail 429 [(''error'', JStr ''Too many verification attempts''), (''codeLocked'', JBool True)] []
      else StepFail 429 [(''error'', JStr ''Too many verification attempts'')]
             [(''Retry-After'', show_nat (nat (case snd t of None \<Rightarrow> 60 | Some s \<Rightarrow> s)))])"

definition auditTenantId :: "su_request \<Rightarrow> nat" where
  "auditTenantId rq =
     (case rq_tenant rq of
        Some t \<Rightarrow> if t > 0 then t else master_tenant_id
      | None \<Rightarrow> (case rq_current_tenant rq of Some t \<Rightarrow> if t > 0 then t else master_tenant_id | None \<Rightarrow> master_tenant_id))"

datatype attempt_outcome = AttemptSuccess | AttemptFailure | AttemptVoid

definition notify_failures :: "nat \<Rightarrow> nat \<Rightarrow> string option \<Rightarrow> 'a su_db_scheme \<Rightarrow> 'a su_db_scheme" where
  "notify_failures u n email w =
     (let due = (\<lambda>r. is_code_row u r \<and> elapsed (th_notified r) code_day_ms (now_ms w))
      in if n < code_notify_at \<or> text_or email [] = [] \<or> \<not> list_ex due (step_up_throttle w) then w
         else let w1 = w\<lparr>step_up_throttle := tbl_update due (\<lambda>r. r\<lparr>th_notified := Some (now_ms w)\<rparr>) (step_up_throttle w)\<rparr>
              in case otp_smtp_server w of
                   None \<Rightarrow> w1
                 | Some i \<Rightarrow> if i = 0 then w1 else w1\<lparr>failure_notices := failure_notices w1 @ [(i, text_or email [], n)]\<rparr>)"

definition lock_codes :: "su_request \<Rightarrow> nat \<Rightarrow> nat \<Rightarrow> 'a su_db_scheme \<Rightarrow> 'a su_db_scheme" where
  "lock_codes rq u n w =
     (let open_row = (\<lambda>r. is_code_row u r \<and> \<not> th_locked r \<and> th_day_failures r \<ge> code_day_max)
      in if n < code_day_max \<or> \<not> list_ex open_row (step_up_throttle w) then w
         else audit (auditTenantId rq) u ''auth.step_up_locked'' ''user'' u
                (w\<lparr>step_up_throttle := tbl_update open_row (\<lambda>r. r\<lparr>th_locked := True\<rparr>) (step_up_throttle w)\<rparr>))"

definition settleCodeAttempt :: "su_request \<Rightarrow> nat \<Rightarrow> attempt_outcome \<Rightarrow> string option \<Rightarrow> 'a su_db_scheme \<Rightarrow> 'a su_db_scheme" where
  "settleCodeAttempt rq u oc email w =
     (case oc of
        AttemptSuccess \<Rightarrow> update_code_row u (\<lambda>r. r\<lparr>th_window_failures := 0, th_window_start := None, th_day_failures := th_day_failures r - 1\<rparr>) w
      | AttemptVoid \<Rightarrow> update_code_row u (\<lambda>r. r\<lparr>th_window_failures := th_window_failures r - 1, th_day_failures := th_day_failures r - 1\<rparr>) w
      | AttemptFailure \<Rightarrow>
          (let n = (case code_row u w of None \<Rightarrow> 0 | Some r \<Rightarrow> th_day_failures r)
           in notify_failures u n email (lock_codes rq u n (audit (auditTenantId rq) u ''auth.step_up_failed'' ''user'' u w))))"

definition reportTotpDrift :: "su_env \<Rightarrow> su_request \<Rightarrow> nat \<Rightarrow> string \<Rightarrow> string \<Rightarrow> 'a su_db_scheme \<Rightarrow> 'a su_db_scheme" where
  "reportTotpDrift env rq u secret code w =
     (case totpDriftSteps env secret code (now_ms w) of
        None \<Rightarrow> w
      | Some d \<Rightarrow> audit (auditTenantId rq) u ''auth.totp_drift'' ''user'' u w)"

definition destroySession :: "su_request \<Rightarrow> 'a su_db_scheme \<Rightarrow> 'a su_db_scheme" where
  "destroySession rq w =
     (case rq_session rq of None \<Rightarrow> w | Some s \<Rightarrow> w\<lparr>live_sessions := filter (\<lambda>x. x \<noteq> s) (live_sessions w)\<rparr>)"

definition unauthenticated :: step_up_outcome where
  "unauthenticated = StepFail 401 [(''error'', JStr ''Unauthenticated'')] []"

section \<open>The verifiers\<close>

text \<open>The active account of a request with the authentication columns of its row.\<close>

definition active_account :: "su_request \<Rightarrow> 'a su_db_scheme \<Rightarrow> (user_row \<times> factor_row) option" where
  "active_account rq w =
     (case rq_user rq of
        None \<Rightarrow> None
      | Some u \<Rightarrow>
          (case (find (\<lambda>r. usr_id r = u) (users w), find (\<lambda>f. sf_user f = u) (second_factors w)) of
             (Some r, Some f) \<Rightarrow> if usr_active r then Some (r, f) else None
           | _ \<Rightarrow> None))"

text \<open>An exception of a verifier leaves no outcome: \<open>None\<close>.\<close>

definition checkPasswordStepUp :: "su_env \<Rightarrow> su_request \<Rightarrow> string \<Rightarrow> 'a su_db_scheme \<Rightarrow> 'a su_db_scheme \<times> step_up_outcome option" where
  "checkPasswordStepUp env rq action w =
     (if \<not> truthy_id (rq_user rq) then (w, Some unauthenticated)
      else case active_account rq w of
        None \<Rightarrow> (destroySession rq w, Some unauthenticated)
      | Some (user, f) \<Rightarrow>
          if text_or (sf_password f) [] = []
          then (w, Some (StepFail 403 [(''error'', JStr ''No password on this account to confirm the change. Ask an administrator.'')] []))
          else if text_or (pf_password (rq_proof rq)) [] = []
          then (let t = peekCodeThrottle (usr_id user) w
                in (w, Some (if fst t \<or> snd t \<noteq> None then throttledOutcome t
                             else StepFail 401 [(''error'', JStr ''Current password required''), (''passwordRequired'', JBool True), (''action'', JStr action)] [])))
          else case reserveCodeAttempt (usr_id user) w of
            (w1, Some t) \<Rightarrow> (w1, Some (throttledOutcome t))
          | (w1, None) \<Rightarrow>
              (case se_compare env (text_or (pf_password (rq_proof rq)) []) (text_or (sf_password f) []) of
                 None \<Rightarrow> (settleCodeAttempt rq (usr_id user) AttemptVoid None w1, None)
               | Some False \<Rightarrow> (settleCodeAttempt rq (usr_id user) AttemptFailure (sf_email_address f) w1,
                   Some (StepFail 401 [(''error'', JStr ''Invalid password''), (''passwordInvalid'', JBool True)] []))
               | Some True \<Rightarrow> (settleCodeAttempt rq (usr_id user) AttemptSuccess None w1, Some (StepOk ViaPassword))))"

definition no_factor_envelope :: string where
  "no_factor_envelope = ''This action is marked sensitive - enable TOTP 2FA on your profile before you can use it.''"

definition has_local_totp :: "factor_row \<Rightarrow> bool" where
  "has_local_totp f \<longleftrightarrow> sf_totp f \<and> text_or (sf_totp_secret f) [] \<noteq> []"

definition is_obligate_sso :: "user_row \<Rightarrow> factor_row \<Rightarrow> bool" where
  "is_obligate_sso user f \<longleftrightarrow> usr_foreign user = Some ''obligate'' \<and> truthy_id (sf_foreign_id f)"

definition verify_code ::
  "su_env \<Rightarrow> su_request \<Rightarrow> su_opts \<Rightarrow> user_row \<Rightarrow> factor_row \<Rightarrow> string \<Rightarrow> 'a su_db_scheme \<Rightarrow> 'a su_db_scheme \<times> code_result option" where
  "verify_code env rq o1 user f code w =
     (if has_local_totp f
      then case verifyTotpStep env (text_or (sf_totp_secret f) []) code totp_window (now_ms w) of
             None \<Rightarrow> (reportTotpDrift env rq (usr_id user) (text_or (sf_totp_secret f) []) code w, Some CodeInvalid)
           | Some step \<Rightarrow>
               (case acceptTotpStep (usr_id user) step (hashSessionId env (rq_session rq) (rq_random rq)) (so_new_step o1) w of
                  (w1, ok) \<Rightarrow> (w1, Some (if ok then CodeValid else CodeUsed)))
      else (w, se_obligate env (the (sf_foreign_id f)) code))"

definition check_code ::
  "su_env \<Rightarrow> su_request \<Rightarrow> su_opts \<Rightarrow> user_row \<Rightarrow> factor_row \<Rightarrow> bool \<Rightarrow> string \<Rightarrow> 'a su_db_scheme \<Rightarrow> 'a su_db_scheme \<times> step_up_outcome option" where
  "check_code env rq o1 user f trustUsable code w =
     (let u = usr_id user
      in case reserveCodeAttempt u w of
           (w1, Some t) \<Rightarrow> (w1, Some (throttledOutcome t))
         | (w1, None) \<Rightarrow>
             (case verify_code env rq o1 user f code w1 of
                (w2, None) \<Rightarrow> (settleCodeAttempt rq u AttemptVoid None w2, None)
              | (w2, Some CodeUnavailable) \<Rightarrow> (settleCodeAttempt rq u AttemptVoid None w2,
                  Some (StepFail 503 [(''error'', JStr ''Two-factor verification is temporarily unavailable''), (''verifierUnavailable'', JBool True)] []))
              | (w2, Some CodeUsed) \<Rightarrow> (settleCodeAttempt rq u AttemptVoid None w2,
                  Some (StepFail 401 [(''error'', JStr ''Invalid 2FA code''), (''codeUsed'', JBool True)] []))
              | (w2, Some CodeInvalid) \<Rightarrow> (settleCodeAttempt rq u AttemptFailure (sf_email_address f) w2,
                  Some (StepFail 401 [(''error'', JStr ''Invalid 2FA code'')] []))
              | (w2, Some CodeValid) \<Rightarrow>
                  (let w3 = settleCodeAttempt rq u AttemptSuccess None w2
                   in (if trustUsable \<and> pf_trust_ip (rq_proof rq)
                       then w3\<lparr>tfa_trusted_sessions := trustGrant w3 (tfa_trusted_sessions w3) (now_ms w3) u (rq_ip rq)
                                 (orElse (rq_tenant rq) (rq_current_tenant rq))\<rparr> else w3,
                       Some (StepOk (if has_local_totp f then ViaTotp else ViaObligate))))))"

definition prompt_body :: "su_request \<Rightarrow> su_opts \<Rightarrow> factor_row \<Rightarrow> bool \<Rightarrow> json_obj" where
  "prompt_body rq o1 f trustUsable =
     [(''error'', JStr ''twoFactorCode required''), (''twoFactorRequired'', JBool True), (''action'', JStr (so_action o1)), (''currentIp'', JStr (rq_ip rq)),
      (''trustIpAllowed'', JBool trustUsable)] @ (if so_new_step o1 \<and> has_local_totp f then [(''codeMustBeNew'', JBool True)] else [])"

definition checkSecondFactor :: "su_env \<Rightarrow> su_request \<Rightarrow> su_opts \<Rightarrow> 'a su_db_scheme \<Rightarrow> 'a su_db_scheme \<times> step_up_outcome option" where
  "checkSecondFactor env rq o1 w =
     (if \<not> truthy_id (rq_user rq) then (w, Some unauthenticated)
      else case active_account rq w of
        None \<Rightarrow> (destroySession rq w, Some unauthenticated)
      | Some (user, f) \<Rightarrow>
          if \<not> has_local_totp f \<and> \<not> is_obligate_sso user f
          then (w, Some (StepFail 403 [(''error'', JStr (case so_no_factor o1 of None \<Rightarrow> no_factor_envelope | Some s \<Rightarrow> s))] []))
          else let trustUsable = (so_trusted_ip o1 \<and> \<not> rq_relay rq);
                   code = trim (text_or (pf_code (rq_proof rq)) [])
               in if trustUsable \<and> isTrusted (tfa_trusted_sessions w) (now_ms w) (usr_id user) (rq_ip rq) then (w, Some (StepOk ViaTrustedIp))
                  else if code \<noteq> [] then check_code env rq o1 user f trustUsable code w
                  else let t = peekCodeThrottle (usr_id user) w
                       in (w, Some (if fst t \<or> snd t \<noteq> None then throttledOutcome t else StepFail 401 (prompt_body rq o1 f trustUsable) [])))"

text \<open>An account with a TOTP secret.\<close>

definition ex_factor :: factor_row where
  "ex_factor = \<lparr>sf_user = 7, sf_totp_secret = Some ''JBSWY3DP'', sf_totp = True, sf_email = False, sf_last_step = None, sf_last_session = None,
     sf_foreign_id = None, sf_email_address = Some ''eve@x.org'', sf_password = None\<rparr>"

definition ex_su :: su_db where
  "ex_su = ap_db.extend (sc_db.extend ex_sc \<lparr>tenants = [], pending_approvals = [], approval_seq = 1, script_schedules = [], second_factors = [ex_factor],
     step_up_throttle = [], tfa_trusted_sessions = [], audit_log = []\<rparr>) \<lparr>otp_smtp_server = None, failure_notices = [], live_sessions = [''s1'']\<rparr>"

lemma ex_su_factors: "second_factors ex_su = [ex_factor]"
  by (simp add: ex_su_def ap_db.defs sc_db.defs)

section \<open>Wrong codes are capped\<close>

lemma find_row_update:
  assumes "\<And>r. P r \<Longrightarrow> P (f r)"
  shows "find P (tbl_update (\<lambda>r. P r \<and> Q r) f rows) = map_option (\<lambda>r. if Q r then f r else r) (find P rows)"
  using assms by (induction rows) (auto simp: tbl_update_def)

lemma code_row_update_if:
  assumes "\<And>r. is_code_row u r \<Longrightarrow> is_code_row u (f r)"
    and "step_up_throttle w' = tbl_update (\<lambda>r. is_code_row u r \<and> Q r) f (step_up_throttle w)"
  shows "code_row u w' = map_option (\<lambda>r. if Q r then f r else r) (code_row u w)"
  unfolding code_row_def assms(2) using assms(1) by (rule find_row_update)

lemma code_row_update:
  assumes "\<And>r. is_code_row u r \<Longrightarrow> is_code_row u (f r)"
  shows "code_row u (update_code_row u f w) = map_option f (code_row u w)"
  using code_row_update_if [of u f "update_code_row u f w" "\<lambda>r. True" w] assms by (simp add: update_code_row_def)

lemma code_row_cong: "step_up_throttle w' = step_up_throttle w \<Longrightarrow> code_row u w' = code_row u w"
  by (simp add: code_row_def)

lemma throttle_audit [simp]: "step_up_throttle (audit t u a ty i w) = step_up_throttle w" "now_ms (audit t u a ty i w) = now_ms w"
  by (simp_all add: audit_def)

lemma is_code_row_simps [simp]:
  "is_code_row u (r\<lparr>th_locked := a\<rparr>) = is_code_row u r" "is_code_row u (r\<lparr>th_notified := d\<rparr>) = is_code_row u r"
  "is_code_row u (r\<lparr>th_window_failures := b\<rparr>) = is_code_row u r" "is_code_row u (r\<lparr>th_window_start := c\<rparr>) = is_code_row u r"
  "is_code_row u (r\<lparr>th_day_failures := b\<rparr>) = is_code_row u r" "is_code_row u (r\<lparr>th_day_start := c\<rparr>) = is_code_row u r"
  "is_code_row u (count_attempt now r) = is_code_row u r"
  by (simp_all add: is_code_row_def count_attempt_def Let_def)

text \<open>The columns of the daily cap.\<close>

definition day_view :: "throttle_row \<Rightarrow> int option \<times> nat \<times> bool" where
  "day_view r = (th_day_start r, th_day_failures r, th_locked r)"

lemma notify_day_view:
  "map_option day_view (code_row u (notify_failures u n email w)) = map_option day_view (code_row u w)"
proof (cases "n < code_notify_at \<or> text_or email [] = [] \<or> \<not> list_ex (\<lambda>r. is_code_row u r \<and> elapsed (th_notified r) code_day_ms (now_ms w)) (step_up_throttle w)")
  case False
  then have "step_up_throttle (notify_failures u n email w) = tbl_update (\<lambda>r. is_code_row u r \<and> elapsed (th_notified r) code_day_ms (now_ms w))
      (\<lambda>r. r\<lparr>th_notified := Some (now_ms w)\<rparr>) (step_up_throttle w)"
    by (auto simp: notify_failures_def Let_def split: option.split)
  from code_row_update_if [OF _ this] show ?thesis by (cases "code_row u w") (auto simp: day_view_def)
qed (auto simp: notify_failures_def Let_def)

lemma lock_day_view:
  assumes "code_row u w = Some r"
  shows "map_option day_view (code_row u (lock_codes rq u (th_day_failures r) w)) =
    Some (th_day_start r, th_day_failures r, th_locked r \<or> th_day_failures r \<ge> code_day_max)"
proof (cases "th_day_failures r < code_day_max \<or> th_locked r")
  case True
  have "map_option day_view (code_row u (lock_codes rq u (th_day_failures r) w)) = map_option day_view (code_row u w)"
  proof (cases "lock_codes rq u (th_day_failures r) w = w")
    case False
    then have "step_up_throttle (lock_codes rq u (th_day_failures r) w) =
        tbl_update (\<lambda>r. is_code_row u r \<and> (\<not> th_locked r \<and> th_day_failures r \<ge> code_day_max)) (\<lambda>r. r\<lparr>th_locked := True\<rparr>) (step_up_throttle w)"
      by (auto simp: lock_codes_def Let_def split: if_splits)
    from code_row_update_if [OF _ this] True assms show ?thesis by (auto simp: day_view_def)
  qed simp
  then show ?thesis using True assms by (auto simp: day_view_def)
next
  case False
  have "r \<in> set (step_up_throttle w) \<and> is_code_row u r" using assms by (auto simp: code_row_def find_Some_iff)
  then have "list_ex (\<lambda>r. is_code_row u r \<and> \<not> th_locked r \<and> code_day_max \<le> th_day_failures r) (step_up_throttle w)"
    using False by (auto simp: list_ex_iff)
  then have "step_up_throttle (lock_codes rq u (th_day_failures r) w) =
      tbl_update (\<lambda>r. is_code_row u r \<and> (\<not> th_locked r \<and> th_day_failures r \<ge> code_day_max)) (\<lambda>r. r\<lparr>th_locked := True\<rparr>) (step_up_throttle w)"
    using False by (auto simp: lock_codes_def Let_def)
  from code_row_update_if [OF _ this] False assms show ?thesis by (auto simp: day_view_def)
qed

lemma settle_day_view:
  assumes "code_row u w = Some r"
  shows "map_option day_view (code_row u (settleCodeAttempt rq u oc email w)) =
    Some (case oc of AttemptFailure \<Rightarrow> (th_day_start r, th_day_failures r, th_locked r \<or> th_day_failures r \<ge> code_day_max)
          | _ \<Rightarrow> (th_day_start r, th_day_failures r - 1, th_locked r))"
proof (cases oc)
  case AttemptFailure
  let ?a = "audit (auditTenantId rq) u ''auth.step_up_failed'' ''user'' u w"
  have "code_row u ?a = Some r" using assms code_row_cong [of ?a w u] by simp
  from lock_day_view [OF this, of rq] show ?thesis by (simp add: AttemptFailure settleCodeAttempt_def Let_def assms notify_day_view)
qed (simp_all add: settleCodeAttempt_def code_row_update assms day_view_def)

text \<open>What settling leaves alone.\<close>

definition rest_view :: "'a su_db_scheme \<Rightarrow> int \<times> trust_row list \<times> factor_row list" where
  "rest_view w = (now_ms w, tfa_trusted_sessions w, second_factors w)"

lemma rest_settle: "rest_view (settleCodeAttempt rq u oc email w) = rest_view w"
proof -
  have "rest_view (notify_failures u n email w) = rest_view w" for n email and w :: "'a su_db_scheme"
    by (simp add: notify_failures_def rest_view_def Let_def split: option.split)
  moreover have "rest_view (lock_codes rq u n w) = rest_view w" for n and w :: "'a su_db_scheme"
    by (simp add: lock_codes_def rest_view_def audit_def Let_def)
  moreover have "rest_view (update_code_row u f w) = rest_view w" for f and w :: "'a su_db_scheme"
    by (simp add: update_code_row_def rest_view_def)
  moreover have "rest_view (audit t u a ty i w) = rest_view w" for t u a ty i and w :: "'a su_db_scheme"
    by (simp add: audit_def rest_view_def)
  ultimately show ?thesis by (cases oc) (simp_all add: settleCodeAttempt_def Let_def)
qed

lemma now_settle [simp]: "now_ms (settleCodeAttempt rq u oc email w) = now_ms w"
  using rest_settle [of rq u oc email w] by (simp add: rest_view_def)

text \<open>
  Attempts of one user that interleave in any way: \<open>n\<close> are reserved and not yet settled, \<open>f\<close> were settled as wrong.
  Everything else the server does keeps the row of the user.
\<close>

inductive su_step :: "nat \<Rightarrow> int \<Rightarrow> 'a su_db_scheme \<times> nat \<times> nat \<Rightarrow> 'a su_db_scheme \<times> nat \<times> nat \<Rightarrow> bool" for u limit where
  reserve: "reserveCodeAttempt u w = (w', None) \<Longrightarrow> su_step u limit (w, n, f) (w', Suc n, f)"
| refuse: "reserveCodeAttempt u w = (w', Some t) \<Longrightarrow> su_step u limit (w, n, f) (w', n, f)"
| settle: "su_step u limit (w, Suc n, f) (settleCodeAttempt rq u oc email w, n, if oc = AttemptFailure then Suc f else f)"
| work: "code_row u w' = code_row u w \<Longrightarrow> now_ms w \<le> now_ms w' \<Longrightarrow> now_ms w' < limit \<Longrightarrow> su_step u limit (w, n, f) (w', n, f)"

fun cap_inv :: "nat \<Rightarrow> int \<Rightarrow> 'a su_db_scheme \<times> nat \<times> nat \<Rightarrow> bool" where
  "cap_inv u t0 (w, n, f) \<longleftrightarrow> t0 \<le> now_ms w \<and> now_ms w < t0 + code_day_ms \<and>
     (case map_option day_view (code_row u w) of
        Some (Some s, k, locked) \<Rightarrow> t0 \<le> s \<and> k = n + f \<and> n + f \<le> code_day_max \<and> (f = code_day_max \<longrightarrow> locked)
      | _ \<Rightarrow> n = 0 \<and> f = 0)"

lemma cap_inv_reserve:
  assumes "cap_inv u t0 (w, n, f)" and "reserveCodeAttempt u w = (w', None)"
  shows "cap_inv u t0 (w', Suc n, f)"
proof (cases "code_row u w")
  case None
  then have "code_row u w' = Some \<lparr>th_user = u, th_kind = ''code'', th_locked = False, th_window_failures = 1, th_window_start = Some (now_ms w),
                 th_day_failures = 1, th_day_start = Some (now_ms w), th_notified = None\<rparr>" "now_ms w' = now_ms w"
    using assms(2) by (auto simp: reserveCodeAttempt_def code_row_def find_append is_code_row_def)
  then show ?thesis using assms(1) None by (simp add: day_view_def code_day_max_def)
next
  case (Some r)
  then have m: "may_try (now_ms w) r" and w': "w' = update_code_row u (count_attempt (now_ms w)) w"
    using assms(2) by (auto simp: reserveCodeAttempt_def split: if_splits)
  have row: "code_row u w' = Some (count_attempt (now_ms w) r)" "now_ms w' = now_ms w"
    using Some by (simp_all add: w' code_row_update) (simp add: update_code_row_def)
  show ?thesis
  proof (cases "th_day_start r")
    case None
    then show ?thesis using assms(1) Some row by (simp add: day_view_def count_attempt_def Let_def elapsed_def code_day_max_def)
  next
    case (Some s)
    then have "\<not> elapsed (th_day_start r) code_day_ms (now_ms w)" using assms(1) \<open>code_row u w = Some r\<close> by (simp add: day_view_def elapsed_def)
    then show ?thesis using assms(1) \<open>code_row u w = Some r\<close> Some row m
      by (auto simp: day_view_def count_attempt_def Let_def may_try_def code_day_max_def)
  qed
qed

lemma cap_inv_settle:
  assumes "cap_inv u t0 (w, Suc n, f)"
  shows "cap_inv u t0 (settleCodeAttempt rq u oc email w, n, if oc = AttemptFailure then Suc f else f)"
proof -
  obtain r where r: "code_row u w = Some r" using assms by (cases "code_row u w") auto
  then obtain s where "th_day_start r = Some s" using assms by (cases "th_day_start r") (auto simp: day_view_def)
  then show ?thesis using assms r settle_day_view [OF r, of rq oc email] by (cases oc) (auto simp: day_view_def)
qed

lemma su_step_inv: "su_step u (t0 + code_day_ms) s s' \<Longrightarrow> cap_inv u t0 s \<Longrightarrow> cap_inv u t0 s'"
proof (induction rule: su_step.induct)
  case (refuse w w' t n f)
  then have "w' = w" by (auto simp: reserveCodeAttempt_def split: option.splits if_splits)
  with refuse show ?case by simp
next
  case (work w' w n f)
  then show ?case by simp
qed (blast intro: cap_inv_reserve cap_inv_settle)+

interpretation cap_machine: guarded_machine "cap_inv u t0" "su_step u (t0 + code_day_ms)" for u t0
  by unfold_locales (rule su_step_inv)

lemma full_day_refused:
  assumes "cap_inv u t0 (w, n, code_day_max)"
  shows "reserveCodeAttempt u w = (w, Some (True, None))"
proof -
  obtain r where r: "code_row u w = Some r" using assms by (cases "code_row u w") (auto simp: code_day_max_def)
  then have "th_locked r" using assms by (cases "th_day_start r") (auto simp: day_view_def code_day_max_def)
  with r show ?thesis by (simp add: reserveCodeAttempt_def may_try_def peekCodeThrottle_def)
qed


section \<open>The verifiers keep to the caps\<close>

text \<open>The two answers to a wrong code or password.\<close>

definition wrong_answer :: "step_up_outcome option \<Rightarrow> bool" where
  "wrong_answer res \<longleftrightarrow> res = Some (StepFail 401 [(''error'', JStr ''Invalid 2FA code'')] []) \<or>
     res = Some (StepFail 401 [(''error'', JStr ''Invalid password''), (''passwordInvalid'', JBool True)] [])"

definition attempt_path :: "nat \<Rightarrow> int \<Rightarrow> 'a su_db_scheme \<Rightarrow> 'a su_db_scheme \<times> step_up_outcome option \<Rightarrow> nat \<Rightarrow> nat \<Rightarrow> bool" where
  "attempt_path u limit w res n f \<longleftrightarrow>
     (su_step u limit)\<^sup>*\<^sup>* (w, n, f) (fst res, n, f + (if wrong_answer (snd res) then 1 else 0))"

lemma is_wrong [simp]:
  "wrong_answer (Some (StepFail 401 [(''error'', JStr ''Invalid 2FA code'')] []))"
  "wrong_answer (Some (StepFail 401 [(''error'', JStr ''Invalid password''), (''passwordInvalid'', JBool True)] []))"
  by (simp_all add: wrong_answer_def)

lemma not_wrong [simp]:
  "\<not> wrong_answer None" "\<not> wrong_answer (Some (StepOk v))" "\<not> wrong_answer (Some unauthenticated)" "\<not> wrong_answer (Some (throttledOutcome t))"
  "\<not> wrong_answer (Some (StepFail 403 b h))" "\<not> wrong_answer (Some (StepFail 503 b h))"
  "\<not> wrong_answer (Some (StepFail 401 [(''error'', JStr ''Invalid 2FA code''), c] h))" "\<not> wrong_answer (Some (StepFail 401 (prompt_body rq o1 f t') h))"
  "\<not> wrong_answer (Some (StepFail 401 ((k, JStr ''Current password required'') # b) h))"
  by (auto simp: wrong_answer_def unauthenticated_def throttledOutcome_def prompt_body_def)

lemma verify_code_row:
  "code_row u' (fst (verify_code env rq o1 user f code w)) = code_row u' w" "now_ms (fst (verify_code env rq o1 user f code w)) = now_ms w"
  by (simp_all add: verify_code_def reportTotpDrift_def acceptTotpStep_def Let_def code_row_def split: option.split)

lemma code_row_trust [simp]: "code_row u (w\<lparr>tfa_trusted_sessions := x\<rparr>) = code_row u w"
  by (simp add: code_row_def)

lemma reserve_now: "now_ms (fst (reserveCodeAttempt u w)) = now_ms w"
  by (simp add: reserveCodeAttempt_def update_code_row_def split: option.split)

lemma quiet_path: "now_ms w < limit \<Longrightarrow> code_row u w' = code_row u w \<Longrightarrow> now_ms w' = now_ms w \<Longrightarrow> \<not> wrong_answer oc \<Longrightarrow> attempt_path u limit w (w', oc) n f"
  unfolding attempt_path_def by (simp add: r_into_rtranclp su_step.work)

lemma refused_path: "reserveCodeAttempt u w = (w1, Some t) \<Longrightarrow> attempt_path u limit w (w1, Some (throttledOutcome t)) n f"
  unfolding attempt_path_def by (auto simp: wrong_answer_def throttledOutcome_def intro: su_step.refuse)

lemma settled_path:
  fixes w w1 w2 w3 w4 :: "'a su_db_scheme"
  assumes "reserveCodeAttempt u w = (w1, None)" and "now_ms w < limit" and "code_row u w2 = code_row u w1" and "now_ms w2 = now_ms w1"
    and "w3 = settleCodeAttempt rq u oc email w2" and "code_row u w4 = code_row u w3" and "now_ms w4 = now_ms w3" and "wrong_answer res \<longleftrightarrow> oc = AttemptFailure"
  shows "attempt_path u limit w (w4, res) n f"
proof -
  have now: "now_ms w1 = now_ms w" using assms(1) reserve_now [of u w] by simp
  have "su_step u limit (w, n, f) (w1, Suc n, f)" using assms(1) by (rule su_step.reserve)
  moreover have "su_step u limit (w1, Suc n, f) (w2, Suc n, f)" using assms(2,3,4) now by (intro su_step.work) simp_all
  moreover have "su_step u limit (w2, Suc n, f) (w3, n, if oc = AttemptFailure then Suc f else f)" unfolding assms(5) by (rule su_step.settle)
  moreover have "su_step u limit (w3, n, if oc = AttemptFailure then Suc f else f) (w4, n, if oc = AttemptFailure then Suc f else f)"
    using assms(2,4,5,6,7) now by (intro su_step.work) simp_all
  ultimately have "(su_step u limit)\<^sup>*\<^sup>* (w, n, f) (w4, n, if oc = AttemptFailure then Suc f else f)"
    by (meson rtranclp.rtrancl_into_rtrancl rtranclp.rtrancl_refl)
  then show ?thesis using assms(8) by (cases "oc = AttemptFailure") (simp_all add: attempt_path_def)
qed

lemma check_code_path:
  assumes "now_ms w < limit"
  shows "attempt_path (usr_id user) limit w (check_code env rq o1 user f trust code w) n k"
proof -
  let ?u = "usr_id user"
  obtain w1 t where r: "reserveCodeAttempt ?u w = (w1, t)" by fastforce
  show ?thesis
  proof (cases t)
    case (Some x)
    then show ?thesis using refused_path r by (simp add: check_code_def Let_def)
  next
    case None
    obtain w2 res where v: "verify_code env rq o1 user f code w1 = (w2, res)" by fastforce
    have w2: "code_row ?u w2 = code_row ?u w1" "now_ms w2 = now_ms w1" using verify_code_row v by (metis fst_conv)+
    note path = settled_path [OF r [unfolded None] assms w2 refl]
    show ?thesis
    proof (cases res)
      case (Some c)
      then show ?thesis
        by (cases c) (simp_all add: check_code_def Let_def r None v path)
    qed (simp add: check_code_def Let_def r None v path)
  qed
qed

lemma account_user: "active_account rq w = Some (user, f) \<Longrightarrow> rq_user rq = Some (usr_id user)"
  by (auto simp: active_account_def find_Some_iff split: option.splits if_splits)

lemma code_row_destroy [simp]: "code_row u (destroySession rq w) = code_row u w" "now_ms (destroySession rq w) = now_ms w"
  by (simp_all add: destroySession_def code_row_def split: option.split)

text \<open>
  Every step-up check - by code and by password - of a user goes through the caps: its effect on the account is
  that of at most one reserved attempt that is settled before the answer, and the attempt counts as wrong exactly
  when the answer says so.
\<close>

theorem step_up_keeps_to_caps:
  assumes "rq_user rq = Some u" and "now_ms w < limit"
  shows "attempt_path u limit w (checkSecondFactor env rq o1 w) n f \<and> attempt_path u limit w (checkPasswordStepUp env rq action w) n f"
proof
  note quiet = quiet_path [OF assms(2)]
  show "attempt_path u limit w (checkSecondFactor env rq o1 w) n f"
  proof (cases "active_account rq w")
    case (Some uf)
    obtain user fr where uf: "uf = (user, fr)" by fastforce
    have u: "usr_id user = u" using account_user Some uf assms(1) by fastforce
    show ?thesis using check_code_path [OF assms(2), of user env rq o1 fr] Some uf u quiet
      by (simp add: checkSecondFactor_def Let_def)
  qed (simp add: checkSecondFactor_def quiet)
  show "attempt_path u limit w (checkPasswordStepUp env rq action w) n f"
  proof (cases "active_account rq w")
    case (Some uf)
    obtain user fr where uf: "uf = (user, fr)" by fastforce
    have u: "usr_id user = u" using account_user Some uf assms(1) by fastforce
    obtain w1 t where r: "reserveCodeAttempt u w = (w1, t)" by fastforce
    show ?thesis
    proof (cases t)
      case None
      note path = settled_path [OF r [unfolded None] assms(2) refl refl refl refl refl]
      show ?thesis using Some uf u r None quiet
        by (simp add: checkPasswordStepUp_def Let_def path split: option.split bool.split)
    next
      case t: (Some x)
      show ?thesis using Some uf u r t quiet refused_path [OF r [unfolded t]] by (simp add: checkPasswordStepUp_def Let_def)
    qed
  qed (simp add: checkPasswordStepUp_def quiet)
qed

section \<open>TOTP steps are not replayed\<close>

datatype totp_event = Accepted bool int string | Rebound int string string

definition totp_view :: "nat \<Rightarrow> 'a ap_db_scheme \<Rightarrow> (int option \<times> string option) list" where
  "totp_view u w = map (\<lambda>f. (sf_last_step f, sf_last_session f)) (filter (\<lambda>f. sf_user f = u) (second_factors w))"

inductive totp_step :: "nat \<Rightarrow> 'a ap_db_scheme \<times> totp_event list \<Rightarrow> 'a ap_db_scheme \<times> totp_event list \<Rightarrow> bool" for u where
  accepted: "acceptTotpStep u s h strict w = (w', True) \<Longrightarrow> totp_step u (w, evs) (w', evs @ [Accepted strict s h])"
| refused: "acceptTotpStep u s h strict w = (w', False) \<Longrightarrow> totp_step u (w, evs) (w', evs)"
| rebound: "totp_step u (w, evs) (rebindTotpStepSession u s h h' w, evs @ [Rebound s h h'])"
| other: "totp_view u w' = totp_view u w \<Longrightarrow> totp_step u (w, evs) (w', evs)"

fun give :: "int option \<times> string option \<Rightarrow> totp_event \<Rightarrow> int option \<times> string option" where
  "give (l, h) (Accepted strict s h') = (if case l of None \<Rightarrow> True | Some l' \<Rightarrow> l' < s then (Some s, Some h') else (l, h))"
| "give (l, h) (Rebound s a b) = (if l = Some s \<and> h = Some a then (l, Some b) else (l, h))"

text \<open>The newest accepted step with the session it belongs to.\<close>

definition holder :: "totp_event list \<Rightarrow> int option \<times> string option" where
  "holder evs = foldl give (None, None) evs"

fun admits :: "int option \<times> string option \<Rightarrow> totp_event \<Rightarrow> bool" where
  "admits (l, h) (Accepted strict s h') \<longleftrightarrow>
     (case l of None \<Rightarrow> True | Some l' \<Rightarrow> l' < s \<or> (\<not> strict \<and> h = Some h' \<and> s \<ge> l' - stepup_reuse_steps))"
| "admits x (Rebound s a b) \<longleftrightarrow> True"

definition valid_log :: "totp_event list \<Rightarrow> bool" where
  "valid_log evs \<longleftrightarrow> (\<forall>xs e ys. evs = xs @ e # ys \<longrightarrow> admits (holder xs) e)"

lemma holder_snoc [simp]: "holder (evs @ [e]) = give (holder evs) e"
  by (simp add: holder_def)

lemma valid_log_snoc [simp]: "valid_log (evs @ [e]) \<longleftrightarrow> valid_log evs \<and> admits (holder evs) e"
proof
  assume v: "valid_log (evs @ [e])"
  have "admits (holder xs) e'" if "evs = xs @ e' # ys" for xs e' ys
    using v that unfolding valid_log_def by (metis append_Cons append_assoc)
  moreover have "admits (holder evs) e" using v unfolding valid_log_def by blast
  ultimately show "valid_log evs \<and> admits (holder evs) e" unfolding valid_log_def by blast
next
  assume v: "valid_log evs \<and> admits (holder evs) e"
  have "admits (holder xs) e'" if "evs @ [e] = xs @ e' # ys" for xs e' ys
  proof (cases ys rule: rev_cases)
    case Nil
    with v that show ?thesis by simp
  next
    case (snoc zs z)
    with that have "evs = xs @ e' # zs" by simp
    with v show ?thesis unfolding valid_log_def by blast
  qed
  then show "valid_log (evs @ [e])" unfolding valid_log_def by blast
qed

lemma valid_prefix: "valid_log (xs @ ys) \<Longrightarrow> valid_log xs"
  by (induction ys rule: rev_induct) (simp_all flip: append_assoc)

lemma accepted_le_holder:
  assumes "valid_log evs" and "Accepted strict s h \<in> set evs"
  shows "\<exists>l. fst (holder evs) = Some l \<and> s \<le> l"
  using assms
proof (induction evs rule: rev_induct)
  case (snoc e evs)
  obtain l h' where hl: "holder evs = (l, h')" by fastforce
  show ?case
  proof (cases "Accepted strict s h \<in> set evs")
    case True
    then obtain l' where "l = Some l'" "s \<le> l'" using snoc hl by auto
    then show ?thesis using hl by (cases e) auto
  next
    case False
    then have e: "e = Accepted strict s h" using snoc.prems by simp
    show ?thesis using hl by (cases l) (simp_all add: e)
  qed
qed simp

text \<open>When another session holds the newest step, an event gave it that step after the acceptance.\<close>

lemma holder_changed:
  assumes "valid_log (xs @ Accepted strict s h # ys)" and "holder (xs @ Accepted strict s h # ys) = (l, Some h')" and "h' \<noteq> h"
  shows "\<exists>e \<in> set ys. (\<exists>b s'. e = Accepted b s' h' \<and> s < s') \<or> (\<exists>s' a. e = Rebound s' a h' \<and> s \<le> s')"
  using assms
proof (induction ys arbitrary: l rule: rev_induct)
  case Nil
  then have "admits (holder xs) (Accepted strict s h)" "give (holder xs) (Accepted strict s h) = (l, Some h')" by simp_all
  then show ?case using Nil.prems(3) by (cases "holder xs"; cases "fst (holder xs)") (auto split: if_splits)
next
  case (snoc e ys)
  let ?evs = "xs @ Accepted strict s h # ys"
  have v: "valid_log (?evs @ [e])" and hd: "give (holder ?evs) e = (l, Some h')"
    using snoc.prems(1,2) holder_snoc [of ?evs e] by (simp_all del: holder_snoc valid_log_snoc)
  from v have val: "valid_log ?evs" by (rule valid_prefix)
  obtain l0 h0 where h0: "holder ?evs = (Some l0, h0)" and le: "s \<le> l0"
    using accepted_le_holder [OF val, of strict s h] by (cases "holder ?evs") auto
  show ?case
  proof (cases "give (holder ?evs) e = holder ?evs")
    case True
    then have "holder ?evs = (l, Some h')" using hd by simp
    from snoc.IH [OF val this snoc.prems(3)] show ?thesis by auto
  next
    case False
    then show ?thesis using hd h0 le by (cases e) (fastforce split: if_splits)+
  qed
qed

lemma later_acceptance:
  assumes "valid_log (xs @ Accepted strict s h # ys @ Accepted strict' s h' # zs)"
  shows "\<not> strict' \<and> (h' \<noteq> h \<longrightarrow> (\<exists>e \<in> set ys. (\<exists>b s'. e = Accepted b s' h' \<and> s < s') \<or> (\<exists>s' a. e = Rebound s' a h' \<and> s \<le> s')))"
proof -
  let ?evs = "xs @ Accepted strict s h # ys"
  have v: "valid_log ?evs" using valid_prefix [of ?evs "Accepted strict' s h' # zs"] assms by simp
  have "admits (holder ?evs) (Accepted strict' s h')" using assms unfolding valid_log_def by (metis append_Cons append_assoc)
  moreover obtain l h0 where "holder ?evs = (Some l, h0)" "s \<le> l" using accepted_le_holder [OF v, of strict s h] by (cases "holder ?evs") auto
  ultimately have "\<not> strict'" "holder ?evs = (Some l, Some h')" by auto
  then show ?thesis using holder_changed [OF v] by blast
qed

lemma strict_is_newest:
  assumes "valid_log (xs @ Accepted True s h # ys)" and "Accepted strict' s' h' \<in> set xs"
  shows "s' < s"
proof -
  have "valid_log xs" using valid_prefix assms(1) by blast
  moreover have "admits (holder xs) (Accepted True s h)" using assms(1) unfolding valid_log_def by blast
  ultimately show ?thesis using accepted_le_holder [OF _ assms(2)] by (cases "holder xs") fastforce
qed

text \<open>The database follows the log.\<close>

lemma view_update:
  assumes "\<And>f. sf_user (g f) = sf_user f"
  shows "map v (filter (\<lambda>f. sf_user f = u) (tbl_update (\<lambda>f. sf_user f = u \<and> Q f) g fs)) = map (\<lambda>f. v (if Q f then g f else f)) (filter (\<lambda>f. sf_user f = u) fs)"
  using assms by (induction fs) (auto simp: tbl_update_def)

lemma ex_user_row: "list_ex (\<lambda>f. sf_user f = u \<and> Q f) fs = list_ex Q (filter (\<lambda>f. sf_user f = u) fs)"
  by (induction fs) auto

lemma accept_view:
  assumes "totp_view u w = [x]" and "acceptTotpStep u s h strict w = (w', ok)"
  shows "totp_view u w' = [if ok then give x (Accepted strict s h) else x] \<and> (ok \<longrightarrow> admits x (Accepted strict s h))"
proof -
  obtain f where f: "filter (\<lambda>f. sf_user f = u) (second_factors w) = [f]" and x: "x = (sf_last_step f, sf_last_session f)"
    using assms(1) unfolding totp_view_def by auto
  then have u: "sf_user f = u" by (metis (mono_tags, lifting) filter_eq_Cons_iff)
  show ?thesis
  proof (cases "\<bar>s\<bar> \<ge> 2 ^ 53 \<or> s \<le> 0")
    case True
    then show ?thesis using assms by (auto simp: acceptTotpStep_def)
  next
    case False
    show ?thesis
    proof (cases strict)
      case True
      let ?Q = "\<lambda>f. sf_user f = u \<and> fresh_step s f"
      have "ok = list_ex ?Q (second_factors w)" "totp_view u w' = map (\<lambda>f. (sf_last_step f, sf_last_session f)) (filter (\<lambda>f. sf_user f = u)
          (tbl_update ?Q (\<lambda>f. f\<lparr>sf_last_step := Some s, sf_last_session := Some h\<rparr>) (second_factors w)))"
        using assms(2) False True by (auto simp: acceptTotpStep_def Let_def totp_view_def)
      then show ?thesis using True u by (cases "sf_last_step f") (simp_all add: view_update ex_user_row f x fresh_step_def)
    next
      case strict: False
      let ?Q = "\<lambda>f. sf_user f = u \<and> (fresh_step s f \<or> reusable_step s h f)"
      have "ok = list_ex ?Q (second_factors w)" "totp_view u w' = map (\<lambda>f. (sf_last_step f, sf_last_session f)) (filter (\<lambda>f. sf_user f = u)
          (tbl_update ?Q (take_step s h) (second_factors w)))"
        using assms(2) False strict by (auto simp: acceptTotpStep_def Let_def totp_view_def)
      moreover have "sf_user (take_step s h f) = sf_user f" for f by (simp add: take_step_def)
      ultimately show ?thesis using strict u
        by (cases "sf_last_step f") (auto simp: view_update ex_user_row f x fresh_step_def reusable_step_def take_step_def)
    qed
  qed
qed

lemma rebind_view:
  assumes "totp_view u w = [x]"
  shows "totp_view u (rebindTotpStepSession u s h h' w) = [give x (Rebound s h h')]"
proof -
  obtain f where f: "filter (\<lambda>f. sf_user f = u) (second_factors w) = [f]" and x: "x = (sf_last_step f, sf_last_session f)"
    using assms(1) unfolding totp_view_def by auto
  then have u: "sf_user f = u" by (metis (mono_tags, lifting) filter_eq_Cons_iff)
  show ?thesis using u by (simp add: totp_view_def rebindTotpStepSession_def view_update f x)
qed

interpretation totp_machine: guarded_machine "\<lambda>s. totp_view u (fst s) = [holder (snd s)] \<and> valid_log (snd s)" "totp_step u" for u
proof unfold_locales
  fix s t :: "'b ap_db_scheme \<times> totp_event list"
  assume inv: "totp_view u (fst s) = [holder (snd s)] \<and> valid_log (snd s)" and "totp_step u s t"
  from this(2) show "totp_view u (fst t) = [holder (snd t)] \<and> valid_log (snd t)"
    using inv by (cases rule: totp_step.cases) (auto dest: accept_view simp: rebind_view)
qed



section \<open>What a granted step-up rests on\<close>

lemma trust_settle [simp]:
  "tfa_trusted_sessions (settleCodeAttempt rq u oc email w) = tfa_trusted_sessions w" "second_factors (settleCodeAttempt rq u oc email w) = second_factors w"
  using rest_settle [of rq u oc email w] by (simp_all add: rest_view_def)

lemma trust_reserve [simp]:
  "tfa_trusted_sessions (fst (reserveCodeAttempt u w)) = tfa_trusted_sessions w" "second_factors (fst (reserveCodeAttempt u w)) = second_factors w"
  by (simp_all add: reserveCodeAttempt_def update_code_row_def split: option.split)

lemma trust_verify [simp]: "tfa_trusted_sessions (fst (verify_code env rq o1 user f code w)) = tfa_trusted_sessions w"
  by (simp add: verify_code_def reportTotpDrift_def audit_def acceptTotpStep_def Let_def split: option.split)

lemma check_code_ok:
  assumes "check_code env rq o1 user f trust code w = (w', Some (StepOk via))"
  shows "via = (if has_local_totp f then ViaTotp else ViaObligate) \<and> snd (reserveCodeAttempt (usr_id user) w) = None \<and>
    snd (verify_code env rq o1 user f code (fst (reserveCodeAttempt (usr_id user) w))) = Some CodeValid \<and>
    (tfa_trusted_sessions w' \<noteq> tfa_trusted_sessions w \<longrightarrow> trust \<and> pf_trust_ip (rq_proof rq))"
proof -
  obtain w1 t where r: "reserveCodeAttempt (usr_id user) w = (w1, t)" by fastforce
  have t: "t = None" using assms r by (cases t) (auto simp: check_code_def Let_def throttledOutcome_def split: if_splits)
  obtain w2 res where v: "verify_code env rq o1 user f code w1 = (w2, res)" by fastforce
  have res: "res = Some CodeValid" using assms by (cases res; cases "the res") (auto simp: check_code_def Let_def r t v)
  have "tfa_trusted_sessions w1 = tfa_trusted_sessions w" "tfa_trusted_sessions w2 = tfa_trusted_sessions w1"
    using trust_reserve(1) [of "usr_id user" w] trust_verify [of env rq o1 user f code w1] r v by simp_all
  then show ?thesis using assms by (auto simp: check_code_def Let_def r t v res split: if_splits)
qed

lemma accept_cong: "second_factors w1 = second_factors w \<Longrightarrow> snd (acceptTotpStep u s h strict w1) = snd (acceptTotpStep u s h strict w)"
  by (simp add: acceptTotpStep_def Let_def)

lemma verify_valid:
  assumes "snd (verify_code env rq o1 user f code w1) = Some CodeValid" and "second_factors w1 = second_factors w" and "now_ms w1 = now_ms w"
  shows "if has_local_totp f
    then \<exists>step. verifyTotpStep env (text_or (sf_totp_secret f) []) code totp_window (now_ms w) = Some step \<and>
           snd (acceptTotpStep (usr_id user) step (hashSessionId env (rq_session rq) (rq_random rq)) (so_new_step o1) w)
    else se_obligate env (the (sf_foreign_id f)) code = Some CodeValid"
proof (cases "verifyTotpStep env (text_or (sf_totp_secret f) []) code totp_window (now_ms w)")
  case (Some step)
  let ?h = "hashSessionId env (rq_session rq) (rq_random rq)"
  have "snd (verify_code env rq o1 user f code w1) =
      Some (if snd (acceptTotpStep (usr_id user) step ?h (so_new_step o1) w1) then CodeValid else CodeUsed)" if "has_local_totp f"
    using that Some by (simp add: verify_code_def assms(3) case_prod_unfold)
  then show ?thesis using assms(1) Some accept_cong [OF assms(2)] by (auto simp: verify_code_def split: if_splits)
qed (use assms(1,3) in \<open>auto simp: verify_code_def split: if_splits\<close>)


text \<open>An example: user 7 sends a code that belongs to the next step.\<close>

definition ex_senv :: su_env where
  "ex_senv = \<lparr>se_sha256 = (\<lambda>s. s), se_validate = (\<lambda>secret token now window. Some (if token = ''123456'' then Some 1 else None)),
     se_obligate = (\<lambda>i code. None), se_compare = (\<lambda>p h. Some (p = h))\<rparr>"

definition ex_rq :: su_request where
  "ex_rq = \<lparr>rq_user = Some 7, rq_session = Some ''s1'', rq_random = ''r'', rq_tenant = Some 2, rq_current_tenant = Some 2, rq_ip = ''10.0.0.1'',
     rq_relay = False, rq_proof = \<lparr>pf_code = Some ''123456'', pf_trust_ip = False, pf_password = None\<rparr>\<rparr>"

definition ex_so :: su_opts where
  "ex_so = \<lparr>so_action = ''command.reboot'', so_trusted_ip = True, so_new_step = False, so_no_factor = None\<rparr>"

lemma ex_su_account: "active_account ex_rq ex_su = Some (\<lparr>usr_id = 7, usr_role = ''user'', usr_active = True, usr_username = ''eve'', usr_foreign = None\<rparr>, ex_factor)"
  by (simp add: active_account_def ex_rq_def ex_su_factors ex_factor_def) (simp add: ex_su_def ap_db.defs sc_db.defs ex_sc_defs)

lemma ex_su_tables: "step_up_throttle ex_su = []" "tfa_trusted_sessions ex_su = []" "now_ms ex_su = now_ms ex_sc" "now_ms ex_su \<ge> 0"
  by (simp_all add: ex_su_def ap_db.defs sc_db.defs ex_sc_defs)

lemma ex_su_verify: "verifyTotpStep ex_senv ''JBSWY3DP'' ''123456'' totp_window (now_ms ex_su) = Some (now_ms ex_su div 30000 + 1)"
proof -
  have "six_digits (trim ''123456'')" "trim ''123456'' = ''123456''" by code_simp+
  then show ?thesis by (simp add: verifyTotpStep_def ex_senv_def totp_period_s_def)
qed


theorem step_up_keeps_to_caps_witness:
  "attempt_path 7 (now_ms ex_su + 1) ex_su (checkSecondFactor ex_senv ex_rq ex_so ex_su) 0 0"
  using step_up_keeps_to_caps [of ex_rq 7 ex_su "now_ms ex_su + 1" ex_senv ex_so 0 0] by (simp add: ex_rq_def)


end
