(* ===== verification/Restriction.thy ===== *)
theory Restriction
  imports Approval_Race Step_Up
begin

text \<open>
  The restriction matrix of a tenant (\<^verbatim>\<open>server/src/services/restriction.service.ts\<close>): which actions need a fresh second
  factor or a second administrator, on which devices. The stored matrix is the JSON object of the column; the
  ids of a scope are the finite numbers in it, taken to be integers where they reach a query. A sensitive action
  calls the step-up check of \<open>Step_Up\<close>. An action key is never the name of a property of every JavaScript object.
\<close>

section \<open>Levels\<close>

datatype restriction_level = NoRestriction | Sensitive | Restricted

fun rank :: "restriction_level \<Rightarrow> nat" where
  "rank NoRestriction = 0"
| "rank Sensitive = 1"
| "rank Restricted = 2"

instantiation restriction_level :: linorder
begin

definition less_eq_restriction_level :: "restriction_level \<Rightarrow> restriction_level \<Rightarrow> bool" where
  "less_eq_restriction_level a b \<longleftrightarrow> rank a \<le> rank b"

definition less_restriction_level :: "restriction_level \<Rightarrow> restriction_level \<Rightarrow> bool" where
  "less_restriction_level a b \<longleftrightarrow> rank a < rank b"

instance
proof
  fix x y z :: restriction_level
  show "x \<le> y \<Longrightarrow> y \<le> x \<Longrightarrow> x = y" by (cases x; cases y; simp add: less_eq_restriction_level_def)
qed (auto simp: less_eq_restriction_level_def less_restriction_level_def)

end

datatype scope_mode = ModeAll | ModeInclude | ModeExclude

record restriction_scope =
  rs_mode :: scope_mode
  rs_devices :: "rat list option"
  rs_groups :: "rat list option"

record restriction_entry =
  re_level :: restriction_level
  re_scope :: restriction_scope

section \<open>The matrix\<close>

text \<open>The actions of the matrix with their category.\<close>

definition restrictable_actions :: "(string \<times> string) list" where
  "restrictable_actions =
    [(''command.reboot'', ''Power''), (''command.shutdown'', ''Power''), (''command.sleep'', ''Power''),
     (''command.restart_agent'', ''Power''), (''command.update_agent'', ''Power''), (''command.uninstall_agent'', ''Power''),
     (''command.enable_airgap'', ''Isolation''), (''command.disable_airgap'', ''Isolation''), (''command.enable_privacy_mode'', ''Isolation''),
     (''command.disable_privacy_mode'', ''Isolation''), (''device.delete'', ''Device''), (''device.bulk_group_change'', ''Device''),
     (''device.transfer_tenant'', ''Device''), (''software.remediate_install'', ''Software''), (''software.remediate_uninstall'', ''Software''),
     (''command.list_directory'', ''File Explorer''), (''command.upload_file'', ''File Explorer''), (''command.download_file'', ''File Explorer''),
     (''command.delete_file'', ''File Explorer''), (''command.rename_file'', ''File Explorer''), (''command.create_directory'', ''File Explorer''),
     (''remote.session_start'', ''Remote''), (''command.start_service'', ''Services''), (''command.stop_service'', ''Services''),
     (''command.restart_service'', ''Services''), (''command.kill_process'', ''Processes''), (''script.execute_manual'', ''Scripts''),
     (''scenario.bypass_privacy_mode'', ''Automations''), (''schedule.bypass_privacy_mode'', ''Automations''), (''hyperv.vm_start'', ''Hyper-V''),
     (''hyperv.vm_stop'', ''Hyper-V''), (''hyperv.vm_shutdown'', ''Hyper-V''), (''hyperv.vm_restart'', ''Hyper-V''),
     (''hyperv.vm_save'', ''Hyper-V''), (''hyperv.vm_checkpoint'', ''Hyper-V''), (''hyperv.vm_checkpoint_apply'', ''Hyper-V''),
     (''hyperv.vm_checkpoint_delete'', ''Hyper-V''), (''hyperv.vm_edit'', ''Hyper-V''), (''hyperv.vm_create'', ''Hyper-V''),
     (''hyperv.vm_delete'', ''Hyper-V''), (''veeam.job_start'', ''Backups''), (''veeam.job_stop'', ''Backups''),
     (''veeam.job_retry'', ''Backups''), (''veeam.job_enable'', ''Backups''), (''veeam.job_disable'', ''Backups''),
     (''tenant.manage_restrictions'', ''Tenant config''), (''tenant.manage_users'', ''Tenant config''), (''tenant.manage_teams'', ''Tenant config''),
     (''tenant.manage_permissions'', ''Tenant config''), (''tenant.manage_settings'', ''Tenant config''), (''tenant.manage_profile'', ''Tenant config''),
     (''audit.clear'', ''Tenant config'')]"

definition default_restrictions :: "(string \<times> restriction_level) list" where
  "default_restrictions =
    [(''command.reboot'', Sensitive), (''command.shutdown'', Sensitive), (''command.uninstall_agent'', Restricted),
     (''command.enable_airgap'', Sensitive), (''command.disable_airgap'', Restricted), (''command.disable_privacy_mode'', Sensitive),
     (''device.delete'', Sensitive), (''device.bulk_group_change'', Sensitive), (''device.transfer_tenant'', Sensitive),
     (''software.remediate_install'', Sensitive), (''software.remediate_uninstall'', Sensitive), (''script.execute_manual'', Sensitive),
     (''command.list_directory'', Sensitive), (''audit.clear'', Restricted), (''scenario.bypass_privacy_mode'', Restricted),
     (''schedule.bypass_privacy_mode'', Restricted), (''veeam.job_stop'', Sensitive), (''veeam.job_disable'', Sensitive),
     (''hyperv.vm_checkpoint_apply'', Sensitive), (''hyperv.vm_checkpoint_delete'', Sensitive), (''hyperv.vm_edit'', Sensitive),
     (''hyperv.vm_create'', Sensitive), (''hyperv.vm_delete'', Restricted)]"

fun read_level :: "string \<Rightarrow> restriction_level option" where
  "read_level s = (if s = ''restricted'' then Some Restricted else if s = ''sensitive'' then Some Sensitive else None)"

definition finite_numbers :: "json option \<Rightarrow> rat list option" where
  "finite_numbers v =
     (case v of
        Some (JArr js) \<Rightarrow> Some (List.map_filter (\<lambda>j. case json_number j of Fin q \<Rightarrow> Some q | NonFin \<Rightarrow> None) js)
      | _ \<Rightarrow> None)"

definition read_scope :: "json_obj \<Rightarrow> restriction_scope" where
  "read_scope sc =
     \<lparr>rs_mode = (if field_text sc ''mode'' = Some ''include'' then ModeInclude
                 else if field_text sc ''mode'' = Some ''exclude'' then ModeExclude else ModeAll),
      rs_devices = finite_numbers (map_of sc ''deviceIds''), rs_groups = finite_numbers (map_of sc ''groupIds'')\<rparr>"

definition normalizeEntry :: "json \<Rightarrow> restriction_entry option" where
  "normalizeEntry raw =
     (case raw of
        JStr s \<Rightarrow> map_option (\<lambda>l. \<lparr>re_level = l, re_scope = \<lparr>rs_mode = ModeAll, rs_devices = None, rs_groups = None\<rparr>\<rparr>) (read_level s)
      | JObj es \<Rightarrow>
          (case field_text es ''level'' of
             None \<Rightarrow> None
           | Some s \<Rightarrow> map_option (\<lambda>l. \<lparr>re_level = l, re_scope = read_scope (field_obj es ''scope'')\<rparr>) (read_level s))
      | _ \<Rightarrow> None)"

definition normalize_map :: "json_obj \<Rightarrow> (string \<times> restriction_entry) list" where
  "normalize_map es =
     List.map_filter (\<lambda>(k, v). case normalizeEntry v of None \<Rightarrow> None | Some e \<Rightarrow> Some (k, e)) (own_copy (\<lambda>_. True) es)"

definition getMap :: "nat \<Rightarrow> 'a ap_db_scheme \<Rightarrow> (string \<times> restriction_entry) list" where
  "getMap t w = (case find (\<lambda>r. tn_id r = t) (tenants w) of None \<Rightarrow> [] | Some r \<Rightarrow> normalize_map (tn_restrictions r))"

text \<open>\<open>JSON.stringify\<close> of an entry leaves out the fields that are undefined.\<close>

definition numbers_json :: "string \<Rightarrow> rat list option \<Rightarrow> json_obj" where
  "numbers_json k v = (case v of None \<Rightarrow> [] | Some qs \<Rightarrow> [(k, JArr (map JNum qs))])"

definition entry_json :: "restriction_entry \<Rightarrow> json" where
  "entry_json e =
     JObj [(''level'', JStr (case re_level e of Restricted \<Rightarrow> ''restricted'' | Sensitive \<Rightarrow> ''sensitive'' | NoRestriction \<Rightarrow> ''none'')),
           (''scope'', JObj ((''mode'', JStr (case rs_mode (re_scope e) of ModeAll \<Rightarrow> ''all'' | ModeInclude \<Rightarrow> ''include'' | ModeExclude \<Rightarrow> ''exclude'')) #
              numbers_json ''deviceIds'' (rs_devices (re_scope e)) @ numbers_json ''groupIds'' (rs_groups (re_scope e))))]"

definition setMap :: "nat \<Rightarrow> json_obj \<Rightarrow> 'a ap_db_scheme \<Rightarrow> 'a ap_db_scheme" where
  "setMap t nxt w =
     w\<lparr>tenants := tbl_update (\<lambda>r. tn_id r = t) (\<lambda>r. r\<lparr>tn_restrictions := map (\<lambda>(k, e). (k, entry_json e)) (normalize_map nxt)\<rparr>) (tenants w)\<rparr>"

section \<open>The level of an action\<close>

definition scopeAppliesToDevice :: "restriction_scope \<Rightarrow> nat \<Rightarrow> nat \<Rightarrow> 'a ap_db_scheme \<Rightarrow> bool" where
  "scopeAppliesToDevice sc d t w =
     (if rs_mode sc = ModeAll then True
      else case find (\<lambda>r. dev_id r = d \<and> dev_tenant r = t) (devices w) of
        None \<Rightarrow> rs_mode sc \<noteq> ModeInclude
      | Some dev \<Rightarrow>
          let deviceMatches = (case rs_devices sc of None \<Rightarrow> False | Some ids \<Rightarrow> of_nat (dev_id dev) \<in> set ids);
              groupMatches = (case (rs_groups sc, dev_group dev) of
                  (Some gs, Some g) \<Rightarrow> gs \<noteq> [] \<and> list_ex (\<lambda>c. of_nat (cl_anc c) \<in> set gs \<and> cl_desc c = g) (group_closure w)
                | _ \<Rightarrow> False);
              inScope = (deviceMatches \<or> groupMatches)
          in if rs_mode sc = ModeInclude then inScope else \<not> inScope)"

definition getLevelFor :: "nat \<Rightarrow> string \<Rightarrow> nat list option \<Rightarrow> 'a ap_db_scheme \<Rightarrow> restriction_level" where
  "getLevelFor t key ids w =
     (case map_of (getMap t w) key of
        None \<Rightarrow> NoRestriction
      | Some e \<Rightarrow>
          if rs_mode (re_scope e) = ModeAll \<or> ids = None \<or> ids = Some [] then re_level e
          else if list_ex (\<lambda>d. scopeAppliesToDevice (re_scope e) d t w) (the ids) then re_level e
          else NoRestriction)"

text \<open>The loop over the tenants; \<open>fst\<close> of the result is the level, \<open>snd\<close> the tenant it comes from.\<close>

definition strictest_step :: "string \<Rightarrow> 'a ap_db_scheme \<Rightarrow> restriction_level \<times> nat option \<Rightarrow> nat \<Rightarrow> restriction_level \<times> nat option" where
  "strictest_step key w best t = (let level = getLevelFor t key None w in if rank level > rank (fst best) then (level, Some t) else best)"

definition getStrictestLevel :: "nat list \<Rightarrow> string \<Rightarrow> 'a ap_db_scheme \<Rightarrow> restriction_level \<times> nat option" where
  "getStrictestLevel ts key w = foldl (strictest_step key w) (NoRestriction, None) (uniq (filter (\<lambda>t. t > 0) ts))"

section \<open>Enforcement\<close>

datatype enforce_result = EnfOk | EnfBlocked nat json_obj "(string \<times> string) list" | EnfApproval approval_row

record enforce_args =
  ef_tenant :: nat
  ef_user :: nat
  ef_action :: string
  ef_devices :: "nat list option"
  ef_type :: "string option"
  ef_description :: "string option"
  ef_payload :: "json_obj option"
  ef_level_tenants :: "nat list option"

definition enforced_level :: "enforce_args \<Rightarrow> 'a ap_db_scheme \<Rightarrow> restriction_level \<times> nat" where
  "enforced_level a w =
     (case ef_level_tenants a of
        Some (t # ts) \<Rightarrow>
          (let (level, from) = getStrictestLevel (ef_tenant a # t # ts) (ef_action a) w
           in (level, if truthy_id from then the from else ef_tenant a))
      | _ \<Rightarrow> (getLevelFor (ef_tenant a) (ef_action a) (ef_devices a) w, ef_tenant a))"

text \<open>\<open>None\<close> is an exception: a request without a tenant, or one of the step-up check.\<close>

definition no_approval_path :: enforce_result where
  "no_approval_path = EnfBlocked 403 [(''error'', JStr ''This action is restricted but no approval path is configured.'')] []"

definition step_up_of :: "su_env \<Rightarrow> su_request \<Rightarrow> enforce_args \<Rightarrow> 'a su_db_scheme \<Rightarrow> 'a su_db_scheme \<times> step_up_outcome option" where
  "step_up_of env rq a w =
     checkSecondFactor env (rq\<lparr>rq_user := Some (ef_user a), rq_tenant := Some (ef_tenant a)\<rparr>)
       \<lparr>so_action = ef_action a, so_trusted_ip = True, so_new_step = False, so_no_factor = None\<rparr> w"

definition enforce :: "su_env \<Rightarrow> su_request \<Rightarrow> enforce_args \<Rightarrow> 'a su_db_scheme \<Rightarrow> 'a su_db_scheme \<times> enforce_result option" where
  "enforce env rq a w =
     (if ef_tenant a = 0 then (w, None)
      else let (level, approvalTenant) = enforced_level a w
           in case level of
                NoRestriction \<Rightarrow> (w, Some EnfOk)
              | Sensitive \<Rightarrow>
                  (case step_up_of env rq a w of
                     (w1, None) \<Rightarrow> (w1, None)
                   | (w1, Some (StepOk via)) \<Rightarrow> (w1, Some EnfOk)
                   | (w1, Some (StepFail status body headers)) \<Rightarrow> (w1, Some (EnfBlocked status body headers)))
              | Restricted \<Rightarrow>
                  (case ef_type a of
                     None \<Rightarrow> (w, Some no_approval_path)
                   | Some ty \<Rightarrow>
                       if ty = [] then (w, Some no_approval_path)
                       else let (w1, row) = approvalCreate approvalTenant (ef_user a) ty
                                   (case ef_description a of None \<Rightarrow> ef_action a | Some d \<Rightarrow> d)
                                   (case ef_payload a of None \<Rightarrow> [] | Some p \<Rightarrow> p) w
                            in (w1, Some (EnfApproval row))))"

text \<open>Whether the handler may go on, and the status, body and headers that were written otherwise.\<close>

fun applyRestriction :: "enforce_result \<Rightarrow> bool \<times> (nat \<times> json_obj \<times> (string \<times> string) list) option" where
  "applyRestriction EnfOk = (True, None)"
| "applyRestriction (EnfApproval row) =
     (False, Some (202, [(''data'', JObj [(''approvalId'', js_nat (Some (ap_id row))), (''status'', JStr ''pending_approval'')])], []))"
| "applyRestriction (EnfBlocked status body headers) = (False, Some (status, body, headers))"

section \<open>Writing and reading the matrix\<close>

lemma finite_numbers_json [simp]: "finite_numbers (Some (JArr (map JNum qs))) = Some qs"
  by (simp add: finite_numbers_def) (induction qs, simp_all add: map_filter_simps)

lemma map_of_numbers: "map_of (numbers_json k v) k' = (if k' = k then map_option (\<lambda>qs. JArr (map JNum qs)) v else None)"
  by (simp add: numbers_json_def split: option.split)

lemma finite_numbers_opt [simp]: "finite_numbers (map_option (\<lambda>qs. JArr (map JNum qs)) v) = v"
proof (cases v)
  case None
  then show ?thesis by (simp add: finite_numbers_def)
next
  case (Some qs)
  then show ?thesis using finite_numbers_json [of qs] by simp
qed

lemma normalize_entry_json:
  assumes "re_level e \<noteq> NoRestriction"
  shows "normalizeEntry (entry_json e) = Some e"
proof -
  obtain l sc where e: "e = \<lparr>re_level = l, re_scope = sc\<rparr>" by (cases e) auto
  obtain m ds gs where sc: "sc = \<lparr>rs_mode = m, rs_devices = ds, rs_groups = gs\<rparr>" by (cases sc) auto
  let ?sc = "(''mode'', JStr (case m of ModeAll \<Rightarrow> ''all'' | ModeInclude \<Rightarrow> ''include'' | ModeExclude \<Rightarrow> ''exclude'')) #
      numbers_json ''deviceIds'' ds @ numbers_json ''groupIds'' gs"
  have "map_of ?sc ''deviceIds'' = map_option (\<lambda>qs. JArr (map JNum qs)) ds" "map_of ?sc ''groupIds'' = map_option (\<lambda>qs. JArr (map JNum qs)) gs"
    by (simp_all add: map_of_numbers map_add_def split: option.split)
  moreover have "field_text ?sc ''mode'' = Some (case m of ModeAll \<Rightarrow> ''all'' | ModeInclude \<Rightarrow> ''include'' | ModeExclude \<Rightarrow> ''exclude'')"
    by (simp add: field_text_def)
  ultimately have "read_scope ?sc = sc" by (cases m) (simp_all add: read_scope_def sc)
  then show ?thesis
    using assms by (cases l) (simp_all add: e normalizeEntry_def entry_json_def field_text_def field_obj_def sc)
qed

lemma normalized_level: "normalizeEntry v = Some e \<Longrightarrow> re_level e \<noteq> NoRestriction"
  by (auto simp: normalizeEntry_def split: json.splits option.splits if_splits)

lemma normalize_map_keys: "(k, e) \<in> set (normalize_map es) \<Longrightarrow> k \<noteq> ''__proto__'' \<and> re_level e \<noteq> NoRestriction"
  by (auto simp: normalize_map_def map_filter_def set_own_copy dest: normalized_level split: option.splits)

lemma normalize_map_json:
  "(\<And>k e. (k, e) \<in> set xs \<Longrightarrow> k \<noteq> ''__proto__'' \<and> re_level e \<noteq> NoRestriction) \<Longrightarrow> normalize_map (map (\<lambda>(k, e). (k, entry_json e)) xs) = xs"
proof (induction xs)
  case Nil
  then show ?case by (simp add: normalize_map_def own_copy_def map_filter_simps)
next
  case (Cons x xs)
  obtain k e where x: "x = (k, e)" by fastforce
  have "k \<noteq> ''__proto__''" "normalizeEntry (entry_json e) = Some e" using Cons.prems [of k e] x normalize_entry_json by auto
  moreover have "normalize_map (map (\<lambda>(k, e). (k, entry_json e)) xs) = xs" using Cons.IH Cons.prems by (meson list.set_intros(2))
  ultimately show ?case by (simp add: x normalize_map_def own_copy_def map_filter_simps)
qed

text \<open>
  The matrix an administrator saves is the matrix that is enforced: reading it back gives the saved entries
  in their normal form, whatever shape they were sent in, saving that form again changes nothing, and no
  other tenant's matrix changes.
\<close>

theorem restriction_map_roundtrip:
  assumes "t \<in> tn_id ` set (tenants w)"
  shows "getMap t (setMap t nxt w) = normalize_map nxt \<and>
    normalize_map (map (\<lambda>(k, e). (k, entry_json e)) (normalize_map nxt)) = normalize_map nxt \<and>
    (\<forall>u. u \<noteq> t \<longrightarrow> getMap u (setMap t nxt w) = getMap u w)"
proof -
  have n: "normalize_map (map (\<lambda>(k, e). (k, entry_json e)) (normalize_map nxt)) = normalize_map nxt"
    by (rule normalize_map_json [OF normalize_map_keys])
  have "find (\<lambda>r. tn_id r = t) (tbl_update (\<lambda>r. tn_id r = t) f rows) = map_option f (find (\<lambda>r. tn_id r = t) rows)"
    if "\<And>r. tn_id (f r) = tn_id r" for f and rows :: "tenant_row list"
    by (induction rows) (simp_all add: tbl_update_def that)
  moreover have "find (\<lambda>r. tn_id r = u) (tbl_update (\<lambda>r. tn_id r = t) f rows) = find (\<lambda>r. tn_id r = u) rows"
    if "\<And>r. tn_id (f r) = tn_id r" "u \<noteq> t" for f u and rows :: "tenant_row list"
    using that(2) by (induction rows) (auto simp: tbl_update_def that(1))
  moreover have "find (\<lambda>r. tn_id r = t) (tenants w) \<noteq> None" using assms by (auto simp: find_None_iff)
  ultimately show ?thesis using n by (auto simp: getMap_def setMap_def)
qed

section \<open>Scopes and levels\<close>

text \<open>A device is covered by a scope when it is listed, or its group or an ancestor of it is.\<close>

definition covered :: "restriction_scope \<Rightarrow> device_row \<Rightarrow> 'a ap_db_scheme \<Rightarrow> bool" where
  "covered sc dev w \<longleftrightarrow> (\<exists>ids. rs_devices sc = Some ids \<and> of_nat (dev_id dev) \<in> set ids) \<or>
     (\<exists>gs g a n. rs_groups sc = Some gs \<and> dev_group dev = Some g \<and> nth_anc (par_of w) n g = Some a \<and> of_nat a \<in> set gs)"

lemma scope_covers:
  assumes "closure_ok w" and "find (\<lambda>r. dev_id r = d \<and> dev_tenant r = t) (devices w) = Some dev" and "\<forall>g. dev_group dev = Some g \<longrightarrow> g \<in> group_ids w"
  shows "scopeAppliesToDevice sc d t w \<longleftrightarrow>
    (case rs_mode sc of ModeAll \<Rightarrow> True | ModeInclude \<Rightarrow> covered sc dev w | ModeExclude \<Rightarrow> \<not> covered sc dev w)"
proof -
  have "list_ex (\<lambda>c. of_nat (cl_anc c) \<in> set gs \<and> cl_desc c = g) (group_closure w) \<longleftrightarrow> (\<exists>a n. nth_anc (par_of w) n g = Some a \<and> of_nat a \<in> set gs)"
    if "dev_group dev = Some g" for g gs
  proof -
    have g: "g \<in> group_ids w" using assms(3) that by blast
    show ?thesis
    proof
      assume "list_ex (\<lambda>c. of_nat (cl_anc c) \<in> set gs \<and> cl_desc c = g) (group_closure w)"
      then obtain c where "c \<in> set (group_closure w)" "of_nat (cl_anc c) \<in> set gs" "cl_desc c = g" by (auto simp: list_ex_iff)
      then show "\<exists>a n. nth_anc (par_of w) n g = Some a \<and> of_nat a \<in> set gs" using closure_ok_mem [OF assms(1)] by blast
    next
      assume "\<exists>a n. nth_anc (par_of w) n g = Some a \<and> of_nat a \<in> set gs"
      then obtain a n where a: "nth_anc (par_of w) n g = Some a" "of_nat a \<in> set gs" by blast
      then have "\<lparr>cl_anc = a, cl_desc = g, cl_depth = n\<rparr> \<in> set (group_closure w)" using closure_ok_mem [OF assms(1)] g by simp
      with a(2) show "list_ex (\<lambda>c. of_nat (cl_anc c) \<in> set gs \<and> cl_desc c = g) (group_closure w)" by (force simp: list_ex_iff)
    qed
  qed
  then show ?thesis
    using assms(2) by (cases "rs_mode sc") (auto simp: scopeAppliesToDevice_def covered_def Let_def split: option.split)
qed

text \<open>
  A batch is gated by an entry of the matrix exactly when one of its devices is in the scope of the entry: an
  including scope covers the listed devices and those below the listed groups by the parent pointers, an
  excluding scope every other device, and a device the tenant does not have only falls under an excluding
  scope.
\<close>

theorem batch_gated_by_scope:
  assumes "closure_ok w" and "\<forall>d \<in> set (devices w). \<forall>g. dev_group d = Some g \<longrightarrow> g \<in> group_ids w"
    and "map_of (getMap t w) key = Some e" and "ids \<noteq> []"
  shows "getLevelFor t key (Some ids) w =
    (if \<exists>d \<in> set ids. case find (\<lambda>r. dev_id r = d \<and> dev_tenant r = t) (devices w) of
          None \<Rightarrow> rs_mode (re_scope e) \<noteq> ModeInclude
        | Some dev \<Rightarrow> (case rs_mode (re_scope e) of ModeAll \<Rightarrow> True | ModeInclude \<Rightarrow> covered (re_scope e) dev w
                       | ModeExclude \<Rightarrow> \<not> covered (re_scope e) dev w)
     then re_level e else NoRestriction)"
proof -
  have "scopeAppliesToDevice (re_scope e) d t w \<longleftrightarrow> (case find (\<lambda>r. dev_id r = d \<and> dev_tenant r = t) (devices w) of
          None \<Rightarrow> rs_mode (re_scope e) \<noteq> ModeInclude
        | Some dev \<Rightarrow> (case rs_mode (re_scope e) of ModeAll \<Rightarrow> True | ModeInclude \<Rightarrow> covered (re_scope e) dev w
                       | ModeExclude \<Rightarrow> \<not> covered (re_scope e) dev w))" for d
  proof (cases "find (\<lambda>r. dev_id r = d \<and> dev_tenant r = t) (devices w)")
    case None
    then show ?thesis by (simp add: scopeAppliesToDevice_def)
  next
    case (Some dev)
    then have "\<forall>g. dev_group dev = Some g \<longrightarrow> g \<in> group_ids w" using assms(2) find_SomeD [OF Some] by blast
    then show ?thesis using scope_covers [OF assms(1) Some] Some by simp
  qed
  note sc = this
  show ?thesis
  proof (cases "rs_mode (re_scope e) = ModeAll")
    case True
    obtain d where "d \<in> set ids" using assms(4) by (cases ids) auto
    with True assms(3) show ?thesis by (auto simp: getLevelFor_def split: option.split)
  next
    case False
    with assms(3,4) show ?thesis by (simp add: getLevelFor_def list_ex_iff sc)
  qed
qed

section \<open>Enforcement\<close>

lemma strictest_fold:
  "fst best \<le> fst (foldl (strictest_step key w) best ts) \<and>
   (\<forall>t \<in> set ts. getLevelFor t key None w \<le> fst (foldl (strictest_step key w) best ts)) \<and>
   (foldl (strictest_step key w) best ts = best \<or>
    (\<exists>t \<in> set ts. foldl (strictest_step key w) best ts = (getLevelFor t key None w, Some t)))"
proof (induction ts arbitrary: best)
  case (Cons t ts)
  have "fst best \<le> fst (strictest_step key w best t)" "getLevelFor t key None w \<le> fst (strictest_step key w best t)"
    "strictest_step key w best t = best \<or> strictest_step key w best t = (getLevelFor t key None w, Some t)"
    by (auto simp: strictest_step_def Let_def less_eq_restriction_level_def)
  with Cons.IH [of "strictest_step key w best t"] show ?case by (auto intro: order_trans)
qed simp

text \<open>The strictest level is the maximum over the tenants, and comes from one of them.\<close>

lemma strictest_level:
  assumes "getStrictestLevel ts key w = (level, from)"
  shows "t \<in> set ts \<Longrightarrow> t > 0 \<Longrightarrow> getLevelFor t key None w \<le> level"
    and "level = NoRestriction \<and> from = None \<or> (\<exists>t \<in> set ts. t > 0 \<and> from = Some t \<and> level = getLevelFor t key None w)"
proof -
  have f: "foldl (strictest_step key w) (NoRestriction, None) (uniq (filter (\<lambda>t. t > 0) ts)) = (level, from)"
    using assms by (simp add: getStrictestLevel_def)
  note sf = strictest_fold [of "(NoRestriction, None)" key w "uniq (filter (\<lambda>t. t > 0) ts)", unfolded f]
  from sf show "t \<in> set ts \<Longrightarrow> t > 0 \<Longrightarrow> getLevelFor t key None w \<le> level" by simp
  from sf show "level = NoRestriction \<and> from = None \<or> (\<exists>t \<in> set ts. t > 0 \<and> from = Some t \<and> level = getLevelFor t key None w)" by auto
qed

lemma level_tenants:
  assumes "enforced_level a w = (level, t)" and "ef_level_tenants a = Some ts" and "ts \<noteq> []" and "u \<in> set (ef_tenant a # ts)" and "u > 0"
  shows "getLevelFor u (ef_action a) None w \<le> level"
proof -
  obtain x xs where ts: "ts = x # xs" using assms(3) by (cases ts) auto
  obtain l src where g: "getStrictestLevel (ef_tenant a # ts) (ef_action a) w = (l, src)" by fastforce
  then have "l = level" using assms(1,2) by (simp add: enforced_level_def ts)
  with strictest_level(1) [OF g assms(4,5)] show ?thesis by simp
qed

lemma created_row:
  assumes "approvalCreate te u ty descr payload w = (w', row)"
  shows "pending_approvals w' = pending_approvals w @ [row] \<and> ap_status row = ''pending'' \<and> ap_tenant row = te \<and> ap_requested_by row = u \<and>
    ap_type row = ty \<and> ap_payload row = payload \<and> command_queue w' = command_queue w"
  using assms by (auto simp: approvalCreate_def Let_def audit_def emit_def)


text \<open>An example: tenant 1 restricts the reboot of everything below group 2, and device 10 is in group 3 below it.\<close>

definition ex_matrix :: json_obj where
  "ex_matrix = [(''command.reboot'', JObj [(''level'', JStr ''restricted''),
     (''scope'', JObj [(''mode'', JStr ''include''), (''groupIds'', JArr [JNum 2])])]), (''audit.clear'', JStr ''restricted'')]"

definition ex_res :: ap_db where
  "ex_res = ex_ap\<lparr>devices := devices ex_org, device_groups := device_groups ex_org, group_closure := group_closure ex_org, group_seq := group_seq ex_org,
     tenants := [\<lparr>tn_id = 1, tn_name = ''Default'', tn_two_step = True, tn_restrictions = ex_matrix\<rparr>]\<rparr>"

definition ex_entry :: restriction_entry where
  "ex_entry = \<lparr>re_level = Restricted, re_scope = \<lparr>rs_mode = ModeInclude, rs_devices = None, rs_groups = Some [2]\<rparr>\<rparr>"

lemma ex_res_entry: "map_of (getMap 1 ex_res) ''command.reboot'' = Some ex_entry"
  by (simp add: getMap_def ex_res_def ex_matrix_def normalize_map_def own_copy_def map_filter_simps normalizeEntry_def field_text_def field_obj_def
      read_scope_def finite_numbers_def ex_entry_def)

lemma ex_res_ok: "closure_ok ex_res"
  using closure_ok_cong [of ex_res ex_org] ex_org_ok by (simp add: ex_res_def)

lemma ex_res_groups: "\<forall>d \<in> set (devices ex_res). \<forall>g. dev_group d = Some g \<longrightarrow> g \<in> group_ids ex_res"
proof -
  have "group_ids ex_res = group_ids ex_org" "devices ex_res = devices ex_org" by (simp_all add: ex_res_def group_ids_def)
  moreover have "3 \<in> group_ids ex_org" by code_simp
  ultimately show ?thesis by (auto simp: ex_org_def ex_device_def)
qed

theorem restriction_map_roundtrip_witness: "map_of (getMap 1 (setMap 1 ex_matrix ex_res)) ''command.reboot'' = Some ex_entry"
proof -
  have "1 \<in> tn_id ` set (tenants ex_res)" by (simp add: ex_res_def)
  from restriction_map_roundtrip [OF this, of ex_matrix] ex_res_entry show ?thesis by (simp add: getMap_def ex_res_def)
qed

theorem batch_gated_by_scope_witness: "getLevelFor 1 ''command.reboot'' (Some [12, 10]) ex_res = Restricted"
proof -
  have "par_of ex_res = par_of ex_org" by (simp add: ex_res_def par_of_def fun_eq_iff)
  moreover have "nth_anc (par_of ex_org) 1 3 = Some 2" by code_simp
  moreover have "find (\<lambda>r. dev_id r = 10 \<and> dev_tenant r = 1) (devices ex_res) = Some (ex_device 10 (Some 3) None)"
    by (simp add: ex_res_def ex_org_def ex_device_def)
  ultimately have "covered (re_scope ex_entry) (ex_device 10 (Some 3) None) ex_res"
    by (auto simp: covered_def ex_entry_def ex_device_def intro!: exI [of _ 2] exI [of _ 1])
  with \<open>find _ _ = _\<close> batch_gated_by_scope [OF ex_res_ok ex_res_groups ex_res_entry, of "[12, 10]"] show ?thesis
    by (simp add: ex_entry_def)
qed

definition ex_enforce :: enforce_args where
  "ex_enforce = \<lparr>ef_tenant = 1, ef_user = 7, ef_action = ''audit.clear'', ef_devices = None, ef_type = None, ef_description = None, ef_payload = None,
     ef_level_tenants = None\<rparr>"

definition ex_sensitive :: su_db where
  "ex_sensitive = ex_su\<lparr>tenants := [\<lparr>tn_id = 1, tn_name = ''Default'', tn_two_step = True, tn_restrictions = ex_matrix\<rparr>]\<rparr>"


end
