(* ===== verification/Live_Alert.thy ===== *)
theory Live_Alert
  imports Approval
begin

text \<open>
  Live alerts and their incidents (\<^verbatim>\<open>server/src/services/liveAlert.service.ts\<close>). The advisory lock of an incident makes a
  raise one step, and the chunks of a resolution touch only rows of their own incidents. A device id in a
  stable key is below the 53 bits a JavaScript number holds exactly.
\<close>

section \<open>State\<close>

record alert_row =
  la_id :: nat
  la_tenant :: nat
  la_severity :: string
  la_title :: string
  la_message :: string
  la_navigate :: "string option"
  la_key :: "string option"
  la_read :: "int option"
  la_created :: int
  la_resolved :: "int option"

record la_db = ap_db +
  live_alerts :: "alert_row list"
  alert_seq :: nat

record add_opts =
  ao_severity :: string
  ao_title :: string
  ao_message :: string
  ao_navigate :: "string option"
  ao_key :: "string option"

section \<open>Incident keys\<close>

datatype incident_kind = KMetric | KOffline | KDiskhealth | KDuplicateAgentId

definition incident_kinds :: "incident_kind list" where
  "incident_kinds = [KMetric, KOffline, KDiskhealth, KDuplicateAgentId]"

fun incident_key_suffixes :: "incident_kind \<Rightarrow> string list" where
  "incident_key_suffixes KMetric = [''metric:warning'', ''metric:critical'']"
| "incident_key_suffixes KOffline = [''offline'']"
| "incident_key_suffixes KDiskhealth = [''diskhealth:caution'', ''diskhealth:bad'']"
| "incident_key_suffixes KDuplicateAgentId = [''duplicate_agent_id'']"

definition incidentStableKeys :: "incident_kind \<Rightarrow> nat \<Rightarrow> string list" where
  "incidentStableKeys kind d = map (\<lambda>sfx. ''device:'' @ show_nat d @ '':'' @ sfx) (incident_key_suffixes kind)"

text \<open>The groups of the pattern \<^verbatim>\<open>^device:(\d+):(.+)$\<close>.\<close>

definition match_device_key :: "string \<Rightarrow> (string \<times> string) option" where
  "match_device_key s =
     (if \<not> starts_with ''device:'' s then None
      else let rest = drop (length ''device:'') s;
               ds = takeWhile is_digit rest;
               tail = dropWhile is_digit rest
           in if ds = [] \<or> tail = [] \<or> hd tail \<noteq> CHR '':'' \<or> tl tail = [] \<or> CHR 0x0A \<in> set (tl tail) \<or> CHR 0x0D \<in> set (tl tail) then None else Some (ds, tl tail))"

definition parseIncidentStableKey :: "string option \<Rightarrow> (incident_kind \<times> nat) option" where
  "parseIncidentStableKey key =
     (case key of
        None \<Rightarrow> None
      | Some s \<Rightarrow>
          if s = [] then None
          else case match_device_key s of
            None \<Rightarrow> None
          | Some (ds, sfx) \<Rightarrow>
              map_option (\<lambda>k. (k, read_nat ds)) (find (\<lambda>k. sfx \<in> set (incident_key_suffixes k)) incident_kinds))"

section \<open>Events\<close>

definition add_to_group :: "(nat \<times> nat list) list \<Rightarrow> nat \<times> nat \<Rightarrow> (nat \<times> nat list) list" where
  "add_to_group m r = map_set (snd r) ((case map_of m (snd r) of None \<Rightarrow> [] | Some ids \<Rightarrow> ids) @ [fst r]) m"

text \<open>Rows as pairs of id and tenant.\<close>

definition groupByTenant :: "(nat \<times> nat) list \<Rightarrow> (nat \<times> nat list) list" where
  "groupByTenant rows = foldl add_to_group [] rows"

definition emit_all :: "(nat \<times> string \<times> json_obj) list \<Rightarrow> 'a la_db_scheme \<Rightarrow> 'a la_db_scheme" where
  "emit_all evs w = foldl (\<lambda>w (t, ev, payload). emit (RTenantNotifications t) ev payload w) w evs"

definition ids_json :: "nat list \<Rightarrow> json" where
  "ids_json ids = JArr (map (\<lambda>i. js_nat (Some i)) ids)"

definition emitResolved :: "(nat \<times> nat) list \<Rightarrow> 'a la_db_scheme \<Rightarrow> 'a la_db_scheme" where
  "emitResolved rows w = emit_all (map (\<lambda>(t, ids). (t, ''NOTIFICATION_RESOLVED'', [(''ids'', ids_json ids)])) (groupByTenant rows)) w"

definition id_tenant :: "alert_row \<Rightarrow> nat \<times> nat" where
  "id_tenant r = (la_id r, la_tenant r)"

definition active :: "alert_row \<Rightarrow> bool" where
  "active r \<longleftrightarrow> la_resolved r = None"

definition of_keys :: "string list \<Rightarrow> alert_row \<Rightarrow> bool" where
  "of_keys ks r \<longleftrightarrow> (case la_key r of None \<Rightarrow> False | Some k \<Rightarrow> k \<in> set ks)"

section \<open>Resolving\<close>

definition resolve_chunk_size :: nat where "resolve_chunk_size = 200"

definition resolve_rows :: "(alert_row \<Rightarrow> bool) \<Rightarrow> 'a la_db_scheme \<Rightarrow> 'a la_db_scheme \<times> (nat \<times> nat) list" where
  "resolve_rows hit w =
     (w\<lparr>live_alerts := tbl_update (\<lambda>r. hit r \<and> active r) (\<lambda>r. r\<lparr>la_resolved := Some (now_ms w)\<rparr>) (live_alerts w)\<rparr>,
      map id_tenant (filter (\<lambda>r. hit r \<and> active r) (live_alerts w)))"

definition resolve_chunk :: "'a la_db_scheme \<times> nat list \<Rightarrow> (incident_kind \<times> nat) list \<Rightarrow> 'a la_db_scheme \<times> nat list" where
  "resolve_chunk acc chunk =
     (let (w, ids) = acc;
          (w1, rows) = resolve_rows (of_keys (concat (map (\<lambda>(k, d). incidentStableKeys k d) chunk))) w
      in (emitResolved rows w1, ids @ map fst rows))"

definition resolveIncidentRefs :: "(incident_kind \<times> nat) list \<Rightarrow> 'a la_db_scheme \<Rightarrow> 'a la_db_scheme \<times> nat list" where
  "resolveIncidentRefs refs w = foldl resolve_chunk (w, []) (chunks resolve_chunk_size refs)"

definition resolveIncidents :: "incident_kind \<Rightarrow> nat list \<Rightarrow> 'a la_db_scheme \<Rightarrow> 'a la_db_scheme \<times> nat list" where
  "resolveIncidents kind ds w = resolveIncidentRefs (map (\<lambda>d. (kind, d)) (uniq ds)) w"

definition resolveDeviceIncidents :: "nat list \<Rightarrow> 'a la_db_scheme \<Rightarrow> 'a la_db_scheme \<times> nat list" where
  "resolveDeviceIncidents ds w = resolveIncidentRefs (concat (map (\<lambda>d. map (\<lambda>k. (k, d)) incident_kinds) (uniq ds))) w"

text \<open>The device of an incident key, for the SQL pattern with at most nine digits.\<close>

definition orphan_device :: "'a la_db_scheme \<Rightarrow> alert_row \<Rightarrow> nat option" where
  "orphan_device w r =
     (if \<not> active r then None
      else case la_key r of
        None \<Rightarrow> None
      | Some s \<Rightarrow>
          (case match_device_key s of
             None \<Rightarrow> None
           | Some (ds, sfx) \<Rightarrow>
               if length ds \<le> 9 \<and> list_ex (\<lambda>k. sfx \<in> set (incident_key_suffixes k)) incident_kinds \<and> device_by_id w (read_nat ds) = None
               then Some (read_nat ds) else None))"

definition resolveOrphanIncidents :: "'a la_db_scheme \<Rightarrow> 'a la_db_scheme \<times> nat list" where
  "resolveOrphanIncidents w =
     (let ds = uniq (List.map_filter (orphan_device w) (live_alerts w)) in if ds = [] then (w, []) else resolveDeviceIncidents ds w)"

section \<open>Raising\<close>

definition insertValues :: "nat \<Rightarrow> add_opts \<Rightarrow> 'a la_db_scheme \<Rightarrow> alert_row" where
  "insertValues t opts w =
     \<lparr>la_id = alert_seq w, la_tenant = t, la_severity = ao_severity opts, la_title = ao_title opts, la_message = ao_message opts,
      la_navigate = ao_navigate opts, la_key = ao_key opts, la_read = None, la_created = now_ms w, la_resolved = None\<rparr>"

definition insert_alert :: "nat \<Rightarrow> add_opts \<Rightarrow> 'a la_db_scheme \<Rightarrow> 'a la_db_scheme \<times> alert_row" where
  "insert_alert t opts w =
     (let row = insertValues t opts w in (w\<lparr>alert_seq := alert_seq w + 1, live_alerts := live_alerts w @ [row]\<rparr>, row))"

definition newest_first :: "alert_row list \<Rightarrow> alert_row list" where
  "newest_first rs = sort_key (\<lambda>r. - int (la_id r)) rs"

definition kept_ids :: "nat \<Rightarrow> alert_row list \<Rightarrow> nat list" where
  "kept_ids t rows =
     (let mine = filter (\<lambda>r. la_tenant r = t) rows
      in map la_id (take 200 (newest_first (filter active mine) @ newest_first (filter (\<lambda>r. \<not> active r) mine))))"

definition trimTenant :: "nat \<Rightarrow> 'a la_db_scheme \<Rightarrow> 'a la_db_scheme" where
  "trimTenant t w =
     (let gone = (\<lambda>r. la_tenant r = t \<and> la_id r \<notin> set (kept_ids t (live_alerts w)))
      in emitResolved (map id_tenant (filter (\<lambda>r. gone r \<and> active r) (live_alerts w)))
           (w\<lparr>live_alerts := tbl_delete gone (live_alerts w)\<rparr>))"

definition alert_json :: "alert_row \<Rightarrow> string \<Rightarrow> json_obj" where
  "alert_json r name =
     [(''id'', js_nat (Some (la_id r))), (''tenantId'', js_nat (Some (la_tenant r))), (''tenantName'', JStr name), (''severity'', JStr (la_severity r)),
      (''title'', JStr (la_title r)), (''message'', JStr (la_message r)), (''navigateTo'', js_str (la_navigate r)), (''stableKey'', js_str (la_key r)),
      (''readAt'', js_date (la_read r)), (''createdAt'', js_date (Some (la_created r)))]"

definition announce :: "alert_row \<Rightarrow> nat \<Rightarrow> 'a la_db_scheme \<Rightarrow> 'a la_db_scheme" where
  "announce r t w =
     emit (RTenantNotifications t) ''NOTIFICATION_NEW''
       (alert_json r (case find (\<lambda>x. tn_id x = t) (tenants w) of None \<Rightarrow> [] | Some x \<Rightarrow> tn_name x)) w"

definition raise_tx ::
  "nat \<Rightarrow> add_opts \<Rightarrow> incident_kind \<Rightarrow> nat \<Rightarrow> 'a la_db_scheme \<Rightarrow> 'a la_db_scheme \<times> alert_row option \<times> (nat \<times> nat) list" where
  "raise_tx t opts kind d w =
     (let ks = incidentStableKeys kind d;
          opened = (case device_by_id w d of None \<Rightarrow> False | Some dev \<Rightarrow> kind \<noteq> KOffline \<or> dev_status dev = ''offline'');
          act = newest_first (filter (\<lambda>r. of_keys ks r \<and> active r) (live_alerts w));
          keep = (if opened then find (\<lambda>r. la_tenant r = t \<and> la_key r = ao_key opts \<and> la_severity r = ao_severity opts) act else None);
          stale = map la_id (filter (\<lambda>r. Some r \<noteq> keep) act);
          (w1, resolved) = resolve_rows (\<lambda>r. la_id r \<in> set stale) w
      in if keep \<noteq> None \<or> \<not> opened then (w1, None, resolved)
         else let (w2, row) = insert_alert t opts w1 in (w2, Some row, resolved))"

definition raiseIncident :: "nat \<Rightarrow> add_opts \<Rightarrow> incident_kind \<Rightarrow> nat \<Rightarrow> 'a la_db_scheme \<Rightarrow> 'a la_db_scheme \<times> alert_row option" where
  "raiseIncident t opts kind d w =
     (let (w1, row, resolved) = raise_tx t opts kind d w;
          w2 = emitResolved resolved w1
      in case row of
           None \<Rightarrow> (w2, None)
         | Some r \<Rightarrow> (announce r t (trimTenant t w2), Some r))"

definition addAlert :: "nat \<Rightarrow> add_opts \<Rightarrow> 'a la_db_scheme \<Rightarrow> 'a la_db_scheme \<times> alert_row option" where
  "addAlert t opts w =
     (case parseIncidentStableKey (ao_key opts) of
        Some (kind, d) \<Rightarrow> raiseIncident t opts kind d w
      | None \<Rightarrow>
          if text_or (ao_key opts) [] \<noteq> [] \<and>
             list_ex (\<lambda>r. la_tenant r = t \<and> la_key r = ao_key opts \<and> la_read r = None \<and> active r) (live_alerts w)
          then (w, None)
          else let (w1, row) = insert_alert t opts w in (announce row t (trimTenant t w1), Some row))"

section \<open>Lists and marks\<close>

definition getForTenant :: "nat \<Rightarrow> nat \<Rightarrow> 'a la_db_scheme \<Rightarrow> alert_row list" where
  "getForTenant t limit w = take limit (newest_first (filter (\<lambda>r. la_tenant r = t \<and> active r) (live_alerts w)))"

definition getForTenants :: "nat list \<Rightarrow> nat \<Rightarrow> 'a la_db_scheme \<Rightarrow> alert_row list" where
  "getForTenants ts limit w =
     (if ts = [] then []
      else take limit (newest_first (filter (\<lambda>r. la_tenant r \<in> set ts \<and> active r \<and> find (\<lambda>x. tn_id x = la_tenant r) (tenants w) \<noteq> None) (live_alerts w))))"

definition getActiveIds :: "nat list \<Rightarrow> 'a la_db_scheme \<Rightarrow> nat list" where
  "getActiveIds ts w = (if ts = [] then [] else map la_id (filter (\<lambda>r. la_tenant r \<in> set ts \<and> active r) (live_alerts w)))"

definition update_alerts :: "(alert_row \<Rightarrow> bool) \<Rightarrow> (alert_row \<Rightarrow> alert_row) \<Rightarrow> 'a la_db_scheme \<Rightarrow> 'a la_db_scheme" where
  "update_alerts P f w = w\<lparr>live_alerts := tbl_update P f (live_alerts w)\<rparr>"

definition markRead :: "nat \<Rightarrow> nat \<Rightarrow> 'a la_db_scheme \<Rightarrow> 'a la_db_scheme" where
  "markRead i t w = update_alerts (\<lambda>r. la_id r = i \<and> la_tenant r = t) (\<lambda>r. r\<lparr>la_read := Some (now_ms w)\<rparr>) w"

definition markAllRead :: "nat \<Rightarrow> 'a la_db_scheme \<Rightarrow> 'a la_db_scheme" where
  "markAllRead t w = update_alerts (\<lambda>r. la_tenant r = t \<and> la_read r = None \<and> active r) (\<lambda>r. r\<lparr>la_read := Some (now_ms w)\<rparr>) w"

definition unread_chunk :: "'a la_db_scheme \<times> (nat \<times> nat) list \<Rightarrow> nat list \<Rightarrow> 'a la_db_scheme \<times> (nat \<times> nat) list" where
  "unread_chunk acc ids =
     (let (w, rd) = acc;
          hit = (\<lambda>r. of_keys (concat (map (incidentStableKeys KMetric) ids)) r \<and> active r \<and> la_read r = None)
      in (update_alerts hit (\<lambda>r. r\<lparr>la_read := Some (now_ms w)\<rparr>) w, rd @ map id_tenant (filter hit (live_alerts w))))"

definition resolveMutedMetricAlerts :: "nat list \<Rightarrow> 'a la_db_scheme \<Rightarrow> 'a la_db_scheme \<times> nat list" where
  "resolveMutedMetricAlerts ds w =
     (let ids = uniq ds
      in if ids = [] then (w, [])
         else let (w1, rd) = foldl unread_chunk (w, []) (chunks resolve_chunk_size ids);
                  w2 = emit_all (map (\<lambda>(t, rows). (t, ''NOTIFICATION_READ'', [(''tenantId'', js_nat (Some t)), (''ids'', ids_json rows),
                         (''readAt'', js_date (Some (now_ms w)))])) (groupByTenant rd)) w1
              in resolveIncidents KMetric ids w2)"

definition deleteAlert :: "nat \<Rightarrow> 'a la_db_scheme \<Rightarrow> 'a la_db_scheme" where
  "deleteAlert i w = w\<lparr>live_alerts := tbl_delete (\<lambda>r. la_id r = i) (live_alerts w)\<rparr>"

definition clearAll :: "nat \<Rightarrow> 'a la_db_scheme \<Rightarrow> 'a la_db_scheme" where
  "clearAll t w = w\<lparr>live_alerts := tbl_delete (\<lambda>r. la_tenant r = t) (live_alerts w)\<rparr>"

definition cleanupAlerts :: "int \<Rightarrow> 'a la_db_scheme \<Rightarrow> 'a la_db_scheme" where
  "cleanupAlerts days w = w\<lparr>live_alerts := tbl_delete (\<lambda>r. la_created r < now_ms w - days * 86400000) (live_alerts w)\<rparr>"

section \<open>Keys\<close>

lemma match_device_key_incident:
  assumes "sfx \<noteq> []" and "CHR 0x0A \<notin> set sfx" and "CHR 0x0D \<notin> set sfx"
  shows "match_device_key (''device:'' @ show_nat d @ '':'' @ sfx) = Some (show_nat d, sfx)"
proof -
  have "takeWhile is_digit (show_nat d @ '':'' @ sfx) = show_nat d" "dropWhile is_digit (show_nat d @ '':'' @ sfx) = '':'' @ sfx"
    using show_nat_digits [of d] by (simp_all add: takeWhile_append dropWhile_append)
  moreover have "starts_with ''device:'' (''device:'' @ show_nat d @ '':'' @ sfx)" by (rule starts_with_append)
  moreover have "drop (length ''device:'') (''device:'' @ show_nat d @ '':'' @ sfx) = show_nat d @ '':'' @ sfx" by simp
  ultimately show ?thesis using assms unfolding match_device_key_def Let_def by simp
qed

lemma suffix_kind:
  "sfx \<in> set (incident_key_suffixes k) \<Longrightarrow>
     sfx \<noteq> [] \<and> CHR 0x0A \<notin> set sfx \<and> CHR 0x0D \<notin> set sfx \<and> find (\<lambda>k. sfx \<in> set (incident_key_suffixes k)) incident_kinds = Some k"
proof -
  have "list_all (\<lambda>k. list_all (\<lambda>s. s \<noteq> [] \<and> CHR 0x0A \<notin> set s \<and> CHR 0x0D \<notin> set s \<and> find (\<lambda>k. s \<in> set (incident_key_suffixes k)) incident_kinds = Some k)
      (incident_key_suffixes k)) incident_kinds"
    by code_simp
  moreover have "k \<in> set incident_kinds" by (cases k) (simp_all add: incident_kinds_def)
  ultimately show "sfx \<in> set (incident_key_suffixes k) \<Longrightarrow>
     sfx \<noteq> [] \<and> CHR 0x0A \<notin> set sfx \<and> CHR 0x0D \<notin> set sfx \<and> find (\<lambda>k. sfx \<in> set (incident_key_suffixes k)) incident_kinds = Some k"
    unfolding list_all_iff by blast
qed

lemma parse_incident_key:
  assumes "key \<in> set (incidentStableKeys k d)"
  shows "parseIncidentStableKey (Some key) = Some (k, d)"
proof -
  obtain sfx where s: "sfx \<in> set (incident_key_suffixes k)" "key = ''device:'' @ show_nat d @ '':'' @ sfx"
    using assms by (auto simp: incidentStableKeys_def)
  have "match_device_key key = Some (show_nat d, sfx)" using match_device_key_incident suffix_kind [OF s(1)] s(2) by blast
  moreover have "key \<noteq> []" by (simp add: s(2))
  ultimately show ?thesis using suffix_kind [OF s(1)] by (simp add: parseIncidentStableKey_def)
qed

text \<open>
  C40. Every stable key of an incident is read back as that incident, so no two incidents - two kinds or two
  devices - share a key, and each incident has all its severities.
\<close>

theorem incident_key_roundtrip:
  "(key \<in> set (incidentStableKeys k d) \<longrightarrow> parseIncidentStableKey (Some key) = Some (k, d)) \<and>
   (set (incidentStableKeys k d) \<inter> set (incidentStableKeys k' d') \<noteq> {} \<longrightarrow> k = k' \<and> d = d') \<and>
   length (incidentStableKeys k d) = length (incident_key_suffixes k)"
proof (intro conjI impI)
  show "key \<in> set (incidentStableKeys k d) \<Longrightarrow> parseIncidentStableKey (Some key) = Some (k, d)" by (rule parse_incident_key)
  assume "set (incidentStableKeys k d) \<inter> set (incidentStableKeys k' d') \<noteq> {}"
  then obtain s where "s \<in> set (incidentStableKeys k d)" "s \<in> set (incidentStableKeys k' d')" by blast
  then have "Some (k, d) = Some (k', d')" using parse_incident_key by metis
  then show "k = k'" "d = d'" by simp_all
qed (simp add: incidentStableKeys_def)

theorem incident_key_roundtrip_witness: "parseIncidentStableKey (Some ''device:12:metric:critical'') = Some (KMetric, 12)"
proof -
  have "''device:12:metric:critical'' \<in> set (incidentStableKeys KMetric 12)" by code_simp
  with incident_key_roundtrip [of "''device:12:metric:critical''" KMetric 12] show ?thesis by blast
qed

section \<open>One active row per incident\<close>

definition open_rows :: "incident_kind \<Rightarrow> nat \<Rightarrow> alert_row list \<Rightarrow> alert_row list" where
  "open_rows k d rows = filter (\<lambda>r. of_keys (incidentStableKeys k d) r \<and> active r) rows"

definition la_inv :: "'a la_db_scheme \<Rightarrow> bool" where
  "la_inv w \<longleftrightarrow> keyed la_id (live_alerts w) \<and> (\<forall>r \<in> set (live_alerts w). la_id r < alert_seq w) \<and>
     (\<forall>k d. length (open_rows k d (live_alerts w)) \<le> 1)"

lemma alerts_emit [simp]:
  "live_alerts (emit r ev p w) = live_alerts w" "alert_seq (emit r ev p w) = alert_seq w"
  by (simp_all add: emit_def)

lemma alerts_emit_all [simp]: "live_alerts (emit_all evs w) = live_alerts w \<and> alert_seq (emit_all evs w) = alert_seq w"
  by (induction evs arbitrary: w) (auto simp: emit_all_def split: prod.splits)

lemma alerts_events [simp]:
  "live_alerts (emitResolved rows w) = live_alerts w" "alert_seq (emitResolved rows w) = alert_seq w"
  "live_alerts (announce r t w) = live_alerts w" "alert_seq (announce r t w) = alert_seq w"
  by (simp_all add: emitResolved_def announce_def)

lemma la_inv_cong: "live_alerts w' = live_alerts w \<Longrightarrow> alert_seq w' = alert_seq w \<Longrightarrow> la_inv w' = la_inv w"
  by (simp add: la_inv_def)

text \<open>Updates that open nothing, and deletions.\<close>

definition calm :: "(alert_row \<Rightarrow> alert_row) \<Rightarrow> bool" where
  "calm f \<longleftrightarrow> (\<forall>r. la_id (f r) = la_id r \<and> la_key (f r) = la_key r \<and> (active (f r) \<longrightarrow> active r))"

lemma length_filter_update:
  assumes "\<And>r. Q (f r) \<Longrightarrow> Q r"
  shows "length (filter Q (tbl_update P f rows)) \<le> length (filter Q rows)"
proof (induction rows)
  case (Cons r rows)
  then show ?case using assms [of r] by (cases "P r"; cases "Q r"; cases "Q (f r)") (simp_all add: tbl_update_def)
qed simp

lemma open_rows_update: "calm f \<Longrightarrow> length (open_rows k d (tbl_update P f rows)) \<le> length (open_rows k d rows)"
  unfolding open_rows_def by (rule length_filter_update) (simp add: calm_def of_keys_def)

lemma open_rows_delete: "length (open_rows k d (tbl_delete P rows)) \<le> length (open_rows k d rows)"
  by (induction rows) (auto simp: open_rows_def tbl_delete_def)

lemma la_inv_update:
  assumes "la_inv w" and "calm f" and "live_alerts w' = tbl_update P f (live_alerts w)" and "alert_seq w' = alert_seq w"
  shows "la_inv w'"
proof -
  have "keyed la_id (live_alerts w')" using assms by (simp add: la_inv_def keyed_tbl_update calm_def)
  moreover have "\<forall>r \<in> set (live_alerts w'). la_id r < alert_seq w'" using assms by (auto simp: la_inv_def set_tbl_update calm_def)
  moreover have "length (open_rows k d (live_alerts w')) \<le> 1" for k d
    using open_rows_update [OF assms(2), of k d P "live_alerts w"] assms(1,3) unfolding la_inv_def by (metis order_trans)
  ultimately show ?thesis by (simp add: la_inv_def)
qed

lemma la_inv_delete:
  assumes "la_inv w" and "live_alerts w' = tbl_delete P (live_alerts w)" and "alert_seq w' = alert_seq w"
  shows "la_inv w'"
proof -
  have "length (open_rows k d (live_alerts w')) \<le> 1" for k d
    using open_rows_delete [of k d P "live_alerts w"] assms(1,2) unfolding la_inv_def by (metis order_trans)
  then show ?thesis using assms by (auto simp: la_inv_def keyed_tbl_delete set_tbl_delete)
qed

lemma calm_marks [simp]: "calm (\<lambda>r. r\<lparr>la_resolved := Some n\<rparr>)" "calm (\<lambda>r. r\<lparr>la_read := v\<rparr>)"
  by (simp_all add: calm_def active_def)

lemma resolve_rows_inv: "la_inv w \<Longrightarrow> la_inv (fst (resolve_rows hit w))"
  by (erule la_inv_update [OF _ calm_marks(1)]) (simp_all add: resolve_rows_def)

lemma resolve_refs_inv: "la_inv w \<Longrightarrow> la_inv (fst (resolveIncidentRefs refs w))"
proof -
  have "la_inv w \<Longrightarrow> la_inv (fst (foldl resolve_chunk (w, ids) cs))" for w :: "'a la_db_scheme" and ids cs
  proof (induction cs arbitrary: w ids)
    case (Cons c cs)
    let ?hit = "of_keys (concat (map (\<lambda>(k, d). incidentStableKeys k d) c))"
    obtain w1 rows where r: "resolve_rows ?hit w = (w1, rows)" by fastforce
    then have "la_inv w1" using resolve_rows_inv [OF Cons.prems, of ?hit] by simp
    then have "la_inv (emitResolved rows w1)" by (simp add: la_inv_cong [of "emitResolved rows w1" w1])
    from Cons.IH [OF this, of "ids @ map fst rows"] show ?case by (simp add: resolve_chunk_def r)
  qed simp
  then show "la_inv w \<Longrightarrow> la_inv (fst (resolveIncidentRefs refs w))" by (simp add: resolveIncidentRefs_def)
qed

lemma trim_inv: "la_inv w \<Longrightarrow> la_inv (trimTenant t w)"
  by (erule la_inv_delete [of _ _ "\<lambda>r. la_tenant r = t \<and> la_id r \<notin> set (kept_ids t (live_alerts w))"])
    (simp_all add: trimTenant_def Let_def)

lemma insert_inv:
  assumes "la_inv w" and new: "\<And>k d. of_keys (incidentStableKeys k d) (insertValues t opts w) \<Longrightarrow> open_rows k d (live_alerts w) = []"
  shows "la_inv (fst (insert_alert t opts w))"
proof -
  let ?row = "insertValues t opts w"
  have "length (open_rows k d (live_alerts w @ [?row])) \<le> 1" for k d
    using new [of k d] assms(1) by (cases "of_keys (incidentStableKeys k d) ?row") (auto simp: open_rows_def la_inv_def)
  moreover have "la_id ?row = alert_seq w" by (simp add: insertValues_def)
  moreover have "alert_seq w \<notin> la_id ` set (live_alerts w)" using assms(1) by (auto simp: la_inv_def)
  ultimately show ?thesis using assms(1) by (auto simp: la_inv_def insert_alert_def Let_def keyed_snoc less_Suc_eq)
qed

text \<open>The resolution of a list of rows leaves none of them open.\<close>

lemma open_rows_resolved:
  assumes "\<And>r. r \<in> set (live_alerts w) \<Longrightarrow> of_keys (incidentStableKeys k d) r \<Longrightarrow> active r \<Longrightarrow> hit r"
  shows "open_rows k d (live_alerts (fst (resolve_rows hit w))) = []"
  using assms by (auto simp: open_rows_def resolve_rows_def tbl_update_def filter_empty_conv active_def of_keys_def)

lemma alert_seq_resolve [simp]: "alert_seq (fst (resolve_rows hit w)) = alert_seq w"
  by (simp add: resolve_rows_def)

lemma raise_tx_inv:
  assumes "la_inv w" and key: "parseIncidentStableKey (ao_key opts) = Some (kind, d)"
  shows "la_inv (fst (raise_tx t opts kind d w))"
proof -
  let ?act = "newest_first (filter (\<lambda>r. of_keys (incidentStableKeys kind d) r \<and> active r) (live_alerts w))"
  let ?w = "\<lambda>keep. fst (resolve_rows (\<lambda>r. la_id r \<in> set (map la_id (filter (\<lambda>r. Some r \<noteq> keep) ?act))) w)"
  have ok: "la_inv (?w keep)" for keep using assms(1) by (rule resolve_rows_inv)
  have none: "open_rows kind d (live_alerts (?w None)) = []"
    by (rule open_rows_resolved) (auto simp: newest_first_def)
  have "la_inv (fst (insert_alert t opts (?w None)))"
  proof (rule insert_inv [OF ok])
    fix k d' assume "of_keys (incidentStableKeys k d') (insertValues t opts (?w None))"
    then obtain s where "ao_key opts = Some s" "s \<in> set (incidentStableKeys k d')" by (auto simp: of_keys_def insertValues_def split: option.splits)
    then have "kind = k \<and> d = d'" using key parse_incident_key by fastforce
    then show "open_rows k d' (live_alerts (?w None)) = []" using none by simp
  qed
  with ok show ?thesis by (auto simp: raise_tx_def Let_def case_prod_unfold)
qed

lemma la_inv_events [simp]: "la_inv (emitResolved rows w) = la_inv w" "la_inv (announce r t w) = la_inv w" "la_inv (emit_all evs w) = la_inv w"
  by (rule la_inv_cong; simp)+

lemma raise_inv:
  assumes "la_inv w" and "parseIncidentStableKey (ao_key opts) = Some (kind, d)"
  shows "la_inv (fst (raiseIncident t opts kind d w))"
  using raise_tx_inv [OF assms, of t] by (auto simp: raiseIncident_def Let_def case_prod_unfold trim_inv split: option.splits)

lemma add_inv:
  assumes "la_inv w"
  shows "la_inv (fst (addAlert t opts w))"
proof (cases "parseIncidentStableKey (ao_key opts)")
  case None
  have "la_inv (fst (insert_alert t opts w))"
  proof (rule insert_inv [OF assms])
    fix k d assume "of_keys (incidentStableKeys k d) (insertValues t opts w)"
    then obtain s where "ao_key opts = Some s" "s \<in> set (incidentStableKeys k d)" by (auto simp: of_keys_def insertValues_def split: option.splits)
    then have "parseIncidentStableKey (ao_key opts) = Some (k, d)" using parse_incident_key by simp
    with None show "open_rows k d (live_alerts w) = []" by simp
  qed
  then show ?thesis using assms None by (simp add: addAlert_def Let_def case_prod_unfold trim_inv)
next
  case (Some kd)
  then show ?thesis using raise_inv [OF assms] by (cases kd) (simp add: addAlert_def)
qed

lemma unread_inv: "la_inv w \<Longrightarrow> la_inv (fst (foldl unread_chunk (w, rd) cs))"
proof (induction cs arbitrary: w rd)
  case (Cons c cs)
  have "la_inv (fst (unread_chunk (w, rd) c))"
    by (rule la_inv_update [OF Cons.prems calm_marks(2)]) (simp_all add: unread_chunk_def update_alerts_def Let_def)
  then show ?case using Cons.IH [of "fst (unread_chunk (w, rd) c)" "snd (unread_chunk (w, rd) c)"] by simp
qed simp

lemma muted_inv: "la_inv w \<Longrightarrow> la_inv (fst (resolveMutedMetricAlerts ds w))"
  using unread_inv [of w "[]" "chunks resolve_chunk_size (uniq ds)"]
  by (auto simp: resolveMutedMetricAlerts_def resolveIncidents_def Let_def case_prod_unfold intro: resolve_refs_inv)

inductive la_step :: "'a la_db_scheme \<Rightarrow> 'a la_db_scheme \<Rightarrow> bool" where
  add: "la_step w (fst (addAlert t opts w))"
| recover: "la_step w (fst (resolveIncidents kind ds w))"
| deleted: "la_step w (fst (resolveDeviceIncidents ds w))"
| orphans: "la_step w (fst (resolveOrphanIncidents w))"
| muted: "la_step w (fst (resolveMutedMetricAlerts ds w))"
| read_one: "la_step w (markRead i t w)"
| read_all: "la_step w (markAllRead t w)"
| delete_one: "la_step w (deleteAlert i w)"
| clear: "la_step w (clearAll t w)"
| cleanup: "la_step w (cleanupAlerts days w)"
| other: "live_alerts w' = live_alerts w \<Longrightarrow> alert_seq w' = alert_seq w \<Longrightarrow> la_step w w'"

lemma la_step_inv: "la_step w w' \<Longrightarrow> la_inv w \<Longrightarrow> la_inv w'"
proof (induction rule: la_step.induct)
  case (read_one w i t)
  show ?case by (rule la_inv_update [OF read_one calm_marks(2)]) (simp_all add: markRead_def update_alerts_def)
next
  case (read_all w t)
  show ?case by (rule la_inv_update [OF read_all calm_marks(2)]) (simp_all add: markAllRead_def update_alerts_def)
next
  case (delete_one w i)
  show ?case by (rule la_inv_delete [OF delete_one]) (simp_all add: deleteAlert_def)
next
  case (clear w t)
  show ?case by (rule la_inv_delete [OF clear]) (simp_all add: clearAll_def)
next
  case (cleanup w days)
  show ?case by (rule la_inv_delete [OF cleanup]) (simp_all add: cleanupAlerts_def)
next
  case (orphans w)
  then show ?case by (simp add: resolveOrphanIncidents_def resolveDeviceIncidents_def Let_def resolve_refs_inv)
next
  case (other w' w)
  then show ?case using la_inv_cong by blast
qed (simp_all add: add_inv muted_inv resolve_refs_inv resolveIncidents_def resolveDeviceIncidents_def)

interpretation alert_machine: guarded_machine la_inv la_step
  by unfold_locales (rule la_step_inv)

text \<open>
  C6. Starting without alerts, after any sequence of raised alerts, recoveries, deletions, marks, cleanups and
  other work of the server, no incident of a device has more than one active row, over all tenants and
  severities.
\<close>

theorem one_active_row_per_incident:
  assumes "la_step\<^sup>*\<^sup>* w w'" and "live_alerts w = []"
  shows "length (filter (\<lambda>r. of_keys (incidentStableKeys k d) r \<and> la_resolved r = None) (live_alerts w')) \<le> 1"
proof -
  have "la_inv w" using assms(2) by (simp add: la_inv_def keyed_def open_rows_def)
  then have "la_inv w'" by (rule alert_machine.reach_inv [OF assms(1)])
  then show ?thesis by (simp add: la_inv_def open_rows_def active_def)
qed

section \<open>What a raise and a recovery leave\<close>

lemma hd_newest_first:
  assumes "r \<in> set rs" and "\<And>x. x \<in> set rs \<Longrightarrow> x \<noteq> r \<Longrightarrow> la_id x < la_id r"
  shows "\<exists>ys. newest_first rs = r # ys"
proof -
  have set: "set (newest_first rs) = set rs" by (simp add: newest_first_def)
  then obtain y ys where y: "newest_first rs = y # ys" using assms(1) by (cases "newest_first rs") auto
  have "sorted (map (\<lambda>r. - int (la_id r)) (y # ys))" using y by (metis newest_first_def sorted_sort_key)
  moreover have "r \<in> set (y # ys)" "y \<in> set rs" using assms(1) set y by auto
  ultimately have "y = r" using assms(2) [of y] by fastforce
  with y show ?thesis by blast
qed

lemma trim_keeps_newest:
  assumes "r \<in> set (live_alerts w)" and "active r" and "\<And>x. x \<in> set (live_alerts w) \<Longrightarrow> x \<noteq> r \<Longrightarrow> la_id x < la_id r"
    and "open_rows k d (live_alerts w) = [r]"
  shows "open_rows k d (live_alerts (trimTenant t w)) = [r]"
proof -
  have kept: "la_id r \<in> set (kept_ids t (live_alerts w))" if m: "la_tenant r = t"
  proof -
    obtain ys where "newest_first (filter active (filter (\<lambda>r. la_tenant r = t) (live_alerts w))) = r # ys"
      using hd_newest_first [of r "filter active (filter (\<lambda>r. la_tenant r = t) (live_alerts w))"] assms(1,2,3) m by auto
    then show ?thesis by (simp add: kept_ids_def Let_def)
  qed
  let ?gone = "\<lambda>r. la_tenant r = t \<and> la_id r \<notin> set (kept_ids t (live_alerts w))"
  have "open_rows k d (tbl_delete ?gone (live_alerts w)) = filter (\<lambda>r. \<not> ?gone r) (open_rows k d (live_alerts w))"
    by (simp add: open_rows_def tbl_delete_def conj_ac)
  also have "\<dots> = [r]" using kept by (simp add: assms(4))
  finally show ?thesis by (simp add: trimTenant_def Let_def)
qed

lemma newest_first_single: "length rs \<le> 1 \<Longrightarrow> newest_first rs = rs"
  by (cases rs) (simp_all add: newest_first_def)

lemma insert_opens:
  assumes "la_inv w" and "open_rows k d (live_alerts w) = []" and "ao_key opts = Some key" and "key \<in> set (incidentStableKeys k d)"
  shows "open_rows k d (live_alerts (trimTenant t (emitResolved res (fst (insert_alert t opts w))))) = [insertValues t opts w]"
proof -
  let ?row = "insertValues t opts w"
  have row: "active ?row" "of_keys (incidentStableKeys k d) ?row" "la_id ?row = alert_seq w"
    using assms(3,4) by (simp_all add: insertValues_def active_def of_keys_def)
  let ?w = "emitResolved res (fst (insert_alert t opts w))"
  have "live_alerts ?w = live_alerts w @ [?row]" by (simp add: insert_alert_def Let_def)
  moreover have "open_rows k d (live_alerts w @ [?row]) = [?row]" using row assms(2) by (simp add: open_rows_def)
  moreover have "la_id x < la_id ?row" if "x \<in> set (live_alerts w)" for x using assms(1) row(3) that by (simp add: la_inv_def)
  ultimately show ?thesis using row(1) by (intro trim_keeps_newest) auto
qed

lemma now_emit_all [simp]: "now_ms (emit_all evs w) = now_ms w"
  by (induction evs arbitrary: w) (auto simp: emit_all_def emit_def split: prod.splits)

lemma now_emitResolved: "now_ms (emitResolved rows w) = now_ms w"
  by (simp add: emitResolved_def)

lemma of_keys_resolved [simp]: "of_keys ks (r\<lparr>la_resolved := v\<rparr>) = of_keys ks r" "active (r\<lparr>la_resolved := v\<rparr>) \<longleftrightarrow> v = None"
  by (simp_all add: of_keys_def active_def)

lemma of_keys_append: "of_keys (ks @ ls) r \<longleftrightarrow> of_keys ks r \<or> of_keys ls r"
  by (simp add: of_keys_def split: option.split)

lemma resolve_twice:
  "tbl_update (\<lambda>r. of_keys ls r \<and> active r) (\<lambda>r. r\<lparr>la_resolved := Some n\<rparr>) (tbl_update (\<lambda>r. of_keys ks r \<and> active r) (\<lambda>r. r\<lparr>la_resolved := Some n\<rparr>) rows) =
   tbl_update (\<lambda>r. of_keys (ks @ ls) r \<and> active r) (\<lambda>r. r\<lparr>la_resolved := Some n\<rparr>) rows"
  unfolding tbl_update_def map_map by (rule map_cong [OF refl]) (auto simp: of_keys_append)

lemma refs_fold:
  "live_alerts (fst (foldl resolve_chunk (w, ids) cs)) =
     tbl_update (\<lambda>r. of_keys (concat (map (\<lambda>(k, d). incidentStableKeys k d) (concat cs))) r \<and> active r) (\<lambda>r. r\<lparr>la_resolved := Some (now_ms w)\<rparr>) (live_alerts w)"
proof (induction cs arbitrary: w ids)
  case Nil
  then show ?case by (simp add: of_keys_def tbl_update_ident split: option.splits)
next
  case (Cons c cs)
  let ?w = "fst (resolve_chunk (w, ids) c)"
  have "now_ms ?w = now_ms w" by (simp add: resolve_chunk_def case_prod_unfold Let_def resolve_rows_def now_emitResolved)
  moreover have "live_alerts ?w = tbl_update (\<lambda>r. of_keys (concat (map (\<lambda>(k, d). incidentStableKeys k d) c)) r \<and> active r)
      (\<lambda>r. r\<lparr>la_resolved := Some (now_ms w)\<rparr>) (live_alerts w)"
    by (simp add: resolve_chunk_def case_prod_unfold Let_def resolve_rows_def)
  ultimately show ?case using Cons.IH [of ?w "snd (resolve_chunk (w, ids) c)"] by (simp add: resolve_twice)
qed

lemma resolve_refs_alerts:
  "live_alerts (fst (resolveIncidentRefs refs w)) =
     tbl_update (\<lambda>r. of_keys (concat (map (\<lambda>(k, d). incidentStableKeys k d) refs)) r \<and> active r) (\<lambda>r. r\<lparr>la_resolved := Some (now_ms w)\<rparr>) (live_alerts w)"
  by (simp add: resolveIncidentRefs_def refs_fold concat_chunks resolve_chunk_size_def)

text \<open>The condition under which a raise opens its incident.\<close>

definition incident_open :: "'a la_db_scheme \<Rightarrow> incident_kind \<Rightarrow> nat \<Rightarrow> bool" where
  "incident_open w kind d \<longleftrightarrow> (\<exists>dev. device_by_id w d = Some dev \<and> (kind = KOffline \<longrightarrow> dev_status dev = ''offline''))"

lemma raise_opens:
  assumes inv: "la_inv w" and key: "ao_key opts = Some key" "key \<in> set (incidentStableKeys kind d)" and opened: "incident_open w kind d"
  shows "\<exists>r. open_rows kind d (live_alerts (fst (raiseIncident t opts kind d w))) = [r] \<and> la_tenant r = t \<and> la_key r = Some key \<and>
    la_severity r = ao_severity opts"
proof -
  let ?rows = "open_rows kind d (live_alerts w)"
  let ?P = "\<lambda>r. la_tenant r = t \<and> la_key r = ao_key opts \<and> la_severity r = ao_severity opts"
  have op: "(case device_by_id w d of None \<Rightarrow> False | Some dev \<Rightarrow> kind \<noteq> KOffline \<or> dev_status dev = ''offline'')"
    using opened by (auto simp: incident_open_def)
  have le: "length ?rows \<le> 1" using inv by (simp add: la_inv_def)
  have act: "newest_first (filter (\<lambda>r. of_keys (incidentStableKeys kind d) r \<and> active r) (live_alerts w)) = ?rows"
    using newest_first_single [OF le] by (simp add: open_rows_def)
  show ?thesis
  proof (cases "find ?P ?rows")
    case None
    let ?w = "fst (resolve_rows (\<lambda>r. la_id r \<in> set (map la_id ?rows)) w)"
    have "open_rows kind d (live_alerts ?w) = []" by (rule open_rows_resolved) (auto simp: open_rows_def)
    from insert_opens [OF resolve_rows_inv [OF inv] this key] None op show ?thesis
      by (simp add: raiseIncident_def raise_tx_def Let_def case_prod_unfold act insert_alert_def insertValues_def key)
  next
    case (Some r)
    then have r: "?rows = [r]" "?P r" using le by (cases ?rows; auto split: if_splits)+
    then have "live_alerts (fst (raiseIncident t opts kind d w)) = live_alerts w"
      using op Some by (simp add: raiseIncident_def raise_tx_def Let_def case_prod_unfold act resolve_rows_def tbl_update_ident)
    with r key show ?thesis by auto
  qed
qed

lemma raise_not_open:
  assumes "\<not> incident_open w kind d"
  shows "open_rows kind d (live_alerts (fst (raiseIncident t opts kind d w))) = []"
proof -
  have op: "\<not> (case device_by_id w d of None \<Rightarrow> False | Some dev \<Rightarrow> kind \<noteq> KOffline \<or> dev_status dev = ''offline'')"
    using assms by (auto simp: incident_open_def split: option.splits)
  let ?act = "newest_first (filter (\<lambda>r. of_keys (incidentStableKeys kind d) r \<and> active r) (live_alerts w))"
  have "open_rows kind d (live_alerts (fst (resolve_rows (\<lambda>r. la_id r \<in> set (map la_id ?act)) w))) = []"
    by (rule open_rows_resolved) (auto simp: newest_first_def)
  with op show ?thesis by (simp add: raiseIncident_def raise_tx_def Let_def case_prod_unfold)
qed

lemma of_ref_keys:
  "of_keys (concat (map (\<lambda>d. incidentStableKeys kind d) ds)) r \<longleftrightarrow> (\<exists>d \<in> set ds. of_keys (incidentStableKeys kind d) r)"
  by (auto simp: of_keys_def split: option.splits)

lemma of_keys_parse: "of_keys (incidentStableKeys k d) r \<Longrightarrow> parseIncidentStableKey (la_key r) = Some (k, d)"
  by (auto simp: of_keys_def parse_incident_key split: option.splits)

lemma of_keys_unique: "of_keys (incidentStableKeys k d) r \<Longrightarrow> of_keys (incidentStableKeys k' d') r \<Longrightarrow> k' = k \<and> d' = d"
  by (auto dest!: of_keys_parse)

lemma open_rows_recovered:
  "open_rows k d (live_alerts (fst (resolveIncidents kind ds w))) = (if k = kind \<and> d \<in> set ds then [] else open_rows k d (live_alerts w))"
proof -
  let ?hit = "\<lambda>r. (\<exists>d' \<in> set ds. of_keys (incidentStableKeys kind d') r) \<and> active r"
  have rows: "live_alerts (fst (resolveIncidents kind ds w)) = tbl_update ?hit (\<lambda>r. r\<lparr>la_resolved := Some (now_ms w)\<rparr>) (live_alerts w)"
    by (simp add: resolveIncidents_def resolve_refs_alerts comp_def of_ref_keys)
  show ?thesis
  proof (cases "k = kind \<and> d \<in> set ds")
    case True
    then show ?thesis unfolding rows by (auto simp: open_rows_def tbl_update_def filter_empty_conv active_def of_keys_def)
  next
    case False
    then have none: "of_keys (incidentStableKeys k d) r \<Longrightarrow> \<not> ?hit r" for r using of_keys_unique by blast
    have "open_rows k d (tbl_update ?hit (\<lambda>r. r\<lparr>la_resolved := Some (now_ms w)\<rparr>) rs) = open_rows k d rs" for rs
    proof (induction rs)
      case (Cons a rs)
      then show ?case using none [of a] by (cases "?hit a") (auto simp: open_rows_def tbl_update_def)
    qed simp
    with False rows show ?thesis by auto
  qed
qed

text \<open>
  C24. Raising an incident of an existing device (that is still offline, for the offline incident) leaves exactly
  one active row of it, with the tenant, key and severity asked for, whatever was active before and however many
  rows the tenant has; when the device is gone or back it leaves none. A recovery closes exactly the incidents of
  its kind and devices, in every tenant.
\<close>

theorem raise_and_recovery_outcome:
  assumes "la_inv w" and "ao_key opts = Some key" and "key \<in> set (incidentStableKeys kind d)"
  shows "(if incident_open w kind d
          then \<exists>r. open_rows kind d (live_alerts (fst (addAlert t opts w))) = [r] \<and> la_tenant r = t \<and> la_key r = Some key \<and> la_severity r = ao_severity opts
          else open_rows kind d (live_alerts (fst (addAlert t opts w))) = []) \<and>
    open_rows k d' (live_alerts (fst (resolveIncidents kind ds w))) = (if k = kind \<and> d' \<in> set ds then [] else open_rows k d' (live_alerts w))"
proof -
  have "fst (addAlert t opts w) = fst (raiseIncident t opts kind d w)" using parse_incident_key [OF assms(3)] by (simp add: addAlert_def assms(2))
  then show ?thesis using raise_opens [OF assms] raise_not_open [of w kind d t opts] by (auto simp: open_rows_recovered)
qed

text \<open>An example: the offline alert of device 4, and its metric alert raised twice.\<close>

definition ex_la :: la_db where
  "ex_la = ap_db.extend (sc_db.extend ex_sc \<lparr>tenants = [], pending_approvals = [], approval_seq = 1, script_schedules = [], second_factors = [],
     step_up_throttle = [], tfa_trusted_sessions = [], audit_log = []\<rparr>) \<lparr>live_alerts = [], alert_seq = 1\<rparr>"

definition ex_metric :: add_opts where
  "ex_metric = \<lparr>ao_severity = ''warning'', ao_title = ''CPU'', ao_message = ''93'', ao_navigate = None, ao_key = Some ''device:4:metric:warning''\<rparr>"

lemma ex_la_start: "live_alerts ex_la = []" "la_inv ex_la"
  by (simp_all add: ex_la_def ap_db.defs la_inv_def keyed_def open_rows_def)

lemma ex_metric_key: "''device:4:metric:warning'' \<in> set (incidentStableKeys KMetric 4)" "ao_key ex_metric = Some ''device:4:metric:warning''"
  by (code_simp, simp add: ex_metric_def)

theorem one_active_row_per_incident_witness:
  "length (filter (\<lambda>r. of_keys (incidentStableKeys KMetric 4) r \<and> la_resolved r = None)
     (live_alerts (fst (addAlert 2 ex_metric (fst (addAlert 3 ex_metric ex_la)))))) \<le> 1"
proof (rule one_active_row_per_incident [OF _ ex_la_start(1)])
  have "la_step ex_la (fst (addAlert 3 ex_metric ex_la))"
    and "la_step (fst (addAlert 3 ex_metric ex_la)) (fst (addAlert 2 ex_metric (fst (addAlert 3 ex_metric ex_la))))"
    by (rule la_step.add)+
  then show "la_step\<^sup>*\<^sup>* ex_la (fst (addAlert 2 ex_metric (fst (addAlert 3 ex_metric ex_la))))" by (rule converse_rtranclp_into_rtranclp [OF _ r_into_rtranclp])
qed

theorem raise_and_recovery_outcome_witness:
  "\<exists>r. open_rows KMetric 4 (live_alerts (fst (addAlert 2 ex_metric ex_la))) = [r] \<and> la_tenant r = 2 \<and>
     la_key r = Some ''device:4:metric:warning'' \<and> la_severity r = ''warning''"
proof -
  have "incident_open ex_la KMetric 4" by (simp add: incident_open_def device_by_id_def ex_la_def ap_db.defs sc_db.defs ex_sc_defs)
  with raise_and_recovery_outcome [OF ex_la_start(2) ex_metric_key(2,1), of 2 KMetric 4 "[]"] show ?thesis
    by (simp add: ex_metric_def)
qed

end
