(* ===== verification/Metric_Rebaseline.thy ===== *)
theory Metric_Rebaseline
  imports Live_Alert Threshold_Service "HOL-Library.Char_ord" "HOL-Library.List_Lexorder"
begin

text \<open>
  The silent re-baseline after an alerts switch changed (\<^verbatim>\<open>server/src/services/metricAlertRebaseline.service.ts\<close>) and
  the fingerprint that detects such a change (\<open>notifySignature\<close> of \<^verbatim>\<open>thresholdCascade.ts\<close>). A \<open>metric_row\<close> holds the
  metric columns of a device row; stored metrics that do not parse are \<open>None\<close>. The threshold tables are what
  \<open>thresholdService.resolveMany\<close> reads with its caches invalidated. Jobs run one after the other.
\<close>

section \<open>The job\<close>

record metric_row = metric_state +
  mr_id :: nat
  mr_enabled :: "bool option"

record mr_db = la_db +
  metric_rows :: "metric_row list"
  group_alert_flags :: "(nat \<times> bool) list"
  threshold_rows :: "device_threshold_row list"
  global_thresholds :: "metric_thresholds option"
  tenant_layers :: "nat \<Rightarrow> tenant_layer"
  threshold_groups :: "group_node list"

datatype rebaseline_scope = ScopeAll | ScopeTenant nat | ScopeSubtree nat | ScopeDevices "nat list"

definition rebaseline_chunk :: nat where "rebaseline_chunk = 500"

definition row_level :: "metric_row \<Rightarrow> metric_level option" where
  "row_level r = orElse (ms_alert r) (ms_metric r)"

definition alerting :: "metric_row \<Rightarrow> bool" where
  "alerting r \<longleftrightarrow> ms_latest r \<noteq> None \<and> (row_level r = Some Warning \<or> row_level r = Some Critical)"

definition device_of :: "'a mr_db_scheme \<Rightarrow> metric_row \<Rightarrow> device_row option" where
  "device_of w r = device_by_id w (mr_id r)"

definition candidateIds :: "rebaseline_scope \<Rightarrow> 'a mr_db_scheme \<Rightarrow> nat list" where
  "candidateIds scope w =
     (let q = filter alerting (metric_rows w)
      in case scope of
           ScopeAll \<Rightarrow> map mr_id q
         | ScopeTenant t \<Rightarrow> map mr_id (filter (\<lambda>r. case device_of w r of None \<Rightarrow> False | Some d \<Rightarrow> dev_tenant d = t) q)
         | ScopeSubtree g \<Rightarrow>
             map mr_id (filter (\<lambda>r. case device_of w r of None \<Rightarrow> False
               | Some d \<Rightarrow> (case dev_group d of None \<Rightarrow> False
                   | Some g' \<Rightarrow> list_ex (\<lambda>c. cl_anc c = g \<and> cl_desc c = g') (group_closure w))) q)
         | ScopeDevices ids \<Rightarrow>
             concat (map (\<lambda>chunk. map mr_id (filter (\<lambda>r. mr_id r \<in> set chunk) q)) (chunks rebaseline_chunk (uniq ids))))"

definition group_flag :: "'a mr_db_scheme \<Rightarrow> nat \<Rightarrow> bool option" where
  "group_flag w d =
     (case device_by_id w d of None \<Rightarrow> None | Some dev \<Rightarrow> (case dev_group dev of None \<Rightarrow> None | Some g \<Rightarrow> map_of (group_alert_flags w) g))"

text \<open>The level read and the level to store instead.\<close>

definition rebaseline_level :: "(nat \<Rightarrow> resolved_thresholds option) \<Rightarrow> 'a mr_db_scheme \<Rightarrow> metric_row \<Rightarrow> (metric_level \<times> metric_level) option" where
  "rebaseline_level th w r =
     (if \<not> alertsEnabled (mr_enabled r) (group_flag w (mr_id r)) then None
      else case (th (mr_id r), ms_latest r, row_level r) of
        (Some t, Some m, Some prev) \<Rightarrow>
          (let full = computeMetricStatus (Some m) t;
               alertLevel = worstLevel (filterNotifiedBreaches (snd full) t)
           in map_option (\<lambda>next. (prev, next)) (rebaselineAlertLevel prev alertLevel (fst full)))
      | _ \<Rightarrow> None)"

definition store_level ::
  "(nat \<Rightarrow> resolved_thresholds option) \<Rightarrow> 'a mr_db_scheme \<times> nat \<times> nat list \<Rightarrow> metric_row \<Rightarrow> 'a mr_db_scheme \<times> nat \<times> nat list" where
  "store_level th acc r =
     (let (w, lowered, toResolve) = acc
      in case rebaseline_level th w r of
           None \<Rightarrow> (w, lowered, toResolve)
         | Some (prev, nxt) \<Rightarrow>
             (let hit = (\<lambda>x. mr_id x = mr_id r \<and> row_level x = Some prev)
              in if list_ex hit (metric_rows w)
                 then (w\<lparr>metric_rows := tbl_update hit (\<lambda>x. x\<lparr>ms_alert := Some nxt\<rparr>) (metric_rows w)\<rparr>, lowered + 1,
                       if nxt = Ok then toResolve @ [mr_id r] else toResolve)
                 else (w, lowered, toResolve)))"

definition chunk_thresholds :: "nat list \<Rightarrow> 'a mr_db_scheme \<Rightarrow> nat \<Rightarrow> resolved_thresholds option" where
  "chunk_thresholds ids w =
     thresholdResolveMany (filter (\<lambda>r. dt_id r \<in> set ids) (threshold_rows w)) (global_thresholds w) (tenant_layers w) (group_index_of (threshold_groups w))"

definition processChunk :: "nat list \<Rightarrow> 'a mr_db_scheme \<Rightarrow> 'a mr_db_scheme \<times> nat \<times> nat" where
  "processChunk ids w =
     (let rows = filter (\<lambda>r. mr_id r \<in> set ids) (metric_rows w);
          (w1, lowered, toResolve) = foldl (store_level (chunk_thresholds ids w)) (w, 0, []) rows
      in if toResolve = [] then (w1, lowered, 0)
         else let (w2, resolved) = resolveMutedMetricAlerts toResolve w1 in (w2, lowered, length resolved))"

definition rebaseline_run :: "rebaseline_scope \<Rightarrow> 'a mr_db_scheme \<Rightarrow> 'a mr_db_scheme" where
  "rebaseline_run scope w = foldl (\<lambda>w ids. fst (processChunk ids w)) w (chunks rebaseline_chunk (candidateIds scope w))"

section \<open>One device\<close>

definition rebased_row :: "(nat \<Rightarrow> resolved_thresholds option) \<Rightarrow> 'a mr_db_scheme \<Rightarrow> metric_row \<Rightarrow> metric_row" where
  "rebased_row th w x = (case rebaseline_level th w x of None \<Rightarrow> x | Some (prev, nxt) \<Rightarrow> x\<lparr>ms_alert := Some nxt\<rparr>)"

definition ends_incident :: "(nat \<Rightarrow> resolved_thresholds option) \<Rightarrow> 'a mr_db_scheme \<Rightarrow> metric_row \<Rightarrow> bool" where
  "ends_incident th w x \<longleftrightarrow> (\<exists>prev. rebaseline_level th w x = Some (prev, Ok))"

lemma rebased_row_id [simp]: "mr_id (rebased_row th w x) = mr_id x"
  by (simp add: rebased_row_def split: option.split prod.split)

lemma group_flag_rows [simp]: "group_flag (w\<lparr>metric_rows := rs\<rparr>) d = group_flag w d"
  by (simp add: group_flag_def device_by_id_def split: option.split)

lemma rebaseline_level_rows [simp]: "rebaseline_level th (w\<lparr>metric_rows := rs\<rparr>) x = rebaseline_level th w x"
  by (simp add: rebaseline_level_def)

lemma rebased_row_rows [simp]: "rebased_row th (w\<lparr>metric_rows := rs\<rparr>) x = rebased_row th w x"
  by (simp add: rebased_row_def)

lemma rebaseline_level_prev: "rebaseline_level th w x = Some (prev, nxt) \<Longrightarrow> row_level x = Some prev"
  by (auto simp: rebaseline_level_def Let_def split: option.splits if_splits)

lemma store_level_row:
  assumes "keyed mr_id (metric_rows w)" and "r \<in> set (metric_rows w)"
  shows "store_level th (w, n, ts) r =
    (w\<lparr>metric_rows := map (\<lambda>x. if x = r then rebased_row th w x else x) (metric_rows w)\<rparr>,
     n + (if rebaseline_level th w r = None then 0 else 1), if ends_incident th w r then ts @ [mr_id r] else ts)"
proof (cases "rebaseline_level th w r")
  case None
  have "map (\<lambda>x. if x = r then rebased_row th w x else x) (metric_rows w) = metric_rows w"
    by (rule map_idI) (simp add: rebased_row_def None)
  then show ?thesis by (simp add: store_level_def None ends_incident_def)
next
  case (Some pn)
  obtain prev nxt where pn: "pn = (prev, nxt)" by fastforce
  have lev: "row_level r = Some prev" using rebaseline_level_prev Some pn by blast
  have "mr_id x = mr_id r \<and> row_level x = Some prev \<longleftrightarrow> x = r" if "x \<in> set (metric_rows w)" for x
    using assms lev that by (auto simp: keyed_def distinct_map inj_on_def)
  then have "tbl_update (\<lambda>x. mr_id x = mr_id r \<and> row_level x = Some prev) (\<lambda>x. x\<lparr>ms_alert := Some nxt\<rparr>) (metric_rows w) =
      map (\<lambda>x. if x = r then rebased_row th w x else x) (metric_rows w)"
    unfolding tbl_update_def by (intro map_cong refl) (simp add: rebased_row_def Some pn)
  moreover have "list_ex (\<lambda>x. mr_id x = mr_id r \<and> row_level x = Some prev) (metric_rows w)"
    using assms(2) lev by (auto simp: list_ex_iff)
  ultimately show ?thesis by (auto simp: store_level_def Some pn ends_incident_def Let_def)
qed

lemma store_levels:
  assumes "keyed mr_id (metric_rows w)" and "set rs \<subseteq> set (metric_rows w)" and "distinct (map mr_id rs)"
  shows "\<exists>n'. foldl (store_level th) (w, n, ts) rs =
    (w\<lparr>metric_rows := map (\<lambda>x. if x \<in> set rs then rebased_row th w x else x) (metric_rows w)\<rparr>, n', ts @ map mr_id (filter (ends_incident th w) rs))"
  using assms
proof (induction rs arbitrary: w n ts)
  case Nil
  then show ?case by simp
next
  case (Cons r rs)
  let ?w = "w\<lparr>metric_rows := map (\<lambda>x. if x = r then rebased_row th w x else x) (metric_rows w)\<rparr>"
  have ids: "map mr_id (metric_rows ?w) = map mr_id (metric_rows w)" by simp
  have same: "x \<in> set rs \<Longrightarrow> x \<noteq> r" for x using Cons.prems(3) by auto
  have "set rs \<subseteq> set (metric_rows ?w)" using Cons.prems(2) same by force
  moreover have "keyed mr_id (metric_rows ?w)" using Cons.prems(1) unfolding keyed_def by (simp only: ids)
  moreover have "rebased_row th w r \<notin> set rs" using Cons.prems(3) rebased_row_id [of th w r] by (metis distinct.simps(2) image_eqI list.simps(9) set_map)
  moreover have "ends_incident th ?w = ends_incident th w" by (simp add: ends_incident_def fun_eq_iff)
  ultimately show ?case
    using Cons.IH [of ?w "n + (if rebaseline_level th w r = None then 0 else 1)" "if ends_incident th w r then ts @ [mr_id r] else ts"]
      store_level_row [OF Cons.prems(1), of r th n ts] Cons.prems(2,3)
    by (auto simp: comp_def cong: if_cong)
qed

section \<open>One chunk\<close>

text \<open>The alert service leaves the devices and the tables of this theory alone.\<close>

definition mr_view :: "'a la_db_scheme \<Rightarrow> device_row list \<times> closure_row list \<times> 'a" where
  "mr_view w = (devices w, group_closure w, la_db.more w)"

lemma mr_view_emit_all [simp]: "mr_view (emit_all evs w) = mr_view w"
  by (induction evs arbitrary: w) (auto simp: emit_all_def emit_def mr_view_def split: prod.splits)

lemma mr_view_resolve: "mr_view (fst (resolveIncidentRefs refs w)) = mr_view w"
proof -
  have "mr_view (fst (foldl resolve_chunk (w, ids) cs)) = mr_view w" for w :: "'a la_db_scheme" and ids cs
  proof (induction cs arbitrary: w ids)
    case (Cons c cs)
    have "mr_view (fst (resolve_chunk (w, ids) c)) = mr_view w"
      by (simp add: resolve_chunk_def resolve_rows_def emitResolved_def Let_def) (simp add: mr_view_def)
    then show ?case using Cons.IH [of "fst (resolve_chunk (w, ids) c)" "snd (resolve_chunk (w, ids) c)"] by simp
  qed simp
  then show ?thesis by (simp add: resolveIncidentRefs_def)
qed

lemma unread_fold:
  "mr_view (fst (foldl unread_chunk (w, rd) cs)) = mr_view w \<and>
   length (open_rows k d (live_alerts (fst (foldl unread_chunk (w, rd) cs)))) = length (open_rows k d (live_alerts w))"
proof (induction cs arbitrary: w rd)
  case (Cons c cs)
  let ?w = "fst (unread_chunk (w, rd) c)"
  have "mr_view ?w = mr_view w" by (simp add: unread_chunk_def update_alerts_def Let_def mr_view_def)
  moreover have "length (filter Q (tbl_update P f rows)) = length (filter Q rows)" if "\<And>r. Q (f r) = Q r" for Q P f and rows :: "alert_row list"
    using that by (induction rows) (simp_all add: tbl_update_def)
  then have "length (open_rows k d (live_alerts ?w)) = length (open_rows k d (live_alerts w))"
    by (simp add: unread_chunk_def update_alerts_def Let_def open_rows_def of_keys_def active_def)
  ultimately show ?case using Cons.IH [of ?w "snd (unread_chunk (w, rd) c)"] by simp
qed simp

lemma muted_view: "mr_view (fst (resolveMutedMetricAlerts ds w)) = mr_view w"
  using unread_fold [of w "[]" "chunks resolve_chunk_size (uniq ds)"]
  by (simp add: resolveMutedMetricAlerts_def resolveIncidents_def Let_def case_prod_unfold mr_view_resolve)

lemma muted_open_rows:
  "open_rows k d (live_alerts (fst (resolveMutedMetricAlerts ds w))) = [] \<longleftrightarrow> open_rows k d (live_alerts w) = [] \<or> (k = KMetric \<and> d \<in> set ds)"
proof (cases "ds = []")
  case True
  then show ?thesis by (simp add: resolveMutedMetricAlerts_def Let_def)
next
  case False
  let ?w = "fst (foldl unread_chunk (w, []) (chunks resolve_chunk_size (uniq ds)))"
  have "open_rows k d (live_alerts ?w) = [] \<longleftrightarrow> open_rows k d (live_alerts w) = []"
    using unread_fold [of w "[]" "chunks resolve_chunk_size (uniq ds)" k d] by (metis length_0_conv)
  then show ?thesis using False by (simp add: resolveMutedMetricAlerts_def Let_def case_prod_unfold open_rows_recovered) blast
qed

text \<open>The same with the tables of this theory in the state.\<close>

lemma mr_rows_of_view:
  fixes w w' :: "'a mr_db_scheme"
  assumes "mr_view w' = mr_view w"
  shows "metric_rows w' = metric_rows w" "group_alert_flags w' = group_alert_flags w" "threshold_rows w' = threshold_rows w"
    "global_thresholds w' = global_thresholds w" "tenant_layers w' = tenant_layers w" "threshold_groups w' = threshold_groups w"
    "devices w' = devices w" "group_closure w' = group_closure w"
  using assms by (cases w; cases w'; simp add: mr_view_def)+

definition all_thresholds :: "'a mr_db_scheme \<Rightarrow> nat \<Rightarrow> resolved_thresholds option" where
  "all_thresholds w = thresholdResolveMany (threshold_rows w) (global_thresholds w) (tenant_layers w) (group_index_of (threshold_groups w))"

lemma map_of_rev_filter: "P k \<Longrightarrow> map_of (rev (map (\<lambda>r. (f r, g r)) (filter (\<lambda>r. P (f r)) rows))) k = map_of (rev (map (\<lambda>r. (f r, g r)) rows)) k"
  by (induction rows rule: rev_induct) auto

lemma chunk_thresholds_all: "d \<in> set ids \<Longrightarrow> chunk_thresholds ids w d = all_thresholds w d"
  unfolding chunk_thresholds_def all_thresholds_def thresholdResolveMany_def by (rule map_of_rev_filter)

lemma rebaseline_level_cong: "th (mr_id x) = th' (mr_id x) \<Longrightarrow> rebaseline_level th w x = rebaseline_level th' w x"
  by (simp add: rebaseline_level_def)

lemma processChunk_effect:
  assumes "keyed mr_id (metric_rows w)"
  shows "metric_rows (fst (processChunk ids w)) = map (\<lambda>x. if mr_id x \<in> set ids then rebased_row (all_thresholds w) w x else x) (metric_rows w) \<and>
    mr_view ((fst (processChunk ids w))\<lparr>metric_rows := []\<rparr>) = mr_view (w\<lparr>metric_rows := []\<rparr>) \<and>
    (open_rows k d (live_alerts (fst (processChunk ids w))) = [] \<longleftrightarrow> open_rows k d (live_alerts w) = [] \<or>
       (k = KMetric \<and> d \<in> set ids \<and> (\<exists>x \<in> set (metric_rows w). mr_id x = d \<and> ends_incident (all_thresholds w) w x)))"
proof -
  let ?rs = "filter (\<lambda>r. mr_id r \<in> set ids) (metric_rows w)"
  let ?th = "chunk_thresholds ids w"
  let ?w1 = "w\<lparr>metric_rows := map (\<lambda>x. if x \<in> set ?rs then rebased_row ?th w x else x) (metric_rows w)\<rparr>"
  let ?ds = "map mr_id (filter (ends_incident ?th w) ?rs)"
  have "distinct (map mr_id ?rs)" using assms by (simp add: keyed_def distinct_map_filter)
  then obtain n where f: "foldl (store_level ?th) (w, 0, []) ?rs = (?w1, n, ?ds)"
    using store_levels [OF assms, of ?rs ?th 0 "[]"] by auto
  have lev: "rebaseline_level ?th w x = rebaseline_level (all_thresholds w) w x" if "mr_id x \<in> set ids" for x
    by (rule rebaseline_level_cong) (simp add: chunk_thresholds_all that)
  have rows: "metric_rows ?w1 = map (\<lambda>x. if mr_id x \<in> set ids then rebased_row (all_thresholds w) w x else x) (metric_rows w)"
    using lev by (auto simp: rebased_row_def)
  have ds: "d \<in> set ?ds \<longleftrightarrow> d \<in> set ids \<and> (\<exists>x \<in> set (metric_rows w). mr_id x = d \<and> ends_incident (all_thresholds w) w x)" for d
    using lev by (auto simp: ends_incident_def)
  have w': "fst (processChunk ids w) = (if ?ds = [] then ?w1 else fst (resolveMutedMetricAlerts ?ds ?w1))"
    by (simp add: processChunk_def f Let_def case_prod_unfold)
  show ?thesis
  proof (cases "?ds = []")
    case True
    then have e: "fst (processChunk ids w) = ?w1" using w' by simp
    have "\<not> (d \<in> set ids \<and> (\<exists>x \<in> set (metric_rows w). mr_id x = d \<and> ends_incident (all_thresholds w) w x))" using ds [of d] unfolding True by simp
    then show ?thesis unfolding e rows by (auto simp: mr_view_def)
  next
    case False
    then have e: "fst (processChunk ids w) = fst (resolveMutedMetricAlerts ?ds ?w1)" using w' by simp
    note v = muted_view [of ?ds ?w1]
    have "mr_view (w'\<lparr>metric_rows := []\<rparr>) = mr_view (w1\<lparr>metric_rows := []\<rparr>)" if "mr_view w' = mr_view w1" for w' w1 :: "'a mr_db_scheme"
      using that by (cases w'; cases w1) (simp add: mr_view_def)
    from this [OF v] have "mr_view ((fst (processChunk ids w))\<lparr>metric_rows := []\<rparr>) = mr_view (w\<lparr>metric_rows := []\<rparr>)"
      unfolding e by (simp add: mr_view_def)
    moreover have "live_alerts ?w1 = live_alerts w" by simp
    ultimately show ?thesis using mr_rows_of_view(1) [OF v] rows muted_open_rows [of k d ?ds ?w1] ds [of d] unfolding e by simp
  qed
qed

section \<open>The whole job\<close>

text \<open>The rows a scope selects.\<close>

definition in_scope :: "rebaseline_scope \<Rightarrow> 'a mr_db_scheme \<Rightarrow> metric_row \<Rightarrow> bool" where
  "in_scope scope w r \<longleftrightarrow> alerting r \<and>
     (case scope of
        ScopeAll \<Rightarrow> True
      | ScopeTenant t \<Rightarrow> (\<exists>d. device_of w r = Some d \<and> dev_tenant d = t)
      | ScopeSubtree g \<Rightarrow> (\<exists>d g'. device_of w r = Some d \<and> dev_group d = Some g' \<and> (\<exists>c \<in> set (group_closure w). cl_anc c = g \<and> cl_desc c = g'))
      | ScopeDevices ids \<Rightarrow> mr_id r \<in> set ids)"

lemma set_candidates:
  assumes "keyed mr_id (metric_rows w)" and "r \<in> set (metric_rows w)"
  shows "mr_id r \<in> set (candidateIds scope w) \<longleftrightarrow> in_scope scope w r"
proof -
  have key: "mr_id r \<in> mr_id ` {x \<in> set (metric_rows w). P x} \<longleftrightarrow> P r" for P
    using assms by (auto simp: keyed_def distinct_map inj_on_def)
  have set: "set (map mr_id (filter P (filter alerting (metric_rows w)))) = mr_id ` {x \<in> set (metric_rows w). alerting x \<and> P x}" for P by auto
  show ?thesis
  proof (cases scope)
    case (ScopeDevices ids)
    have "mr_id r \<in> set (candidateIds scope w) \<longleftrightarrow>
        (\<exists>c \<in> set (chunks rebaseline_chunk (uniq ids)). mr_id r \<in> mr_id ` {x \<in> set (metric_rows w). alerting x \<and> mr_id x \<in> set c})"
      by (simp add: candidateIds_def ScopeDevices Let_def)
    also have "\<dots> \<longleftrightarrow> (\<exists>c \<in> set (chunks rebaseline_chunk (uniq ids)). alerting r \<and> mr_id r \<in> set c)" unfolding key ..
    also have "\<dots> \<longleftrightarrow> alerting r \<and> mr_id r \<in> set (concat (chunks rebaseline_chunk (uniq ids)))" by auto
    finally show ?thesis by (simp add: concat_chunks rebaseline_chunk_def in_scope_def ScopeDevices)
  next
    case ScopeAll
    then show ?thesis using key [of alerting] by (simp add: candidateIds_def in_scope_def)
  next
    case (ScopeTenant t)
    have "candidateIds scope w = map mr_id (filter (\<lambda>r. case device_of w r of None \<Rightarrow> False | Some d \<Rightarrow> dev_tenant d = t) (filter alerting (metric_rows w)))"
      by (simp only: candidateIds_def ScopeTenant Let_def rebaseline_scope.case)
    then have "mr_id r \<in> set (candidateIds scope w) \<longleftrightarrow> alerting r \<and> (case device_of w r of None \<Rightarrow> False | Some d \<Rightarrow> dev_tenant d = t)"
      by (simp only: set key)
    then show ?thesis by (auto simp: in_scope_def ScopeTenant split: option.splits)
  next
    case (ScopeSubtree g)
    let ?P = "\<lambda>r. case device_of w r of None \<Rightarrow> False | Some d \<Rightarrow> (case dev_group d of None \<Rightarrow> False
                   | Some g' \<Rightarrow> list_ex (\<lambda>c. cl_anc c = g \<and> cl_desc c = g') (group_closure w))"
    have "candidateIds scope w = map mr_id (filter ?P (filter alerting (metric_rows w)))"
      by (simp only: candidateIds_def ScopeSubtree Let_def rebaseline_scope.case)
    then have "mr_id r \<in> set (candidateIds scope w) \<longleftrightarrow> alerting r \<and> ?P r" by (simp only: set key)
    then show ?thesis by (auto simp: in_scope_def ScopeSubtree list_ex_iff split: option.splits)
  qed
qed

lemma distinct_candidates:
  assumes "keyed mr_id (metric_rows w)"
  shows "distinct (candidateIds scope w)"
proof -
  have one: "distinct (map mr_id (filter P (filter alerting (metric_rows w))))" for P
    using assms by (simp add: keyed_def distinct_map_filter)
  have "distinct (concat (map (\<lambda>c. map mr_id (filter (\<lambda>r. mr_id r \<in> set c) (filter alerting (metric_rows w)))) cs))" if "distinct (concat cs)" for cs
    using that by (induction cs) (use one in auto)
  then have "distinct (concat (map (\<lambda>c. map mr_id (filter (\<lambda>r. mr_id r \<in> set c) (filter alerting (metric_rows w)))) (chunks rebaseline_chunk (uniq ids))))" for ids
    by (simp add: concat_chunks rebaseline_chunk_def)
  with one one [of "\<lambda>r. True"] show ?thesis by (cases scope) (simp_all add: candidateIds_def Let_def)
qed

text \<open>The chunks change different rows.\<close>

lemma rebased_cong:
  fixes w w' :: "'a mr_db_scheme"
  assumes "mr_view (w'\<lparr>metric_rows := []\<rparr>) = mr_view (w\<lparr>metric_rows := []\<rparr>)"
  shows "all_thresholds w' = all_thresholds w" "rebaseline_level th w' x = rebaseline_level th w x"
    "rebased_row th w' x = rebased_row th w x" "ends_incident th w' x = ends_incident th w x"
proof -
  note v = mr_rows_of_view [OF assms, simplified]
  show "all_thresholds w' = all_thresholds w" by (simp add: all_thresholds_def v)
  have f: "group_flag w' d = group_flag w d" for d by (simp add: group_flag_def device_by_id_def v split: option.split)
  show l: "rebaseline_level th w' x = rebaseline_level th w x" by (simp add: rebaseline_level_def f)
  show "rebased_row th w' x = rebased_row th w x" "ends_incident th w' x = ends_incident th w x" by (simp_all add: rebased_row_def ends_incident_def l)
qed

lemma run_effect:
  assumes "keyed mr_id (metric_rows w)" and "distinct (concat cs)"
  shows "metric_rows (foldl (\<lambda>w ids. fst (processChunk ids w)) w cs) =
      map (\<lambda>x. if mr_id x \<in> set (concat cs) then rebased_row (all_thresholds w) w x else x) (metric_rows w) \<and>
    (open_rows k d (live_alerts (foldl (\<lambda>w ids. fst (processChunk ids w)) w cs)) = [] \<longleftrightarrow> open_rows k d (live_alerts w) = [] \<or>
       (k = KMetric \<and> d \<in> set (concat cs) \<and> (\<exists>x \<in> set (metric_rows w). mr_id x = d \<and> ends_incident (all_thresholds w) w x)))"
  using assms
proof (induction cs arbitrary: w)
  case (Cons c cs)
  let ?w = "fst (processChunk c w)"
  note p = processChunk_effect [OF Cons.prems(1), of c]
  have rows: "metric_rows ?w = map (\<lambda>x. if mr_id x \<in> set c then rebased_row (all_thresholds w) w x else x) (metric_rows w)" using p by blast
  have v: "mr_view (?w\<lparr>metric_rows := []\<rparr>) = mr_view (w\<lparr>metric_rows := []\<rparr>)" using p by blast
  have ids: "map mr_id (metric_rows ?w) = map mr_id (metric_rows w)" unfolding rows by simp
  have k: "keyed mr_id (metric_rows ?w)" using Cons.prems(1) unfolding keyed_def by (simp only: ids)
  have dis: "\<not> (i \<in> set c \<and> i \<in> set (concat cs))" for i using Cons.prems(2) by auto
  note ih = Cons.IH [OF k, unfolded rebased_cong [OF v]] and later = rows
  have "metric_rows (foldl (\<lambda>w ids. fst (processChunk ids w)) w (c # cs)) =
      map (\<lambda>x. if mr_id x \<in> set (concat (c # cs)) then rebased_row (all_thresholds w) w x else x) (metric_rows w)"
    using ih Cons.prems(2) dis by (auto simp: rows)
  moreover have "(\<exists>x \<in> set (metric_rows ?w). mr_id x = d \<and> ends_incident (all_thresholds w) w x) \<longleftrightarrow>
      (\<exists>x \<in> set (metric_rows w). mr_id x = d \<and> ends_incident (all_thresholds w) w x)" if "d \<in> set (concat cs)"
    using that dis by (auto simp: rows image_iff)
  then have "open_rows k d (live_alerts (foldl (\<lambda>w ids. fst (processChunk ids w)) w (c # cs))) = [] \<longleftrightarrow> open_rows k d (live_alerts w) = [] \<or>
       (k = KMetric \<and> d \<in> set (concat (c # cs)) \<and> (\<exists>x \<in> set (metric_rows w). mr_id x = d \<and> ends_incident (all_thresholds w) w x))"
    using ih Cons.prems(2) p [of k d] by auto
  ultimately show ?case by blast
qed simp

text \<open>
  C35. A re-baseline stores, in every row its scope selects and nowhere else, the level of the breaches whose alerts
  are on - only when that lowers the stored level while the full evaluation is still bad - and resolves the metric
  incident of exactly the devices that drop to ok; no other incident is touched, however the devices fall into
  chunks.
\<close>

theorem rebaseline_exact:
  assumes "keyed mr_id (metric_rows w)"
  shows "metric_rows (rebaseline_run scope w) =
      map (\<lambda>x. if in_scope scope w x then rebased_row (all_thresholds w) w x else x) (metric_rows w) \<and>
    (open_rows k d (live_alerts (rebaseline_run scope w)) = [] \<longleftrightarrow> open_rows k d (live_alerts w) = [] \<or>
       (k = KMetric \<and> (\<exists>x \<in> set (metric_rows w). mr_id x = d \<and> in_scope scope w x \<and> ends_incident (all_thresholds w) w x)))"
proof -
  have cs: "concat (chunks rebaseline_chunk (candidateIds scope w)) = candidateIds scope w" by (simp add: concat_chunks rebaseline_chunk_def)
  note run = run_effect [of w "chunks rebaseline_chunk (candidateIds scope w)" k d, unfolded cs, OF assms distinct_candidates [OF assms]]
  show ?thesis unfolding rebaseline_run_def using run set_candidates [OF assms, of _ scope] by auto
qed

section \<open>The push after the job\<close>

lemma stored_truncate: "stored_level (metric_state.truncate r) = row_level r" "ms_latest (metric_state.truncate r) = ms_latest r"
  by (simp_all add: stored_level_def row_level_def metric_state.defs)

text \<open>
  After the re-baseline, a push that reports the same metrics sends nothing for a device whose level the job
  lowered, and sends "back to normal" only when the device is back to normal with every alert counted: a switch
  never causes a recovery message.
\<close>

theorem rebaseline_silences:
  assumes "alerting x" and "alertsEnabled (mr_enabled x) (group_flag w (mr_id x))" and "th (mr_id x) = Some t" and "ms_latest x = Some m"
  defines "e \<equiv> snd (metric_push (metric_state.truncate (rebased_row th w x)) (Some m) (Some t))"
  shows "(rebaseline_level th w x \<noteq> None \<longrightarrow> pe_notify e = None) \<and> (pe_notify e = Some Recovery \<longrightarrow> fst (computeMetricStatus (Some m) t) = Ok)"
proof -
  let ?a = "worstLevel (alert_breaches m t)"
  let ?full = "fst (computeMetricStatus (Some m) t)"
  obtain prev where prev: "row_level x = Some prev" "prev = Warning \<or> prev = Critical" using assms(1) by (auto simp: alerting_def)
  have lev: "rebaseline_level th w x = map_option (\<lambda>nxt. (prev, nxt)) (rebaselineAlertLevel prev ?a ?full)"
    using assms(2,3,4) prev(1) by (simp add: rebaseline_level_def Let_def alert_breaches_def)
  show ?thesis
  proof (cases "rebaselineAlertLevel prev ?a ?full")
    case (Some nxt)
    then have n: "nxt = ?a" by (auto simp: rebaselineAlertLevel_def split: if_splits)
    let ?s = "metric_state.truncate (rebased_row th w x)"
    have "stored_level ?s = Some ?a" by (simp add: stored_truncate rebased_row_def lev Some n row_level_def)
    then have "effective_prev ?s m t = Some ?a"
      by (simp add: effective_prev_def inlineRebaselinePrevAlert_def split: option.split)
    then have "pe_notify e = None" unfolding e_def metric_push_evaluated_effects(2) by simp
    then show ?thesis by simp
  next
    case None
    then have same: "rebased_row th w x = x" by (simp add: rebased_row_def lev)
    have "?full = Ok" if r: "pe_notify e = Some Recovery"
    proof -
      have "?a = Ok" using r unfolding e_def metric_push_evaluated_effects(2) by (auto simp: Let_def recovered_def split: if_splits)
      then show ?thesis using None prev(2) by (auto simp: rebaselineAlertLevel_def split: if_splits)
    qed
    then show ?thesis using None by (simp add: lev)
  qed
qed

section \<open>The fingerprint of the switches\<close>

fun kind_name :: "metric_kind \<Rightarrow> string" where
  "kind_name Disk = ''disk''"
| "kind_name Cpu = ''cpu''"
| "kind_name Ram = ''ram''"

definition metric_kinds :: "metric_kind list" where "metric_kinds = [Disk, Cpu, Ram]"

fun kind_of :: "metric_kind \<Rightarrow> metric_thresholds \<Rightarrow> metric_threshold option" where
  "kind_of Disk t = mts_disk t"
| "kind_of Cpu t = mts_cpu t"
| "kind_of Ram t = mts_ram t"

definition switch_of :: "metric_threshold option \<Rightarrow> bool option" where
  "switch_of t = (case t of None \<Rightarrow> None | Some m \<Rightarrow> field_opt (mt_notify m))"

definition bool_name :: "bool \<Rightarrow> string" where
  "bool_name b = (if b then ''true'' else ''false'')"

definition kind_part :: "metric_thresholds option \<Rightarrow> metric_kind \<Rightarrow> string option" where
  "kind_part t k = map_option (\<lambda>n. kind_name k @ ''='' @ bool_name n) (switch_of (Option.bind t (kind_of k)))"

definition mounts_of :: "metric_thresholds option \<Rightarrow> (string \<times> metric_threshold option) list" where
  "mounts_of t = (case t of None \<Rightarrow> [] | Some m \<Rightarrow> (case mts_byMount m of None \<Rightarrow> [] | Some es \<Rightarrow> es))"

definition mount_switch :: "metric_thresholds option \<Rightarrow> string \<Rightarrow> bool option" where
  "mount_switch t k = switch_of (case map_of (mounts_of t) k of None \<Rightarrow> None | Some m \<Rightarrow> m)"

definition mount_part :: "metric_thresholds option \<Rightarrow> string \<Rightarrow> string option" where
  "mount_part t k = map_option (\<lambda>n. ''mount:'' @ k @ ''='' @ bool_name n) (mount_switch t k)"

definition signature_parts :: "metric_thresholds option \<Rightarrow> string list" where
  "signature_parts t = List.map_filter (kind_part t) metric_kinds @ List.map_filter (mount_part t) (sort (map fst (mounts_of t)))"

definition notifySignature :: "metric_thresholds option \<Rightarrow> string" where
  "notifySignature t = join_with ''|'' (signature_parts t)"

definition notifyChanged :: "metric_thresholds option \<Rightarrow> metric_thresholds option \<Rightarrow> bool" where
  "notifyChanged before after \<longleftrightarrow> notifySignature before \<noteq> notifySignature after"

text \<open>Two layers set the same switches.\<close>

definition same_switches :: "metric_thresholds option \<Rightarrow> metric_thresholds option \<Rightarrow> bool" where
  "same_switches a b \<longleftrightarrow>
     (\<forall>k. switch_of (Option.bind a (kind_of k)) = switch_of (Option.bind b (kind_of k))) \<and> (\<forall>m. mount_switch a m = mount_switch b m)"

definition clean_mounts :: "metric_thresholds option \<Rightarrow> bool" where
  "clean_mounts t \<longleftrightarrow> distinct (map fst (mounts_of t)) \<and> (\<forall>m \<in> set (mounts_of t). CHR ''|'' \<notin> set (fst m))"

lemma mount_text_inject: "''mount:'' @ k @ ''='' @ bool_name n = ''mount:'' @ k' @ ''='' @ bool_name n' \<longleftrightarrow> k = k' \<and> n = n'"
proof (cases "n = n'")
  case False
  then show ?thesis by (cases n; cases n') (auto simp: bool_name_def dest: arg_cong [of _ _ rev])
qed simp

lemma part_shapes:
  "kind_part t k = Some s \<Longrightarrow> \<exists>n. switch_of (Option.bind t (kind_of k)) = Some n \<and> s = kind_name k @ ''='' @ bool_name n"
  "mount_part t m = Some s \<Longrightarrow> \<exists>n. mount_switch t m = Some n \<and> s = ''mount:'' @ m @ ''='' @ bool_name n"
  by (auto simp: kind_part_def mount_part_def)

lemma mount_switch_known: "mount_switch t m \<noteq> None \<Longrightarrow> m \<in> fst ` set (mounts_of t)"
  by (auto simp: mount_switch_def switch_of_def split: option.splits dest: map_of_SomeD) (metis fst_conv image_eqI map_of_SomeD)

lemma set_map_filter_opt: "s \<in> set (List.map_filter f xs) \<longleftrightarrow> (\<exists>x \<in> set xs. f x = Some s)"
  by (induction xs) (auto simp: map_filter_simps split: option.split)

lemma set_parts: "s \<in> set (signature_parts t) \<longleftrightarrow> (\<exists>k. kind_part t k = Some s) \<or> (\<exists>m. mount_part t m = Some s)"
proof -
  have k: "k \<in> set metric_kinds" for k by (cases k) (simp_all add: metric_kinds_def)
  have m: "mount_part t m = Some s \<Longrightarrow> m \<in> set (sort (map fst (mounts_of t)))" for m using mount_switch_known [of t m] by (auto simp: mount_part_def)
  show ?thesis using k m by (auto simp: signature_parts_def set_map_filter_opt)
qed

lemma kind_text_inject: "kind_name k @ ''='' @ bool_name n = kind_name k' @ ''='' @ bool_name n' \<longleftrightarrow> k = k' \<and> n = n'"
  by (cases k; cases k'; cases n; cases n') (simp_all add: bool_name_def)

lemma kind_not_mount: "kind_name k @ ''='' @ s \<noteq> ''mount:'' @ r"
  by (cases k) simp_all

lemma parts_switches:
  "kind_name k @ ''='' @ bool_name n \<in> set (signature_parts t) \<longleftrightarrow> switch_of (Option.bind t (kind_of k)) = Some n"
  "''mount:'' @ m @ ''='' @ bool_name n \<in> set (signature_parts t) \<longleftrightarrow> mount_switch t m = Some n"
proof -
  show "kind_name k @ ''='' @ bool_name n \<in> set (signature_parts t) \<longleftrightarrow> switch_of (Option.bind t (kind_of k)) = Some n"
    unfolding set_parts kind_part_def mount_part_def map_option_eq_Some using kind_text_inject kind_not_mount by metis
  show "''mount:'' @ m @ ''='' @ bool_name n \<in> set (signature_parts t) \<longleftrightarrow> mount_switch t m = Some n"
    unfolding set_parts kind_part_def mount_part_def map_option_eq_Some using mount_text_inject kind_not_mount by metis
qed

lemma part_text:
  assumes "clean_mounts t" and "s \<in> set (signature_parts t)"
  shows "s \<noteq> [] \<and> CHR ''|'' \<notin> set s"
proof -
  have b: "CHR ''|'' \<notin> set (bool_name n)" for n by (simp add: bool_name_def)
  have k: "CHR ''|'' \<notin> set (kind_name k)" for k by (cases k) simp_all
  from assms(2) show ?thesis unfolding set_parts
  proof
    assume "\<exists>k. kind_part t k = Some s"
    then show ?thesis using b k by (auto simp: kind_part_def)
  next
    assume "\<exists>m. mount_part t m = Some s"
    then obtain m n where m: "mount_switch t m = Some n" "s = ''mount:'' @ m @ ''='' @ bool_name n" by (auto simp: mount_part_def)
    then have "CHR ''|'' \<notin> set m" using mount_switch_known [of t m] assms(1) by (auto simp: clean_mounts_def)
    with m(2) b show ?thesis by auto
  qed
qed

lemma signature_parts_inject:
  assumes "clean_mounts a" and "clean_mounts b" and "notifySignature a = notifySignature b"
  shows "signature_parts a = signature_parts b"
proof -
  have split: "split_on CHR ''|'' (notifySignature t) = (if signature_parts t = [] then [[]] else signature_parts t)" if "clean_mounts t" for t
    using split_join [of "signature_parts t" "CHR ''|''"] part_text [OF that] by (simp add: notifySignature_def)
  have "signature_parts t \<noteq> [[]]" if "clean_mounts t" for t using part_text [OF that] by fastforce
  with split [OF assms(1)] split [OF assms(2)] assms show ?thesis by (metis (full_types))
qed

lemma map_filter_alt: "List.map_filter f xs = map (\<lambda>x. the (f x)) (filter (\<lambda>x. f x \<noteq> None) xs)"
  by (induction xs) (auto simp: map_filter_simps)

lemma switches_parts:
  assumes "clean_mounts a" and "clean_mounts b" and "same_switches a b"
  shows "signature_parts a = signature_parts b"
proof -
  have k: "kind_part a = kind_part b" and m: "mount_part a = mount_part b"
    using assms(3) by (simp_all add: same_switches_def kind_part_def mount_part_def fun_eq_iff)
  have keys: "set (filter (\<lambda>x. mount_part t x \<noteq> None) (sort (map fst (mounts_of t)))) = {x. mount_part t x \<noteq> None}" for t
    using mount_switch_known [of t] by (auto simp: mount_part_def)
  have "filter (\<lambda>x. mount_part b x \<noteq> None) (sort (map fst (mounts_of a))) = filter (\<lambda>x. mount_part b x \<noteq> None) (sort (map fst (mounts_of b)))"
  proof (rule sorted_distinct_set_unique)
    show "set (filter (\<lambda>x. mount_part b x \<noteq> None) (sort (map fst (mounts_of a)))) = set (filter (\<lambda>x. mount_part b x \<noteq> None) (sort (map fst (mounts_of b))))"
      using keys [of a] keys [of b] unfolding m by simp
  qed (use assms(1,2) in \<open>auto simp: clean_mounts_def intro: sorted_filter [where f = id, simplified]\<close>)
  then show ?thesis unfolding signature_parts_def k m map_filter_alt by simp
qed

text \<open>
  A saved layer triggers a re-baseline exactly when it sets other alerts switches, per metric or per mount, than
  before - whatever the order of the mounts and whatever else changed - as long as no mount name contains a bar.
\<close>

theorem notify_changed_exact:
  assumes "clean_mounts a" and "clean_mounts b"
  shows "notifyChanged a b \<longleftrightarrow> \<not> same_switches a b"
proof -
  have ext: "x = y" if "\<And>n. x = Some n \<longleftrightarrow> y = Some n" for x y :: "bool option" using that by (metis option.exhaust)
  have "same_switches a b" if eq: "signature_parts a = signature_parts b"
    unfolding same_switches_def
  proof (intro conjI allI)
    show "switch_of (Option.bind a (kind_of k)) = switch_of (Option.bind b (kind_of k))" for k
      by (rule ext) (simp only: parts_switches(1) [symmetric] eq)
    show "mount_switch a m = mount_switch b m" for m by (rule ext) (simp only: parts_switches(2) [symmetric] eq)
  qed
  then have "signature_parts a = signature_parts b \<longleftrightarrow> same_switches a b" using switches_parts [OF assms] by (rule iffI)
  moreover have "notifySignature a = notifySignature b \<longleftrightarrow> signature_parts a = signature_parts b"
    by (rule iffI [OF signature_parts_inject [OF assms]]) (simp_all only: notifySignature_def)
  ultimately show ?thesis by (simp only: notifyChanged_def)
qed

text \<open>An example: device 4 reports 99 percent of CPU, and its CPU alerts were just switched off.\<close>

definition ex_muted :: metric_thresholds where
  "ex_muted = \<lparr>mts_disk = None, mts_cpu = Some \<lparr>mt_warn = Absent, mt_crit = Absent, mt_notify = Val False\<rparr>, mts_ram = None, mts_byMount = None\<rparr>"

definition ex_unmuted :: metric_thresholds where
  "ex_unmuted = ex_muted\<lparr>mts_cpu := None\<rparr>"

definition ex_metric_row :: metric_row where
  "ex_metric_row = metric_state.extend (ex_state Critical) \<lparr>mr_id = 4, mr_enabled = None\<rparr>"

definition ex_mr :: mr_db where
  "ex_mr = la_db.extend ex_la \<lparr>metric_rows = [ex_metric_row], group_alert_flags = [], threshold_rows =
     [\<lparr>dt_id = 4, dt_tenant = 2, dt_group = None, dt_hostname = Some ''pc'', dt_display_name = None, dt_override = Some ex_muted, dt_group_thresholds = None,
       dt_group_name = None\<rparr>], global_thresholds = None, tenant_layers = (\<lambda>_. \<lparr>tl_thresholds = None, tl_name = None\<rparr>), threshold_groups = []\<rparr>"

definition ex_thr :: resolved_thresholds where "ex_thr = the (all_thresholds ex_mr 4)"

lemma ex_rebase: "rebaselineAlertLevel Critical (worstLevel (alert_breaches (ex_cpu 99) ex_thr)) (fst (computeMetricStatus (Some (ex_cpu 99)) ex_thr)) = Some Ok"
  by code_simp

lemma ex_mr_row: "metric_rows ex_mr = [ex_metric_row]" "mr_id ex_metric_row = 4" "mr_enabled ex_metric_row = None" "row_level ex_metric_row = Some Critical"
  "ms_latest ex_metric_row = Some (ex_cpu 99)"
  by (simp_all add: ex_mr_def la_db.defs ex_metric_row_def metric_state.defs ex_state_def row_level_def)

lemma ex_mr_known: "all_thresholds ex_mr 4 = Some ex_thr"
proof -
  have "all_thresholds ex_mr 4 \<noteq> None" by (simp add: all_thresholds_def thresholdResolveMany_def ex_mr_def la_db.defs)
  then show ?thesis by (simp add: ex_thr_def)
qed

lemma ex_mr_enabled: "alertsEnabled None (group_flag ex_mr 4)"
  by (simp add: group_flag_def device_by_id_def ex_mr_def la_db.defs alertsEnabled_def split: option.split)

lemma ex_mr_level: "rebaseline_level (all_thresholds ex_mr) ex_mr ex_metric_row = Some (Critical, Ok)"
  using ex_rebase ex_mr_enabled by (simp add: rebaseline_level_def ex_mr_row ex_mr_known Let_def alert_breaches_def)

theorem rebaseline_exact_witness: "map ms_alert (metric_rows (rebaseline_run ScopeAll ex_mr)) = [Some Ok]"
proof -
  have "keyed mr_id (metric_rows ex_mr)" by (simp add: ex_mr_row keyed_def)
  from rebaseline_exact [OF this, of ScopeAll] show ?thesis
    by (simp add: ex_mr_row in_scope_def alerting_def rebased_row_def ex_mr_level)
qed

theorem rebaseline_silences_witness:
  "pe_notify (snd (metric_push (metric_state.truncate (rebased_row (all_thresholds ex_mr) ex_mr ex_metric_row)) (Some (ex_cpu 99)) (Some ex_thr))) = None"
proof -
  have "alerting ex_metric_row" "alertsEnabled (mr_enabled ex_metric_row) (group_flag ex_mr (mr_id ex_metric_row))" "all_thresholds ex_mr (mr_id ex_metric_row) = Some ex_thr"
    by (simp_all add: alerting_def ex_mr_row ex_mr_enabled ex_mr_known)
  with rebaseline_silences [where x = ex_metric_row and w = ex_mr and th = "all_thresholds ex_mr" and t = ex_thr and m = "ex_cpu 99"]
  show ?thesis using ex_mr_row(5) ex_mr_level by simp
qed

theorem notify_changed_exact_witness: "notifyChanged (Some ex_unmuted) (Some ex_muted)"
proof -
  have "clean_mounts (Some ex_unmuted)" "clean_mounts (Some ex_muted)" by (simp_all add: clean_mounts_def mounts_of_def ex_unmuted_def ex_muted_def)
  moreover have "\<not> same_switches (Some ex_unmuted) (Some ex_muted)"
    by (auto simp: same_switches_def ex_unmuted_def ex_muted_def switch_of_def intro!: exI [of _ Cpu])
  ultimately show ?thesis using notify_changed_exact by blast
qed

end
