(* ===== verification/Maintenance.thy ===== *)
theory Maintenance
  imports Approval "HOL-Library.Char_ord" "HOL-Library.List_Lexorder"
begin

text \<open>
  Maintenance windows (\<^verbatim>\<open>server/src/services/maintenance.service.ts\<close> and \<^verbatim>\<open>controllers/maintenance.controller.ts\<close>):
  when a window is active, which windows reach a device, the cached, single and batch answers, the writes of the HTTP
  handlers and the background jobs. The record \<open>mt_env\<close> holds what is not the server's code: \<open>Intl\<close> (the hour, minute
  and weekday in a time zone, \<open>None\<close> when it throws), \<open>Date\<close> parsing and printing, the text of a number that is not
  an integer, whether the driver can store a channel list in its \<^verbatim>\<open>jsonb\<close> column, and the registered channel plugins.
  The texts \<open>Infinity\<close> and hexadecimal numbers are not read as times.
\<close>

section \<open>Rows\<close>

datatype mw_scope = WGlobal | WGroup | WDevice

datatype mw_schedule = OneTime | Recurring

record recurrence_rule =
  rule_frequency :: "string option"
  rule_days :: "int list option"
  rule_time :: "string option"
  rule_duration :: "rat jsprop"

record window_row =
  mw_id :: nat
  mw_tenant :: nat
  mw_name :: string
  mw_scope :: mw_scope
  mw_scope_id :: "nat option"
  mw_schedule :: mw_schedule
  mw_starts :: int
  mw_ends :: int
  mw_rule :: "recurrence_rule option"
  mw_timezone :: string
  mw_channels :: "nat list option"
  mw_dedup :: "string option"
  mw_created_by :: "nat option"
  mw_created :: int

record disable_row =
  wd_window :: nat
  wd_scope :: mw_scope
  wd_scope_id :: nat

record maintenance_notice =
  mn_channel :: nat
  mn_name :: string
  mn_old :: string
  mn_new :: string
  mn_message :: string
  mn_at :: int

record mw_db = nt_db +
  maintenance_windows :: "window_row list"
  window_seq :: nat
  window_disables :: "disable_row list"
  maintenanceCache :: "(string \<times> (bool \<times> int)) list"
  maintenance_sent :: "maintenance_notice list"

record mt_env =
  mt_time :: "string \<Rightarrow> int \<Rightarrow> (string option \<times> string option) option"
  mt_weekday :: "string \<Rightarrow> int \<Rightarrow> string option option"
  mt_number :: "rat \<Rightarrow> string"
  mt_iso :: "int \<Rightarrow> string"
  mt_date :: "string \<Rightarrow> int option"
  mt_stores :: "nat list \<Rightarrow> bool"
  mt_plugin :: "string \<Rightarrow> bool"

definition empty_rule :: recurrence_rule where
  "empty_rule = \<lparr>rule_frequency = None, rule_days = None, rule_time = None, rule_duration = Absent\<rparr>"

definition rowToWindow :: "window_row \<Rightarrow> window_row" where
  "rowToWindow r = r\<lparr>mw_rule := Some (case mw_rule r of None \<Rightarrow> empty_rule | Some x \<Rightarrow> x),
     mw_channels := Some (case mw_channels r of None \<Rightarrow> [] | Some x \<Rightarrow> x)\<rparr>"

definition window_rule :: "window_row \<Rightarrow> recurrence_rule" where
  "window_rule w = (case mw_rule w of None \<Rightarrow> empty_rule | Some x \<Rightarrow> x)"

definition window_channels :: "window_row \<Rightarrow> nat list" where
  "window_channels w = (case mw_channels w of None \<Rightarrow> [] | Some x \<Rightarrow> x)"

section \<open>Active windows\<close>

definition pad2 :: "string \<Rightarrow> string" where
  "pad2 s = replicate (2 - length s) CHR ''0'' @ s"

text \<open>\<open>String(n)\<close>, and the remainder of JavaScript, which has the sign of the dividend.\<close>

definition number_text :: "mt_env \<Rightarrow> rat \<Rightarrow> string" where
  "number_text env r =
     (if r \<noteq> of_int \<lfloor>r\<rfloor> then mt_number env r
      else if r < 0 then CHR ''-'' # show_nat (nat \<lfloor>- r\<rfloor>) else show_nat (nat \<lfloor>r\<rfloor>))"

definition js_rem :: "rat \<Rightarrow> rat \<Rightarrow> rat" where
  "js_rem x m = (let q = x / m in x - m * of_int (if q < 0 then \<lceil>q\<rceil> else \<lfloor>q\<rfloor>))"

definition getNowTimeInTz :: "mt_env \<Rightarrow> string \<Rightarrow> int \<Rightarrow> string" where
  "getNowTimeInTz env tz now =
     (case mt_time env tz now of
        None \<Rightarrow> ''00:00''
      | Some (h, m) \<Rightarrow> pad2 (case h of None \<Rightarrow> ''00'' | Some x \<Rightarrow> x) @ '':'' @ pad2 (case m of None \<Rightarrow> ''00'' | Some x \<Rightarrow> x))"

definition weekday_numbers :: "(string \<times> int) list" where
  "weekday_numbers = [(''Mon'', 0), (''Tue'', 1), (''Wed'', 2), (''Thu'', 3), (''Fri'', 4), (''Sat'', 5), (''Sun'', 6)]"

definition getNowDayOfWeekInTz :: "mt_env \<Rightarrow> string \<Rightarrow> int \<Rightarrow> int" where
  "getNowDayOfWeekInTz env tz now =
     (case mt_weekday env tz now of
        None \<Rightarrow> 0
      | Some wd \<Rightarrow> (case map_of weekday_numbers (case wd of None \<Rightarrow> [] | Some x \<Rightarrow> x) of None \<Rightarrow> 0 | Some n \<Rightarrow> n))"

definition isTimeInRange :: "string \<Rightarrow> string \<Rightarrow> string \<Rightarrow> bool" where
  "isTimeInRange currentTime startTime endTime \<longleftrightarrow>
     (if startTime \<le> endTime then currentTime \<ge> startTime \<and> currentTime \<le> endTime
      else currentTime \<ge> startTime \<or> currentTime \<le> endTime)"

text \<open>\<^verbatim>\<open>rule.time.split(':').map(Number)\<close>; a missing minute is \<open>undefined\<close>, not a number.\<close>

definition rule_start :: "string \<Rightarrow> (rat \<times> rat) option" where
  "rule_start t =
     (case map number_of_text (split_on CHR '':'' t) of
        Fin h # Fin m # _ \<Rightarrow> Some (h, m)
      | _ \<Rightarrow> None)"

definition rule_range :: "mt_env \<Rightarrow> rat \<Rightarrow> rat \<Rightarrow> rat \<Rightarrow> string \<times> string" where
  "rule_range env startHour startMin duration =
     (let startMinutes = startHour * 60 + startMin;
          endMinutes = startMinutes + duration;
          endHour = js_rem (of_int \<lfloor>endMinutes / 60\<rfloor>) 24;
          endMin = js_rem endMinutes 60
      in (pad2 (number_text env startHour) @ '':'' @ pad2 (number_text env startMin),
          pad2 (number_text env endHour) @ '':'' @ pad2 (number_text env endMin)))"

definition isWindowActive :: "mt_env \<Rightarrow> window_row \<Rightarrow> int \<Rightarrow> bool" where
  "isWindowActive env w now =
     (if mw_schedule w = OneTime then now \<ge> mw_starts w \<and> now \<le> mw_ends w
      else let rule = window_rule w in
        case (rule_time rule, rule_duration rule) of
          (None, _) \<Rightarrow> False
        | (Some t, d) \<Rightarrow>
            if t = [] \<or> d = Absent then False
            else case rule_start t of
              None \<Rightarrow> False
            | Some (h, m) \<Rightarrow>
                let (startTime, endTime) = rule_range env h m (case d of Val x \<Rightarrow> x | _ \<Rightarrow> 0);
                    inRange = isTimeInRange (getNowTimeInTz env (mw_timezone w) now) startTime endTime
                in if rule_frequency rule = Some ''daily'' then inRange
                   else if rule_frequency rule = Some ''weekly''
                   then (case rule_days rule of
                           None \<Rightarrow> False
                         | Some days \<Rightarrow> days \<noteq> [] \<and> getNowDayOfWeekInTz env (mw_timezone w) now \<in> set days \<and> inRange)
                   else False)"

section \<open>The cache\<close>

definition maintenance_ttl_ms :: int where "maintenance_ttl_ms = 60000"

definition getCached :: "string \<Rightarrow> 'a mw_db_scheme \<Rightarrow> 'a mw_db_scheme \<times> bool option" where
  "getCached k w =
     (case map_of (maintenanceCache w) k of
        None \<Rightarrow> (w, None)
      | Some (v, cachedAt) \<Rightarrow>
          if now_ms w - cachedAt > maintenance_ttl_ms then (w\<lparr>maintenanceCache := filter (\<lambda>e. fst e \<noteq> k) (maintenanceCache w)\<rparr>, None)
          else (w, Some v))"

definition setCache :: "string \<Rightarrow> bool \<Rightarrow> 'a mw_db_scheme \<Rightarrow> 'a mw_db_scheme" where
  "setCache k v w = w\<lparr>maintenanceCache := (k, (v, now_ms w)) # filter (\<lambda>e. fst e \<noteq> k) (maintenanceCache w)\<rparr>"

definition clear_cache :: "'a mw_db_scheme \<Rightarrow> 'a mw_db_scheme" where
  "clear_cache w = w\<lparr>maintenanceCache := []\<rparr>"

section \<open>Windows: reading and writing\<close>

definition has_unique_key :: "string list list \<Rightarrow> string list \<Rightarrow> bool" where
  "has_unique_key keys target \<longleftrightarrow> list_ex (\<lambda>k. set k = set target) keys"

text \<open>
  The unique keys of \<^verbatim>\<open>maintenance_window_disables\<close> and the type of the column \<^verbatim>\<open>notification_channels\<close>, as the migration
  declares them. \<open>ON CONFLICT\<close> needs a unique key over its columns and \<open>array_length\<close> an array; the database refuses the
  statement otherwise.
\<close>

definition disables_unique_keys :: "string list list" where
  "disables_unique_keys = [[''id'']]"

definition channels_column_type :: string where
  "channels_column_type = ''jsonb''"

datatype mw_error = MwRejected | MwNoConflictTarget | MwNoFunction

definition listWindows :: "nat \<Rightarrow> mw_scope option \<Rightarrow> nat option \<Rightarrow> 'a mw_db_scheme \<Rightarrow> window_row list" where
  "listWindows t sc i w =
     (let own = rev (sort_key mw_created (filter (\<lambda>r. mw_tenant r = t) (maintenance_windows w)));
          by_id = (\<lambda>r. case i of None \<Rightarrow> True | Some n \<Rightarrow> mw_scope_id r = Some n)
      in map rowToWindow (case sc of
           Some s \<Rightarrow> filter (\<lambda>r. mw_scope r = s \<and> (s \<noteq> WGlobal \<longrightarrow> by_id r)) own
         | None \<Rightarrow> filter by_id own))"

definition windowById :: "'a mw_db_scheme \<Rightarrow> nat \<Rightarrow> window_row option" where
  "windowById w i = map_option rowToWindow (find (\<lambda>r. mw_id r = i) (maintenance_windows w))"

definition getByIdScoped :: "'a mw_db_scheme \<Rightarrow> nat \<Rightarrow> nat \<Rightarrow> window_row option" where
  "getByIdScoped w i t =
     (case windowById w i of
        None \<Rightarrow> None
      | Some win \<Rightarrow> if t \<noteq> 1 \<and> mw_tenant win \<noteq> t then None else Some win)"

record window_data =
  wn_name :: string
  wn_scope :: string
  wn_scope_id :: "nat option"
  wn_schedule :: string
  wn_starts :: string
  wn_ends :: string
  wn_rule :: "recurrence_rule option"
  wn_timezone :: "string option"
  wn_channels :: "nat list option"
  wn_created_by :: "nat option"
  wn_tenant :: nat

fun scope_of_text :: "string \<Rightarrow> mw_scope option" where
  "scope_of_text s = map_of [(''global'', WGlobal), (''group'', WGroup), (''device'', WDevice)] s"

fun schedule_of_text :: "string \<Rightarrow> mw_schedule option" where
  "schedule_of_text s = map_of [(''one_time'', OneTime), (''recurring'', Recurring)] s"

text \<open>An unknown enumeration value, an invalid date or a channel list the column refuses is an error of the statement.\<close>

definition createWindow :: "mt_env \<Rightarrow> window_data \<Rightarrow> 'a mw_db_scheme \<Rightarrow> 'a mw_db_scheme \<times> (mw_error + window_row)" where
  "createWindow env d w =
     (let chans = (case wn_channels d of None \<Rightarrow> [] | Some x \<Rightarrow> x)
      in case (scope_of_text (wn_scope d), schedule_of_text (wn_schedule d), mt_date env (wn_starts d), mt_date env (wn_ends d)) of
           (Some sc, Some sch, Some st, Some en) \<Rightarrow>
             if \<not> mt_stores env chans then (w, Inl MwRejected)
             else let row = \<lparr>mw_id = window_seq w, mw_tenant = wn_tenant d, mw_name = wn_name d, mw_scope = sc, mw_scope_id = wn_scope_id d,
                         mw_schedule = sch, mw_starts = st, mw_ends = en,
                         mw_rule = Some (case wn_rule d of None \<Rightarrow> empty_rule | Some x \<Rightarrow> x),
                         mw_timezone = (case wn_timezone d of None \<Rightarrow> ''UTC'' | Some x \<Rightarrow> x), mw_channels = Some chans,
                         mw_dedup = None, mw_created_by = wn_created_by d, mw_created = now_ms w\<rparr>
                  in (clear_cache (w\<lparr>maintenance_windows := maintenance_windows w @ [row], window_seq := window_seq w + 1\<rparr>),
                      Inr (rowToWindow row))
         | _ \<Rightarrow> (w, Inl MwRejected))"

text \<open>The fields of an update that are not \<open>undefined\<close>; \<open>up_scope_id\<close> is \<open>None\<close> when the key is missing.\<close>

record window_patch =
  up_name :: "string option"
  up_scope :: "string option"
  up_scope_id :: "nat jsprop option"
  up_schedule :: "string option"
  up_starts :: "string option"
  up_ends :: "string option"
  up_rule :: "recurrence_rule option"
  up_timezone :: "string option"
  up_channels :: "nat list option"

definition or_else :: "'a option \<Rightarrow> 'a \<Rightarrow> 'a" where
  "or_else a b = (case a of None \<Rightarrow> b | Some x \<Rightarrow> x)"

definition empty_patch :: "window_patch \<Rightarrow> bool" where
  "empty_patch p \<longleftrightarrow> up_name p = None \<and> up_scope p = None \<and> up_scope_id p = None \<and> up_schedule p = None \<and> up_starts p = None \<and>
     up_ends p = None \<and> up_rule p = None \<and> up_timezone p = None \<and> up_channels p = None"

definition patch_valid :: "mt_env \<Rightarrow> window_patch \<Rightarrow> bool" where
  "patch_valid env p \<longleftrightarrow>
     (case up_scope p of None \<Rightarrow> True | Some s \<Rightarrow> scope_of_text s \<noteq> None) \<and>
     (case up_schedule p of None \<Rightarrow> True | Some s \<Rightarrow> schedule_of_text s \<noteq> None) \<and>
     (case up_starts p of None \<Rightarrow> True | Some s \<Rightarrow> mt_date env s \<noteq> None) \<and>
     (case up_ends p of None \<Rightarrow> True | Some s \<Rightarrow> mt_date env s \<noteq> None) \<and>
     (case up_channels p of None \<Rightarrow> True | Some c \<Rightarrow> mt_stores env c)"

definition apply_patch :: "mt_env \<Rightarrow> window_patch \<Rightarrow> window_row \<Rightarrow> window_row" where
  "apply_patch env p r =
     r\<lparr>mw_name := or_else (up_name p) (mw_name r),
       mw_scope := or_else (Option.bind (up_scope p) scope_of_text) (mw_scope r),
       mw_scope_id := (case up_scope_id p of None \<Rightarrow> mw_scope_id r | Some x \<Rightarrow> field_opt x),
       mw_schedule := or_else (Option.bind (up_schedule p) schedule_of_text) (mw_schedule r),
       mw_starts := or_else (Option.bind (up_starts p) (mt_date env)) (mw_starts r),
       mw_ends := or_else (Option.bind (up_ends p) (mt_date env)) (mw_ends r),
       mw_rule := (case up_rule p of None \<Rightarrow> mw_rule r | Some x \<Rightarrow> Some x),
       mw_timezone := or_else (up_timezone p) (mw_timezone r),
       mw_channels := (case up_channels p of None \<Rightarrow> mw_channels r | Some x \<Rightarrow> Some x)\<rparr>"

definition updateWindow ::
  "mt_env \<Rightarrow> nat \<Rightarrow> window_patch \<Rightarrow> 'a mw_db_scheme \<Rightarrow> 'a mw_db_scheme \<times> (mw_error + window_row option)" where
  "updateWindow env i p w =
     (if empty_patch p then (w, Inr (windowById w i))
      else if \<not> patch_valid env p then (w, Inl MwRejected)
      else let w1 = clear_cache (w\<lparr>maintenance_windows := tbl_update (\<lambda>r. mw_id r = i) (apply_patch env p) (maintenance_windows w)\<rparr>)
           in (w1, Inr (windowById w1 i)))"

text \<open>The disables of a deleted window go with it (CASCADE).\<close>

definition deleteWindows :: "(window_row \<Rightarrow> bool) \<Rightarrow> 'a mw_db_scheme \<Rightarrow> 'a mw_db_scheme" where
  "deleteWindows P w =
     (let gone = map mw_id (filter P (maintenance_windows w))
      in w\<lparr>maintenance_windows := tbl_delete P (maintenance_windows w),
           window_disables := tbl_delete (\<lambda>x. wd_window x \<in> set gone) (window_disables w)\<rparr>)"

definition deleteWindow :: "nat \<Rightarrow> 'a mw_db_scheme \<Rightarrow> 'a mw_db_scheme" where
  "deleteWindow i w = clear_cache (deleteWindows (\<lambda>r. mw_id r = i) w)"

definition disableWindowForScope ::
  "nat \<Rightarrow> mw_scope \<Rightarrow> nat \<Rightarrow> 'a mw_db_scheme \<Rightarrow> 'a mw_db_scheme \<times> mw_error option" where
  "disableWindowForScope i sc sid w =
     (if \<not> has_unique_key disables_unique_keys [''window_id'', ''scope_type'', ''scope_id''] then (w, Some MwNoConflictTarget)
      else let row = \<lparr>wd_window = i, wd_scope = sc, wd_scope_id = sid\<rparr>
           in (clear_cache (if row \<in> set (window_disables w) then w else w\<lparr>window_disables := window_disables w @ [row]\<rparr>), None))"

definition enableWindowForScope :: "nat \<Rightarrow> mw_scope \<Rightarrow> nat \<Rightarrow> 'a mw_db_scheme \<Rightarrow> 'a mw_db_scheme" where
  "enableWindowForScope i sc sid w =
     clear_cache (w\<lparr>window_disables := tbl_delete (\<lambda>x. wd_window x = i \<and> wd_scope x = sc \<and> wd_scope_id x = sid) (window_disables w)\<rparr>)"

section \<open>Which windows reach a device\<close>

definition getWindowsForScope :: "'a mw_db_scheme \<Rightarrow> mw_scope \<Rightarrow> nat \<Rightarrow> window_row list" where
  "getWindowsForScope w sc i = map rowToWindow (filter (\<lambda>r. mw_scope r = sc \<and> mw_scope_id r = Some i) (maintenance_windows w))"

definition getAncestorGroupIds :: "'a mw_db_scheme \<Rightarrow> nat \<Rightarrow> nat list" where
  "getAncestorGroupIds w g = map cl_anc (filter (\<lambda>r. cl_desc r = g) (group_closure w))"

definition getDisabledWindowIds :: "'a mw_db_scheme \<Rightarrow> mw_scope \<Rightarrow> nat \<Rightarrow> nat list \<Rightarrow> nat list" where
  "getDisabledWindowIds w sc i anc =
     uniq (map wd_window (filter (\<lambda>x. (wd_scope x = sc \<and> wd_scope_id x = i) \<or>
        (anc \<noteq> [] \<and> wd_scope x = WGroup \<and> wd_scope_id x \<in> set anc)) (window_disables w)))"

definition getDirectlyDisabledWindowIds :: "'a mw_db_scheme \<Rightarrow> mw_scope \<Rightarrow> nat \<Rightarrow> nat list" where
  "getDirectlyDisabledWindowIds w sc i = uniq (map wd_window (filter (\<lambda>x. wd_scope x = sc \<and> wd_scope_id x = i) (window_disables w)))"

definition group_windows :: "'a mw_db_scheme \<Rightarrow> nat list \<Rightarrow> window_row list" where
  "group_windows w gs =
     map rowToWindow (filter (\<lambda>r. mw_scope r = WGroup \<and> (case mw_scope_id r of None \<Rightarrow> False | Some g \<Rightarrow> g \<in> set gs)) (maintenance_windows w))"

definition global_windows :: "'a mw_db_scheme \<Rightarrow> window_row list" where
  "global_windows w = map rowToWindow (filter (\<lambda>r. mw_scope r = WGlobal) (maintenance_windows w))"

record effective_window =
  ew_window :: window_row
  ew_active :: bool
  ew_source :: string
  ew_source_id :: "nat option"
  ew_source_name :: "string option"
  ew_disabled :: bool
  ew_can_edit :: bool
  ew_can_delete :: bool
  ew_can_disable :: bool
  ew_can_enable :: bool

definition inherited_window ::
  "mt_env \<Rightarrow> int \<Rightarrow> nat list \<Rightarrow> nat list \<Rightarrow> string \<Rightarrow> nat option \<Rightarrow> string \<Rightarrow> window_row \<Rightarrow> effective_window" where
  "inherited_window env now disabledIds directly source i name x =
     \<lparr>ew_window = x, ew_active = isWindowActive env x now, ew_source = source, ew_source_id = i, ew_source_name = Some name,
      ew_disabled = (mw_id x \<in> set disabledIds), ew_can_edit = False, ew_can_delete = False,
      ew_can_disable = (mw_id x \<notin> set disabledIds), ew_can_enable = (mw_id x \<in> set directly)\<rparr>"

definition group_label :: "'a mw_db_scheme \<Rightarrow> nat list \<Rightarrow> nat option \<Rightarrow> string" where
  "group_label w gs i =
     (case i of None \<Rightarrow> ''Group #null''
      | Some g \<Rightarrow> (case find (\<lambda>r. grp_id r = g \<and> grp_id r \<in> set gs) (device_groups w) of None \<Rightarrow> ''Group #'' @ show_nat g | Some r \<Rightarrow> grp_name r))"

definition getEffectiveWindows :: "mt_env \<Rightarrow> 'a mw_db_scheme \<Rightarrow> mw_scope \<Rightarrow> nat \<Rightarrow> nat option \<Rightarrow> effective_window list" where
  "getEffectiveWindows env w sc i groupId =
     (let now = now_ms w;
          anc = (if truthy_id groupId then getAncestorGroupIds w (the groupId) else if sc = WGroup then getAncestorGroupIds w i else []);
          disabledIds = getDisabledWindowIds w sc i anc;
          directly = getDirectlyDisabledWindowIds w sc i;
          groupAnc = (if sc = WGroup then filter (\<lambda>a. a \<noteq> i) anc else anc)
      in map (\<lambda>x. \<lparr>ew_window = x, ew_active = isWindowActive env x now, ew_source = ''local'', ew_source_id = Some i, ew_source_name = None,
                    ew_disabled = False, ew_can_edit = True, ew_can_delete = True, ew_can_disable = False, ew_can_enable = False\<rparr>)
             (getWindowsForScope w sc i) @
         (if groupAnc \<noteq> []
          then map (\<lambda>x. inherited_window env now disabledIds directly ''group'' (mw_scope_id x) (group_label w groupAnc (mw_scope_id x)) x)
                 (group_windows w groupAnc)
          else []) @
         map (inherited_window env now disabledIds directly ''global'' None ''Global'') (global_windows w))"

definition cache_key :: "nat \<Rightarrow> nat option \<Rightarrow> string" where
  "cache_key d g = ''device:'' @ show_nat d @ '':'' @ (case g of None \<Rightarrow> ''null'' | Some n \<Rightarrow> show_nat n)"

definition not_in_ids :: "nat list \<Rightarrow> window_row \<Rightarrow> bool" where
  "not_in_ids disabledIds r \<longleftrightarrow> int (mw_id r) \<notin> set (if disabledIds = [] then [- 1] else map int disabledIds)"

definition fresh_maintenance :: "mt_env \<Rightarrow> 'a mw_db_scheme \<Rightarrow> nat \<Rightarrow> nat option \<Rightarrow> bool" where
  "fresh_maintenance env w d groupId =
     (let now = now_ms w;
          anc = (if truthy_id groupId then getAncestorGroupIds w (the groupId) else []);
          disabledIds = getDisabledWindowIds w WDevice d anc
      in if list_ex (\<lambda>x. isWindowActive env x now) (getWindowsForScope w WDevice d) then True
         else if anc \<noteq> [] \<and> list_ex (\<lambda>x. not_in_ids disabledIds x \<and> isWindowActive env x now) (group_windows w anc) then True
         else list_ex (\<lambda>x. not_in_ids disabledIds x \<and> isWindowActive env x now) (global_windows w))"

definition isInMaintenance :: "mt_env \<Rightarrow> nat \<Rightarrow> nat option \<Rightarrow> 'a mw_db_scheme \<Rightarrow> 'a mw_db_scheme \<times> bool" where
  "isInMaintenance env d groupId w =
     (case getCached (cache_key d groupId) w of
        (w1, Some v) \<Rightarrow> (w1, v)
      | (w1, None) \<Rightarrow> (let v = fresh_maintenance env w1 d groupId in (setCache (cache_key d groupId) v w1, v)))"

text \<open>The batch check. A \<open>Map\<close> of lists or sets is an association list; \<open>add_multi\<close> creates the entry on first use.\<close>

definition entries :: "('k \<times> 'v list) list \<Rightarrow> 'k \<Rightarrow> 'v list" where
  "entries m k = (case map_of m k of None \<Rightarrow> [] | Some vs \<Rightarrow> vs)"

fun add_multi :: "('k \<times> 'v list) list \<Rightarrow> 'k \<times> 'v \<Rightarrow> ('k \<times> 'v list) list" where
  "add_multi [] (k, v) = [(k, [v])]"
| "add_multi ((k', vs) # m) (k, v) = (if k' = k then (k', vs @ [v]) # m else (k', vs) # add_multi m (k, v))"

definition index_pairs :: "('k \<times> 'v) list \<Rightarrow> ('k \<times> 'v list) list" where
  "index_pairs ps = foldl add_multi [] ps"

definition batch_ancestors :: "'a mw_db_scheme \<Rightarrow> nat list \<Rightarrow> (nat \<times> nat list) list" where
  "batch_ancestors w groupIds =
     (if groupIds \<noteq> [] then index_pairs (map (\<lambda>r. (cl_desc r, cl_anc r)) (filter (\<lambda>r. cl_desc r \<in> set groupIds) (group_closure w))) else [])"

definition batch_disables :: "'a mw_db_scheme \<Rightarrow> nat list \<Rightarrow> nat list \<Rightarrow> disable_row list" where
  "batch_disables w deviceIds ancestorIds =
     filter (\<lambda>x. (wd_scope x = WDevice \<and> wd_scope_id x \<in> set deviceIds) \<or>
        (ancestorIds \<noteq> [] \<and> wd_scope x = WGroup \<and> wd_scope_id x \<in> set ancestorIds)) (window_disables w)"

definition disables_of :: "mw_scope \<Rightarrow> disable_row list \<Rightarrow> (nat \<times> nat list) list" where
  "disables_of sc rows = index_pairs (map (\<lambda>x. (wd_scope_id x, wd_window x)) (filter (\<lambda>x. wd_scope x = sc) rows))"

definition batch_device ::
  "mt_env \<Rightarrow> int \<Rightarrow> window_row list \<Rightarrow> (nat \<times> nat list) list \<Rightarrow> (nat \<times> nat list) list \<Rightarrow> (nat \<times> nat list) list \<Rightarrow> nat \<times> nat option \<Rightarrow> bool" where
  "batch_device env now windows ancestorMap deviceDisables groupDisables dg =
     (let ancestorIds = (if truthy_id (snd dg) then entries ancestorMap (the (snd dg)) else []);
          disabledIds = entries deviceDisables (fst dg) @ concat (map (entries groupDisables) ancestorIds)
      in if list_ex (\<lambda>x. mw_scope x = WDevice \<and> mw_scope_id x = Some (fst dg) \<and> isWindowActive env x now) windows then True
         else if truthy_id (snd dg) \<and> list_ex (\<lambda>x. mw_scope x = WGroup \<and> (case mw_scope_id x of None \<Rightarrow> False | Some g \<Rightarrow> g \<in> set ancestorIds) \<and>
                  mw_id x \<notin> set disabledIds \<and> isWindowActive env x now) windows then True
         else list_ex (\<lambda>x. mw_scope x = WGlobal \<and> mw_id x \<notin> set disabledIds \<and> isWindowActive env x now) windows)"

definition getInMaintenanceDeviceIds :: "mt_env \<Rightarrow> (nat \<times> nat option) list \<Rightarrow> 'a mw_db_scheme \<Rightarrow> nat list" where
  "getInMaintenanceDeviceIds env devs w =
     (let windows = map rowToWindow (maintenance_windows w);
          groupIds = uniq (List.map_filter snd devs);
          ancestorMap = batch_ancestors w groupIds;
          allAncestorIds = uniq (concat (map snd ancestorMap));
          disableRows = batch_disables w (map fst devs) allAncestorIds;
          deviceDisables = disables_of WDevice disableRows;
          groupDisables = disables_of WGroup disableRows
      in uniq (map fst (filter (batch_device env (now_ms w) windows ancestorMap deviceDisables groupDisables) devs)))"

section \<open>Background jobs\<close>

definition cleanupExpiredOneTime :: "'a mw_db_scheme \<Rightarrow> 'a mw_db_scheme" where
  "cleanupExpiredOneTime w =
     deleteWindows (\<lambda>r. mw_schedule r = OneTime \<and> mw_ends r < now_ms w - 30 * 24 * 60 * 60 * 1000) w"

definition maintenance_message :: "string \<Rightarrow> bool \<Rightarrow> string" where
  "maintenance_message name start =
     (if start then ''Maintenance window \"'' @ name @ ''\" has started. Alerts are suppressed during this period.''
      else ''Maintenance window \"'' @ name @ ''\" has ended. Monitoring resumed.'')"

definition sendMaintenanceNotification :: "mt_env \<Rightarrow> window_row \<Rightarrow> bool \<Rightarrow> 'a mw_db_scheme \<Rightarrow> 'a mw_db_scheme" where
  "sendMaintenanceNotification env win start w =
     (if window_channels win = [] then w
      else let chs = filter (\<lambda>c. nc_id c \<in> set (window_channels win) \<and> nc_enabled c) (notification_channels w);
               notice = (\<lambda>c. \<lparr>mn_channel = nc_id c, mn_name = mw_name win, mn_old = (if start then ''up'' else ''maintenance''),
                           mn_new = (if start then ''maintenance'' else ''up''), mn_message = maintenance_message (mw_name win) start,
                           mn_at = now_ms w\<rparr>)
           in w\<lparr>maintenance_sent := maintenance_sent w @ map notice (filter (\<lambda>c. mt_plugin env (nc_type c)) chs)\<rparr>)"

definition start_key :: "mt_env \<Rightarrow> window_row \<Rightarrow> string" where
  "start_key env win = ''start:'' @ mt_iso env (mw_starts win)"

definition end_key :: "mt_env \<Rightarrow> window_row \<Rightarrow> string" where
  "end_key env win = ''end:'' @ mt_iso env (mw_starts win)"

definition set_dedup :: "nat \<Rightarrow> string \<Rightarrow> 'a mw_db_scheme \<Rightarrow> 'a mw_db_scheme" where
  "set_dedup i k w = w\<lparr>maintenance_windows := tbl_update (\<lambda>r. mw_id r = i) (\<lambda>r. r\<lparr>mw_dedup := Some k\<rparr>) (maintenance_windows w)\<rparr>"

text \<open>What the loop does with one row: \<open>Some True\<close> announces a start, \<open>Some False\<close> an end.\<close>

definition transition_of :: "mt_env \<Rightarrow> int \<Rightarrow> window_row \<Rightarrow> bool option" where
  "transition_of env now row =
     (let win = rowToWindow row; active = isWindowActive env win now
      in if active \<and> mw_dedup win \<noteq> Some (start_key env win) then Some True
         else if \<not> active \<and> mw_dedup win = Some (start_key env win) then Some False
         else None)"

definition transition_row :: "mt_env \<Rightarrow> 'a mw_db_scheme \<Rightarrow> window_row \<Rightarrow> 'a mw_db_scheme" where
  "transition_row env w row =
     (let win = rowToWindow row
      in case transition_of env (now_ms w) row of
           None \<Rightarrow> w
         | Some start \<Rightarrow> set_dedup (mw_id win) (if start then start_key env win else end_key env win) (sendMaintenanceNotification env win start w))"

definition is_array_type :: "string \<Rightarrow> bool" where
  "is_array_type t \<longleftrightarrow> length t > 2 \<and> drop (length t - 2) t = ''[]''"

definition checkMaintenanceTransitions :: "mt_env \<Rightarrow> 'a mw_db_scheme \<Rightarrow> 'a mw_db_scheme \<times> mw_error option" where
  "checkMaintenanceTransitions env w =
     (if \<not> is_array_type channels_column_type then (w, Some MwNoFunction)
      else (foldl (transition_row env) w (filter (\<lambda>r. window_channels r \<noteq> []) (maintenance_windows w)), None))"

text \<open>The two timers of \<open>startJobs\<close>; the second one empties the cache first.\<close>

definition cleanup_tick :: "'a mw_db_scheme \<Rightarrow> 'a mw_db_scheme" where
  "cleanup_tick w = cleanupExpiredOneTime w"

definition transition_tick :: "mt_env \<Rightarrow> 'a mw_db_scheme \<Rightarrow> 'a mw_db_scheme" where
  "transition_tick env w = fst (checkMaintenanceTransitions env (clear_cache w))"

section \<open>HTTP handlers\<close>

record mw_request =
  rq_tenant :: nat
  rq_user :: "nat option"

datatype mw_response = WindowResponse nat window_row bool string | ListResponse "(window_row \<times> bool \<times> string) list"
  | EffectiveResponse "effective_window list" | ErrorResponse nat string | OkResponse

definition isMasterTenant :: "nat \<Rightarrow> bool" where
  "isMasterTenant t \<longleftrightarrow> t = 1"

text \<open>
  An id that is not an integer is refused by the database, a negative one names no row. (A negative \<open>scopeId\<close>, or a
  negative id in the effective list, is treated as refused.)
\<close>

definition column_id :: "jsnum \<Rightarrow> nat option" where
  "column_id n = (case n of Fin r \<Rightarrow> if r = of_int \<lfloor>r\<rfloor> \<and> 0 \<le> r \<and> r \<le> of_nat int4_max then Some (nat \<lfloor>r\<rfloor>) else None | NonFin \<Rightarrow> None)"

definition loadOwnedWindow :: "nat \<Rightarrow> mw_request \<Rightarrow> 'a mw_db_scheme \<Rightarrow> window_row option" where
  "loadOwnedWindow i rq w =
     (case windowById w i of
        None \<Rightarrow> None
      | Some win \<Rightarrow> if \<not> isMasterTenant (rq_tenant rq) \<and> mw_tenant win \<noteq> rq_tenant rq then None else Some win)"

definition scope_label :: "window_row \<Rightarrow> 'a mw_db_scheme \<Rightarrow> string" where
  "scope_label win w =
     (let plain = CHR ''#'' # (case mw_scope_id win of None \<Rightarrow> ''null'' | Some i \<Rightarrow> show_nat i)
      in case mw_scope win of
           WGlobal \<Rightarrow> ''Global''
         | WGroup \<Rightarrow> (case find (\<lambda>r. Some (grp_id r) = mw_scope_id win) (device_groups w) of None \<Rightarrow> plain | Some r \<Rightarrow> grp_name r)
         | WDevice \<Rightarrow> (case find (\<lambda>r. Some (dev_id r) = mw_scope_id win) (devices w) of None \<Rightarrow> plain
                       | Some r \<Rightarrow> or_else (dev_display_name r) (dev_hostname r)))"

definition enrichWindow :: "mt_env \<Rightarrow> nat \<Rightarrow> window_row \<Rightarrow> 'a mw_db_scheme \<Rightarrow> mw_response" where
  "enrichWindow env status win w = WindowResponse status win (isWindowActive env win (now_ms w)) (scope_label win w)"

definition server_error :: mw_response where
  "server_error = ErrorResponse 500 ''Internal server error''"

definition not_found :: mw_response where
  "not_found = ErrorResponse 404 ''Not found''"

definition listHandler :: "mt_env \<Rightarrow> mw_request \<Rightarrow> mw_scope option \<Rightarrow> nat option \<Rightarrow> 'a mw_db_scheme \<Rightarrow> mw_response" where
  "listHandler env rq sc i w =
     ListResponse (map (\<lambda>x. (x, isWindowActive env x (now_ms w), scope_label x w)) (listWindows (rq_tenant rq) sc i w))"

definition bad_id :: "jsnum \<Rightarrow> mw_response \<Rightarrow> mw_response" where
  "bad_id n missing =
     (case n of Fin r \<Rightarrow> if r = of_int \<lfloor>r\<rfloor> \<and> - 2147483648 \<le> r \<and> r < 0 then missing else server_error | NonFin \<Rightarrow> server_error)"

definition getHandler :: "mt_env \<Rightarrow> mw_request \<Rightarrow> jsnum \<Rightarrow> 'a mw_db_scheme \<Rightarrow> mw_response" where
  "getHandler env rq n w =
     (case column_id n of
        None \<Rightarrow> bad_id n not_found
      | Some i \<Rightarrow> (case loadOwnedWindow i rq w of None \<Rightarrow> not_found | Some win \<Rightarrow> enrichWindow env 200 win w))"

definition falsy_text :: "string option \<Rightarrow> bool" where
  "falsy_text t \<longleftrightarrow> t = None \<or> t = Some []"

record create_body =
  cb_name :: "string option"
  cb_scope :: "string option"
  cb_scope_id :: "nat option"
  cb_schedule :: "string option"
  cb_start_at :: "string option"
  cb_end_at :: "string option"
  cb_start_time :: "string option"
  cb_end_time :: "string option"
  cb_recurrence_type :: "string option"
  cb_starts_at :: "string option"
  cb_ends_at :: "string option"
  cb_rule :: "recurrence_rule option"
  cb_timezone :: "string option"
  cb_channels :: "nat list option"
  cb_notify_channels :: "nat list option"

definition create_refusal :: "create_body \<Rightarrow> string option" where
  "create_refusal b =
     (if falsy_text (cb_name b) \<or> falsy_text (cb_scope b) \<or> falsy_text (cb_schedule b)
      then Some ''name, scopeType and scheduleType are required''
      else if cb_scope b \<noteq> Some ''global'' \<and> \<not> truthy_id (cb_scope_id b) then Some ''scopeId is required for non-global windows''
      else if cb_schedule b = Some ''one_time'' \<and> (falsy_text (cb_start_at b) \<or> falsy_text (cb_end_at b))
      then Some ''startAt and endAt are required for one-time windows''
      else if cb_schedule b = Some ''recurring'' \<and> (falsy_text (cb_start_time b) \<or> falsy_text (cb_end_time b) \<or> falsy_text (cb_recurrence_type b))
      then Some ''startTime, endTime and recurrenceType are required for recurring windows''
      else None)"

definition created_data :: "mw_request \<Rightarrow> create_body \<Rightarrow> window_data" where
  "created_data rq b =
     \<lparr>wn_name = or_else (cb_name b) [], wn_scope = or_else (cb_scope b) [],
      wn_scope_id = (if cb_scope b = Some ''global'' then None else cb_scope_id b), wn_schedule = or_else (cb_schedule b) [],
      wn_starts = or_else (orElse (cb_starts_at b) (cb_start_at b)) [], wn_ends = or_else (orElse (cb_ends_at b) (cb_end_at b)) [],
      wn_rule = cb_rule b, wn_timezone = Some (or_else (cb_timezone b) ''UTC''),
      wn_channels = Some (or_else (orElse (cb_channels b) (cb_notify_channels b)) []), wn_created_by = rq_user rq, wn_tenant = rq_tenant rq\<rparr>"

definition createHandler :: "mt_env \<Rightarrow> mw_request \<Rightarrow> create_body \<Rightarrow> 'a mw_db_scheme \<Rightarrow> 'a mw_db_scheme \<times> mw_response" where
  "createHandler env rq b w =
     (case create_refusal b of
        Some msg \<Rightarrow> (w, ErrorResponse 400 msg)
      | None \<Rightarrow>
          (case createWindow env (created_data rq b) w of
             (w1, Inl _) \<Rightarrow> (w1, server_error)
           | (w1, Inr row) \<Rightarrow> (w1, enrichWindow env 201 row w1)))"

record update_body =
  ub_name :: "string option"
  ub_scope :: "string option"
  ub_scope_id :: "nat jsprop"
  ub_schedule :: "string option"
  ub_start_at :: "string option"
  ub_end_at :: "string option"
  ub_starts_at :: "string option"
  ub_ends_at :: "string option"
  ub_rule :: "recurrence_rule option"
  ub_timezone :: "string option"
  ub_channels :: "nat list option"
  ub_notify_channels :: "nat list option"

text \<open>The object literal always has the key \<open>scopeId\<close>, also when the body has none.\<close>

definition update_patch :: "update_body \<Rightarrow> window_patch" where
  "update_patch b =
     \<lparr>up_name = ub_name b, up_scope = ub_scope b, up_scope_id = Some (ub_scope_id b), up_schedule = ub_schedule b,
      up_starts = orElse (ub_starts_at b) (ub_start_at b), up_ends = orElse (ub_ends_at b) (ub_end_at b), up_rule = ub_rule b,
      up_timezone = ub_timezone b, up_channels = orElse (ub_channels b) (ub_notify_channels b)\<rparr>"

definition updateHandler :: "mt_env \<Rightarrow> mw_request \<Rightarrow> jsnum \<Rightarrow> update_body \<Rightarrow> 'a mw_db_scheme \<Rightarrow> 'a mw_db_scheme \<times> mw_response" where
  "updateHandler env rq n b w =
     (case column_id n of
        None \<Rightarrow> (w, bad_id n not_found)
      | Some i \<Rightarrow>
          (case loadOwnedWindow i rq w of
             None \<Rightarrow> (w, not_found)
           | Some _ \<Rightarrow>
               (case updateWindow env i (update_patch b) w of
                  (w1, Inl _) \<Rightarrow> (w1, server_error)
                | (w1, Inr None) \<Rightarrow> (w1, not_found)
                | (w1, Inr (Some win)) \<Rightarrow> (w1, enrichWindow env 200 win w1))))"

definition deleteHandler :: "mw_request \<Rightarrow> jsnum \<Rightarrow> 'a mw_db_scheme \<Rightarrow> 'a mw_db_scheme \<times> mw_response" where
  "deleteHandler rq n w =
     (case column_id n of
        None \<Rightarrow> (w, bad_id n not_found)
      | Some i \<Rightarrow> (case loadOwnedWindow i rq w of None \<Rightarrow> (w, not_found) | Some _ \<Rightarrow> (deleteWindow i w, OkResponse)))"

definition effectiveHandler :: "mt_env \<Rightarrow> string \<Rightarrow> jsnum \<Rightarrow> 'a mw_db_scheme \<Rightarrow> mw_response" where
  "effectiveHandler env ty n w =
     (if ty \<notin> {''device'', ''group''} then ErrorResponse 400 ''type must be device or group''
      else case column_id n of
        None \<Rightarrow> server_error
      | Some i \<Rightarrow>
          if ty = ''device''
          then EffectiveResponse (getEffectiveWindows env w WDevice i (case find (\<lambda>r. dev_id r = i) (devices w) of None \<Rightarrow> None | Some r \<Rightarrow> dev_group r))
          else EffectiveResponse (getEffectiveWindows env w WGroup i (Some i)))"

definition scopeBelongsToCallerTenant :: "mw_scope \<Rightarrow> nat \<Rightarrow> mw_request \<Rightarrow> 'a mw_db_scheme \<Rightarrow> bool" where
  "scopeBelongsToCallerTenant sc i rq w \<longleftrightarrow>
     (if isMasterTenant (rq_tenant rq) then True
      else if sc = WGroup
      then (case find (\<lambda>r. grp_id r = i) (device_groups w) of None \<Rightarrow> False | Some r \<Rightarrow> grp_tenant r = rq_tenant rq)
      else (case find (\<lambda>r. dev_id r = i) (devices w) of None \<Rightarrow> False | Some r \<Rightarrow> dev_tenant r = rq_tenant rq))"

text \<open>The checks that \<open>disable\<close> and \<open>enable\<close> share: the window id, the scope and its id, or the answer that refuses.\<close>

definition toggle_check ::
  "mw_request \<Rightarrow> jsnum \<Rightarrow> string option \<Rightarrow> jsnum option \<Rightarrow> 'a mw_db_scheme \<Rightarrow> mw_response + nat \<times> mw_scope \<times> nat" where
  "toggle_check rq n scopeType scopeId w =
     (if falsy_text scopeType \<or> scopeId = None \<or> scopeId = Some (Fin 0) \<or> scopeId = Some NonFin
      then Inl (ErrorResponse 400 ''scopeType and scopeId are required'')
      else if the scopeType \<notin> {''group'', ''device''} then Inl (ErrorResponse 400 ''scopeType must be group or device'')
      else case column_id n of
        None \<Rightarrow> Inl (bad_id n (ErrorResponse 404 ''Maintenance window not found''))
      | Some i \<Rightarrow>
          (case loadOwnedWindow i rq w of
             None \<Rightarrow> Inl (ErrorResponse 404 ''Maintenance window not found'')
           | Some _ \<Rightarrow>
               (case column_id (the scopeId) of
                  None \<Rightarrow> Inl server_error
                | Some sid \<Rightarrow>
                    let sc = (if the scopeType = ''group'' then WGroup else WDevice)
                    in if scopeBelongsToCallerTenant sc sid rq w then Inr (i, sc, sid) else Inl (ErrorResponse 404 ''Scope not found''))))"

definition disableHandler ::
  "mw_request \<Rightarrow> jsnum \<Rightarrow> string option \<Rightarrow> jsnum option \<Rightarrow> 'a mw_db_scheme \<Rightarrow> 'a mw_db_scheme \<times> mw_response" where
  "disableHandler rq n scopeType scopeId w =
     (case toggle_check rq n scopeType scopeId w of
        Inl resp \<Rightarrow> (w, resp)
      | Inr (i, sc, sid) \<Rightarrow>
          (case disableWindowForScope i sc sid w of (w1, Some _) \<Rightarrow> (w1, server_error) | (w1, None) \<Rightarrow> (w1, OkResponse)))"

definition enableHandler ::
  "mw_request \<Rightarrow> jsnum \<Rightarrow> string option \<Rightarrow> jsnum option \<Rightarrow> 'a mw_db_scheme \<Rightarrow> 'a mw_db_scheme \<times> mw_response" where
  "enableHandler rq n scopeType scopeId w =
     (case toggle_check rq n scopeType scopeId w of
        Inl resp \<Rightarrow> (w, resp)
      | Inr (i, sc, sid) \<Rightarrow> (enableWindowForScope i sc sid w, OkResponse))"

section \<open>Clock times as texts\<close>

text \<open>Texts of the form \<open>HH:MM\<close> are ordered as their minutes of the day.\<close>

definition clock_text :: "nat \<Rightarrow> string" where
  "clock_text m = pad2 (show_nat (m div 60)) @ '':'' @ pad2 (show_nat (m mod 60))"

lemma zero_char: "char_of (48 :: nat) = CHR ''0''"
  by code_simp

lemma clock_text_nonempty [simp]: "clock_text s \<noteq> []"
  by (simp add: clock_text_def)

lemma pad2_show: "n < 100 \<Longrightarrow> pad2 (show_nat n) = [digit_char (n div 10), digit_char (n mod 10)]"
  using show_nat.simps [of n] show_nat.simps [of "n div 10"] zero_char by (auto simp: pad2_def numeral_2_eq_2 digit_char_def)

lemma div_less_less: "m div k < n div k \<Longrightarrow> m < n" for m n k :: nat
  by (meson div_le_mono leD leI)

lemma lex_div_less: "m < n \<longleftrightarrow> m div k < n div k \<or> m div k = n div k \<and> m mod k < n mod k" for m n k :: nat
proof (cases "m div k" "n div k" rule: linorder_cases)
  case less
  then show ?thesis using div_less_less by blast
next
  case equal
  obtain q where q: "m div k = q" "n div k = q" using equal by simp
  have "m = q * k + m mod k" using div_mult_mod_eq [of m k] unfolding q(1) by (rule sym)
  moreover have "n = q * k + n mod k" using div_mult_mod_eq [of n k] unfolding q(2) by (rule sym)
  ultimately have "m < n \<longleftrightarrow> q * k + m mod k < q * k + n mod k" by (rule arg_cong2)
  then show ?thesis unfolding q by simp
next
  case greater
  then have "n < m" by (rule div_less_less)
  with greater show ?thesis by simp
qed

lemma digit_char_less: "a < 10 \<Longrightarrow> b < 10 \<Longrightarrow> digit_char a < digit_char b \<longleftrightarrow> a < b"
  by (simp add: less_char_def of_char_digit_char)

lemma digit_char_eq: "a < 10 \<Longrightarrow> b < 10 \<Longrightarrow> digit_char a = digit_char b \<longleftrightarrow> a = b"
  using digit_val_digit_char by metis

lemma two_digits_le:
  assumes "m < 100" "n < 100"
  shows "pad2 (show_nat m) @ xs \<le> pad2 (show_nat n) @ ys \<longleftrightarrow> m < n \<or> m = n \<and> xs \<le> ys"
proof -
  have d: "m div 10 < 10" "n div 10 < 10" using assms by auto
  have "pad2 (show_nat m) @ xs \<le> pad2 (show_nat n) @ ys \<longleftrightarrow>
      m div 10 < n div 10 \<or> m div 10 = n div 10 \<and> (m mod 10 < n mod 10 \<or> m mod 10 = n mod 10 \<and> xs \<le> ys)"
    by (simp add: pad2_show [OF assms(1)] pad2_show [OF assms(2)] digit_char_less digit_char_eq d)
  moreover have "m = n \<longleftrightarrow> m div 10 = n div 10 \<and> m mod 10 = n mod 10" by (metis div_mult_mod_eq)
  ultimately show ?thesis using lex_div_less [of m n 10] by blast
qed

lemma clock_text_le:
  assumes "m < 1440" "n < 1440"
  shows "clock_text m \<le> clock_text n \<longleftrightarrow> m \<le> n"
proof -
  have h: "m div 60 < 100" "n div 60 < 100" "m mod 60 < 100" "n mod 60 < 100" using assms by auto
  have e: "pad2 (show_nat (m mod 60)) \<le> pad2 (show_nat (n mod 60)) \<longleftrightarrow> m mod 60 \<le> n mod 60"
    using two_digits_le [OF h(3,4), of "[]" "[]"] by auto
  have "clock_text m \<le> clock_text n \<longleftrightarrow> m div 60 < n div 60 \<or> m div 60 = n div 60 \<and> m mod 60 \<le> n mod 60"
    using two_digits_le [OF h(1,2)] e by (simp add: clock_text_def)
  then show ?thesis using lex_div_less [of n m 60] by (auto simp: not_less [symmetric])
qed

section \<open>Recurring windows\<close>

lemma digit_other: "is_digit c \<Longrightarrow> \<not> is_space c \<and> c \<noteq> CHR ''-'' \<and> c \<noteq> CHR ''+''"
  by (auto simp: is_digit_def is_space_def Let_def)

lemma number_of_digits:
  assumes "t \<noteq> []" and "\<forall>c \<in> set t. is_digit c"
  shows "number_of_text t = Fin (of_nat (read_nat t))"
proof -
  have h: "is_digit (hd t)" "is_digit (hd (rev t))" using assms by (auto simp: hd_rev)
  have tw: "takeWhile is_digit t = t" "dropWhile is_digit t = []" using assms(2) by (auto simp: takeWhile_eq_all_conv)
  have "dropWhile is_space t = t" "dropWhile is_space (rev t) = rev t"
    using h digit_other assms(1) by (auto simp: dropWhile_eq_self_iff)
  then have t: "trim t = t" "dropWhile is_space t = t" by (simp_all add: trim_def)
  have "decimal_literal t" using assms(1) h digit_other by (simp add: decimal_literal_def tw)
  moreover have "parseFloat t = Fin (of_nat (read_nat t))"
    using assms(1) h digit_other
    by (simp add: tw t(2) parseFloat_def digits_val_def parse_exponent_def rat_pow10_def read_nat_def)
  ultimately show ?thesis using t(1) assms(1) by (simp add: number_of_text_def)
qed

lemma number_of_two_digits: "n < 100 \<Longrightarrow> number_of_text (pad2 (show_nat n)) = Fin (of_nat n)"
  using number_of_digits [of "pad2 (show_nat n)"] by (simp add: pad2_show read_nat_def)

lemma number_text_nat: "number_text env (of_nat n) = show_nat n"
  by (simp add: number_text_def)

lemma js_rem_nat: "js_rem (of_nat e) (of_nat k) = of_nat (e mod k)"
proof -
  have f: "\<lfloor>(of_nat e :: rat) / of_nat k\<rfloor> = int (e div k)" by (rule floor_divide_of_nat_eq)
  have "(of_nat e :: rat) = of_nat k * of_nat (e div k) + of_nat (e mod k)"
    unfolding of_nat_mult [symmetric] of_nat_add [symmetric] by simp
  moreover have "\<not> (of_nat e :: rat) / of_nat k < 0" by (simp add: not_less)
  then have "js_rem (of_nat e) (of_nat k) = of_nat e - of_nat k * of_nat (e div k)" by (simp add: js_rem_def Let_def f)
  ultimately show ?thesis by (metis add_diff_cancel_left')
qed

lemma clock_colon: "CHR '':'' \<notin> set (pad2 (show_nat n))"
  by (auto simp: pad2_def)

lemma rule_start_clock:
  assumes "s < 1440"
  shows "rule_start (clock_text s) = Some (of_nat (s div 60), of_nat (s mod 60))"
proof -
  have "s div 60 < 100" "s mod 60 < 100" using assms by auto
  then show ?thesis
    by (simp add: rule_start_def clock_text_def split_on_append split_on_no_sep clock_colon number_of_two_digits)
qed

lemma rule_range_clock:
  assumes "s < 1440"
  shows "rule_range env (of_nat (s div 60)) (of_nat (s mod 60)) (of_nat d) = (clock_text s, clock_text ((s + d) mod 1440))"
proof -
  have m: "(of_nat (s div 60) :: rat) * 60 + of_nat (s mod 60) + of_nat d = of_nat (s + d)"
  proof -
    have "(of_nat s :: rat) = of_nat (s div 60) * 60 + of_nat (s mod 60)"
      by (metis div_mult_mod_eq of_nat_add of_nat_mult of_nat_numeral)
    then show ?thesis by simp
  qed
  have f: "\<lfloor>(of_nat (s + d) :: rat) / 60\<rfloor> = int ((s + d) div 60)" using floor_divide_of_nat_eq [of "s + d" 60] by simp
  have h: "js_rem (of_int (int ((s + d) div 60))) 24 = of_nat ((s + d) div 60 mod 24)" using js_rem_nat [of "(s + d) div 60" 24] by simp
  have r: "js_rem (of_nat (s + d)) 60 = of_nat ((s + d) mod 60)" using js_rem_nat [of "s + d" 60] by simp
  have "(s + d) mod 1440 = 60 * ((s + d) div 60 mod 24) + (s + d) mod 60" using mod_mult2_eq [of "s + d" 60 24] by simp
  then have e: "(s + d) mod 1440 div 60 = (s + d) div 60 mod 24" "(s + d) mod 1440 mod 60 = (s + d) mod 60" by simp_all
  show ?thesis unfolding rule_range_def Let_def m f h r number_text_nat clock_text_def e by simp
qed

text \<open>An overnight range wraps around midnight; \<open>lapse\<close> is the time since the start of the range.\<close>

definition lapse :: "nat \<Rightarrow> nat \<Rightarrow> nat" where
  "lapse s c = (c + 1440 - s) mod 1440"

lemma in_range_lapse:
  assumes "s < 1440" and "c < 1440"
  shows "isTimeInRange (clock_text c) (clock_text s) (clock_text ((s + d) mod 1440)) \<longleftrightarrow> lapse s c \<le> d mod 1440"
proof -
  let ?e = "(s + d) mod 1440" and ?m = "d mod 1440"
  have m: "?m < 1440" by simp
  have e: "?e = (if s + ?m < 1440 then s + ?m else s + ?m - 1440)"
  proof -
    have "?e = (s + ?m) mod 1440" by (simp add: mod_add_right_eq)
    then show ?thesis using assms(1) m by (cases "s + ?m < 1440") (simp_all add: le_mod_geq)
  qed
  have l: "lapse s c = (if s \<le> c then c - s else c + 1440 - s)"
    using assms le_mod_geq [of 1440 "c + 1440 - s"] by (cases "s \<le> c") (simp_all add: lapse_def)
  have e2: "?e < 1440" by simp
  have "isTimeInRange (clock_text c) (clock_text s) (clock_text ?e) \<longleftrightarrow> (if s \<le> ?e then s \<le> c \<and> c \<le> ?e else s \<le> c \<or> c \<le> ?e)"
    by (simp add: isTimeInRange_def clock_text_le assms)
  also have "\<dots> \<longleftrightarrow> lapse s c \<le> ?m" unfolding l e using assms m by (auto split: if_splits)
  finally show ?thesis .
qed

definition recurs :: "mt_env \<Rightarrow> window_row \<Rightarrow> int \<Rightarrow> bool" where
  "recurs env w now \<longleftrightarrow> rule_frequency (window_rule w) = Some ''daily'' \<or>
     (rule_frequency (window_rule w) = Some ''weekly'' \<and>
      (\<exists>days. rule_days (window_rule w) = Some days \<and> getNowDayOfWeekInTz env (mw_timezone w) now \<in> set days))"


section \<open>The three answers\<close>

lemma window_rule_row [simp]: "window_rule (rowToWindow x) = window_rule x"
  by (simp add: window_rule_def rowToWindow_def)

lemma rowToWindow_fields [simp]:
  "mw_id (rowToWindow x) = mw_id x" "mw_scope (rowToWindow x) = mw_scope x" "mw_scope_id (rowToWindow x) = mw_scope_id x"
  "mw_schedule (rowToWindow x) = mw_schedule x" "mw_starts (rowToWindow x) = mw_starts x" "mw_ends (rowToWindow x) = mw_ends x"
  "mw_timezone (rowToWindow x) = mw_timezone x" "mw_dedup (rowToWindow x) = mw_dedup x" "mw_tenant (rowToWindow x) = mw_tenant x"
  by (simp_all add: rowToWindow_def)

lemma active_row [simp]: "isWindowActive env (rowToWindow x) now = isWindowActive env x now"
  unfolding isWindowActive_def by (simp only: rowToWindow_fields window_rule_row)

text \<open>Whether a window reaches a device, for given ancestors of its group.\<close>

definition switched_off :: "'a mw_db_scheme \<Rightarrow> nat \<Rightarrow> nat set \<Rightarrow> nat \<Rightarrow> bool" where
  "switched_off w d A i \<longleftrightarrow> (\<exists>z \<in> set (window_disables w). wd_window z = i \<and>
     (wd_scope z = WDevice \<and> wd_scope_id z = d \<or> wd_scope z = WGroup \<and> wd_scope_id z \<in> A))"

definition reaches :: "'a mw_db_scheme \<Rightarrow> nat \<Rightarrow> nat set \<Rightarrow> window_row \<Rightarrow> bool" where
  "reaches w d A x \<longleftrightarrow> mw_scope x = WDevice \<and> mw_scope_id x = Some d \<or>
     \<not> switched_off w d A (mw_id x) \<and> (mw_scope x = WGlobal \<or> mw_scope x = WGroup \<and> (\<exists>a \<in> A. mw_scope_id x = Some a))"

definition maintained :: "mt_env \<Rightarrow> 'a mw_db_scheme \<Rightarrow> nat \<Rightarrow> nat set \<Rightarrow> bool" where
  "maintained env w d A \<longleftrightarrow> (\<exists>x \<in> set (maintenance_windows w). isWindowActive env x (now_ms w) \<and> reaches w d A x)"

definition own_ancestors :: "'a mw_db_scheme \<Rightarrow> nat option \<Rightarrow> nat list" where
  "own_ancestors w g = (if truthy_id g then getAncestorGroupIds w (the g) else [])"

lemma disabled_ids_set: "set (getDisabledWindowIds w WDevice d anc) = {i. switched_off w d (set anc) i}"
  by (auto simp: getDisabledWindowIds_def switched_off_def)

lemma not_in_ids_iff: "not_in_ids ids x \<longleftrightarrow> mw_id x \<notin> set ids"
  by (auto simp: not_in_ids_def)

lemma in_group_windows:
  "x \<in> set (group_windows w gs) \<longleftrightarrow>
     (\<exists>y \<in> set (maintenance_windows w). x = rowToWindow y \<and> mw_scope y = WGroup \<and> (\<exists>a \<in> set gs. mw_scope_id y = Some a))"
  by (auto simp: group_windows_def image_iff split: option.splits)

lemma bex_group_windows:
  "(\<exists>x \<in> set (group_windows w gs). P x) \<longleftrightarrow>
     (\<exists>y \<in> set (maintenance_windows w). mw_scope y = WGroup \<and> (\<exists>a \<in> set gs. mw_scope_id y = Some a) \<and> P (rowToWindow y))"
proof -
  have e: "(case mw_scope_id y of None \<Rightarrow> False | Some g \<Rightarrow> g \<in> set gs) \<longleftrightarrow> (\<exists>a \<in> set gs. mw_scope_id y = Some a)" for y
    by (cases "mw_scope_id y") auto
  have "set (group_windows w gs) = rowToWindow ` {y \<in> set (maintenance_windows w). mw_scope y = WGroup \<and> (\<exists>a \<in> set gs. mw_scope_id y = Some a)}"
    unfolding group_windows_def set_map set_filter e ..
  then have "(\<exists>x \<in> set (group_windows w gs). P x) \<longleftrightarrow>
      (\<exists>y \<in> {y \<in> set (maintenance_windows w). mw_scope y = WGroup \<and> (\<exists>a \<in> set gs. mw_scope_id y = Some a)}. P (rowToWindow y))"
    by (simp only: bex_simps)
  then show ?thesis by (simp only: Bex_def mem_Collect_eq conj_assoc)
qed

lemma fresh_maintained: "fresh_maintenance env w d g \<longleftrightarrow> maintained env w d (set (own_ancestors w g))"
proof -
  let ?anc = "own_ancestors w g"
  have "fresh_maintenance env w d g \<longleftrightarrow>
      (\<exists>x \<in> set (maintenance_windows w). mw_scope x = WDevice \<and> mw_scope_id x = Some d \<and> isWindowActive env x (now_ms w)) \<or>
      (\<exists>x \<in> set (maintenance_windows w). mw_scope x = WGroup \<and> (\<exists>a \<in> set ?anc. mw_scope_id x = Some a) \<and>
          \<not> switched_off w d (set ?anc) (mw_id x) \<and> isWindowActive env x (now_ms w)) \<or>
      (\<exists>x \<in> set (maintenance_windows w). mw_scope x = WGlobal \<and> \<not> switched_off w d (set ?anc) (mw_id x) \<and> isWindowActive env x (now_ms w))"
    unfolding fresh_maintenance_def Let_def own_ancestors_def [symmetric] list_ex_iff
    by (simp add: not_in_ids_iff disabled_ids_set bex_group_windows getWindowsForScope_def global_windows_def)
      (cases "?anc = []"; simp; blast)
  then show ?thesis unfolding maintained_def reaches_def by blast
qed

lemma effective_maintained:
  "(\<exists>e \<in> set (getEffectiveWindows env w WDevice d g). ew_active e \<and> \<not> ew_disabled e) \<longleftrightarrow> maintained env w d (set (own_ancestors w g))"
proof -
  let ?anc = "own_ancestors w g"
  have a: "(if truthy_id g then getAncestorGroupIds w (the g) else if WDevice = WGroup then getAncestorGroupIds w d else []) = ?anc"
    by (simp add: own_ancestors_def)
  have "(\<exists>e \<in> set (getEffectiveWindows env w WDevice d g). ew_active e \<and> \<not> ew_disabled e) \<longleftrightarrow>
      (\<exists>x \<in> set (maintenance_windows w). mw_scope x = WDevice \<and> mw_scope_id x = Some d \<and> isWindowActive env x (now_ms w)) \<or>
      (\<exists>x \<in> set (maintenance_windows w). mw_scope x = WGroup \<and> (\<exists>a \<in> set ?anc. mw_scope_id x = Some a) \<and>
          \<not> switched_off w d (set ?anc) (mw_id x) \<and> isWindowActive env x (now_ms w)) \<or>
      (\<exists>x \<in> set (maintenance_windows w). mw_scope x = WGlobal \<and> \<not> switched_off w d (set ?anc) (mw_id x) \<and> isWindowActive env x (now_ms w))"
    unfolding getEffectiveWindows_def Let_def a
    by (simp add: inherited_window_def bex_Un disabled_ids_set getWindowsForScope_def global_windows_def bex_group_windows)
      (cases "?anc = []"; simp; blast)
  then show ?thesis unfolding maintained_def reaches_def by blast
qed

lemma entries_add_multi: "entries (add_multi m (k, v)) k' = (if k' = k then entries m k @ [v] else entries m k')"
  by (induction m "(k, v)" arbitrary: k v rule: add_multi.induct) (auto simp: entries_def)

lemma entries_foldl: "entries (foldl add_multi m ps) k = entries m k @ map snd (filter (\<lambda>p. fst p = k) ps)"
  by (induction ps arbitrary: m) (auto simp: entries_add_multi split: prod.split)

lemma entries_index: "entries (index_pairs ps) k = map snd (filter (\<lambda>p. fst p = k) ps)"
  by (simp add: index_pairs_def entries_foldl) (simp add: entries_def)

lemma entries_in_concat: "a \<in> set (entries m k) \<Longrightarrow> a \<in> set (concat (map snd m))"
  by (cases "map_of m k") (auto simp: entries_def dest!: map_of_SomeD intro: rev_bexI)

lemma batch_ancestors_entries:
  assumes "g \<in> set gs"
  shows "entries (batch_ancestors w gs) g = getAncestorGroupIds w g"
proof -
  have "filter (\<lambda>r. cl_desc r = g) (filter (\<lambda>r. cl_desc r \<in> set gs) (group_closure w)) = filter (\<lambda>r. cl_desc r = g) (group_closure w)"
    using assms by (auto simp: filter_filter intro: filter_cong)
  moreover have "gs \<noteq> []" using assms by auto
  ultimately show ?thesis
    by (simp add: batch_ancestors_def entries_index getAncestorGroupIds_def filter_map o_def)
qed

lemma disables_of_entries:
  "set (entries (disables_of sc rows) i) = wd_window ` {z \<in> set rows. wd_scope z = sc \<and> wd_scope_id z = i}"
  by (auto simp: disables_of_def entries_index filter_map o_def)

lemma batch_disabled_ids:
  assumes "d \<in> set ds" and "set anc \<subseteq> set allAnc"
  shows "set (entries (disables_of WDevice (batch_disables w ds allAnc)) d @
      concat (map (entries (disables_of WGroup (batch_disables w ds allAnc))) anc)) = {i. switched_off w d (set anc) i}"
proof -
  let ?rows = "set (batch_disables w ds allAnc)"
  have d: "{z \<in> ?rows. wd_scope z = WDevice \<and> wd_scope_id z = d} = {z \<in> set (window_disables w). wd_scope z = WDevice \<and> wd_scope_id z = d}"
    using assms(1) by (auto simp: batch_disables_def)
  have g: "{z \<in> ?rows. wd_scope z = WGroup \<and> wd_scope_id z = a} = {z \<in> set (window_disables w). wd_scope z = WGroup \<and> wd_scope_id z = a}"
    if "a \<in> set anc" for a
  proof -
    have "a \<in> set allAnc" "allAnc \<noteq> []" using that assms(2) by auto
    then show ?thesis by (auto simp: batch_disables_def)
  qed
  have "set (concat (map (entries (disables_of WGroup (batch_disables w ds allAnc))) anc)) =
      (\<Union>a \<in> set anc. wd_window ` {z \<in> set (window_disables w). wd_scope z = WGroup \<and> wd_scope_id z = a})"
    unfolding set_concat set_map image_image disables_of_entries using g by (intro arg_cong [where f = Union] image_cong) simp_all
  then show ?thesis unfolding set_append disables_of_entries d by (auto simp: switched_off_def)
qed

lemma batch_device_maintained:
  fixes w :: "'a mw_db_scheme"
  assumes "(d, g) \<in> set devs"
  defines "am \<equiv> batch_ancestors w (uniq (List.map_filter snd devs))"
  defines "rows \<equiv> batch_disables w (map fst devs) (uniq (concat (map snd am)))"
  shows "batch_device env (now_ms w) (map rowToWindow (maintenance_windows w)) am (disables_of WDevice rows) (disables_of WGroup rows) (d, g) \<longleftrightarrow>
    maintained env w d (set (own_ancestors w g))"
proof -
  let ?anc = "own_ancestors w g"
  have anc: "(if truthy_id g then entries am (the g) else []) = ?anc"
  proof (cases g)
    case (Some k)
    then have "k \<in> set (uniq (List.map_filter snd devs))" using assms(1) by (force simp: List.map_filter_def)
    then show ?thesis unfolding am_def using Some by (simp add: own_ancestors_def batch_ancestors_entries)
  qed (simp add: own_ancestors_def)
  have "set ?anc \<subseteq> set (concat (map snd am))"
    unfolding anc [symmetric] using entries_in_concat [of _ am] by (cases "truthy_id g") (auto simp del: set_concat)
  then have dis: "set (entries (disables_of WDevice rows) d @ concat (map (entries (disables_of WGroup rows)) ?anc)) =
      {i. switched_off w d (set ?anc) i}"
    unfolding rows_def using assms(1) by (intro batch_disabled_ids) force+
  have o: "(case i of None \<Rightarrow> False | Some k \<Rightarrow> k \<in> set ?anc) \<longleftrightarrow> (\<exists>a \<in> set ?anc. i = Some a)" for i
    by (cases i) auto
  have t: "truthy_id g" if "a \<in> set ?anc" for a using that by (auto simp: own_ancestors_def split: if_splits)
  show ?thesis
    unfolding batch_device_def Let_def fst_conv snd_conv anc dis list_ex_iff o mem_Collect_eq maintained_def reaches_def
    by (simp add: Bex_def) (use t in blast)
qed

lemma in_maintenance_batch:
  assumes "(d, g) \<in> set devs" and "\<forall>g'. (d, g') \<in> set devs \<longrightarrow> g' = g"
  shows "d \<in> set (getInMaintenanceDeviceIds env devs w) \<longleftrightarrow> maintained env w d (set (own_ancestors w g))"
proof -
  let ?am = "batch_ancestors w (uniq (List.map_filter snd devs))"
  let ?rows = "batch_disables w (map fst devs) (uniq (concat (map snd ?am)))"
  let ?P = "batch_device env (now_ms w) (map rowToWindow (maintenance_windows w)) ?am (disables_of WDevice ?rows) (disables_of WGroup ?rows)"
  have "d \<in> set (getInMaintenanceDeviceIds env devs w) \<longleftrightarrow> (\<exists>g'. (d, g') \<in> set devs \<and> ?P (d, g'))"
    unfolding getInMaintenanceDeviceIds_def Let_def by (force simp: image_iff)
  also have "\<dots> \<longleftrightarrow> ?P (d, g)" using assms by blast
  finally show ?thesis using batch_device_maintained [OF assms(1)] by simp
qed

text \<open>The windows that hold for a device by the tree of groups, not by the closure table.\<close>

definition tree_ancestors :: "'a mw_db_scheme \<Rightarrow> nat option \<Rightarrow> nat set" where
  "tree_ancestors w g = {a. \<exists>k n. g = Some k \<and> nth_anc (par_of w) n k = Some a}"

lemma own_ancestors_tree:
  assumes "closure_ok w" and "\<forall>k. g = Some k \<longrightarrow> k \<in> group_ids w"
  shows "set (own_ancestors w g) = tree_ancestors w g"
proof (cases g)
  case (Some k)
  then have k: "k \<in> group_ids w" using assms(2) by simp
  then have pos: "0 < k" using assms(1) by (simp add: closure_ok_def groups_ok_def)
  have "a \<in> set (getAncestorGroupIds w k) \<longleftrightarrow> (\<exists>n. nth_anc (par_of w) n k = Some a)" for a
  proof
    assume "a \<in> set (getAncestorGroupIds w k)"
    then show "\<exists>n. nth_anc (par_of w) n k = Some a"
      using closure_ok_mem [OF assms(1)] by (auto simp: getAncestorGroupIds_def)
  next
    assume "\<exists>n. nth_anc (par_of w) n k = Some a"
    then obtain n where "\<lparr>cl_anc = a, cl_desc = k, cl_depth = n\<rparr> \<in> set (group_closure w)"
      using closure_row_exists [OF assms(1) k] by blast
    then show "a \<in> set (getAncestorGroupIds w k)" by (force simp: getAncestorGroupIds_def)
  qed
  then show ?thesis using Some pos by (auto simp: own_ancestors_def tree_ancestors_def)
qed (simp add: own_ancestors_def tree_ancestors_def)

text \<open>
  C30. The three ways to ask whether a device is in maintenance agree: the single check on an empty cache, the batch
  over any list of devices, and the list of effective windows (an active window that is not switched off) all say that
  some active window reaches the device: its own windows, and the windows of the groups above it and the global ones
  that no disable of the device or of a group above it names.
\<close>

theorem maintenance_answers_agree:
  assumes "closure_ok w" and "\<forall>k. g = Some k \<longrightarrow> k \<in> group_ids w"
    and "(d, g) \<in> set devs" and "\<forall>g'. (d, g') \<in> set devs \<longrightarrow> g' = g"
  shows "(snd (isInMaintenance env d g (clear_cache w)) \<longleftrightarrow> maintained env w d (tree_ancestors w g)) \<and>
    (d \<in> set (getInMaintenanceDeviceIds env devs w) \<longleftrightarrow> maintained env w d (tree_ancestors w g)) \<and>
    ((\<exists>e \<in> set (getEffectiveWindows env w WDevice d g). ew_active e \<and> \<not> ew_disabled e) \<longleftrightarrow> maintained env w d (tree_ancestors w g))"
proof -
  have c: "maintained env (clear_cache w) d A = maintained env w d A" "own_ancestors (clear_cache w) g = own_ancestors w g" for A
    by (simp_all add: maintained_def reaches_def switched_off_def own_ancestors_def getAncestorGroupIds_def clear_cache_def)
  have "getCached k (clear_cache w) = (clear_cache w, None)" for k by (simp add: getCached_def clear_cache_def)
  then have "snd (isInMaintenance env d g (clear_cache w)) = maintained env w d (set (own_ancestors w g))"
    by (simp add: isInMaintenance_def fresh_maintained c Let_def)
  then show ?thesis
    unfolding in_maintenance_batch [OF assms(3,4)] effective_maintained own_ancestors_tree [OF assms(1,2)] by simp
qed

section \<open>Histories\<close>

text \<open>
  What can happen to the tables: the handlers of any request, the timers, a check, and time. A check names the group the
  device is in; groups and devices do not change here.
\<close>

inductive mw_step :: "mt_env \<Rightarrow> 'a mw_db_scheme \<Rightarrow> 'a mw_db_scheme \<Rightarrow> bool" for env where
  create: "mw_step env w (fst (createHandler env rq b w))"
| update: "mw_step env w (fst (updateHandler env rq n ub w))"
| delete: "mw_step env w (fst (deleteHandler rq n w))"
| disable: "mw_step env w (fst (disableHandler rq n sc i w))"
| enable: "mw_step env w (fst (enableHandler rq n sc i w))"
| check: "mw_step env w (fst (isInMaintenance env d g w))"
| cleanup: "mw_step env w (cleanup_tick w)"
| transition: "mw_step env w (transition_tick env w)"
| tick: "0 \<le> ms \<Longrightarrow> mw_step env w (w\<lparr>now_ms := now_ms w + ms\<rparr>)"

text \<open>What a check at instant \<open>t\<close> computes from the tables.\<close>

definition answer_at :: "mt_env \<Rightarrow> 'a mw_db_scheme \<Rightarrow> int \<Rightarrow> nat \<Rightarrow> nat option \<Rightarrow> bool" where
  "answer_at env w t d g = maintained env (w\<lparr>now_ms := t\<rparr>) d (set (own_ancestors w g))"

definition cache_inv :: "mt_env \<Rightarrow> 'a mw_db_scheme \<Rightarrow> bool" where
  "cache_inv env w \<longleftrightarrow> (\<forall>d g v t. map_of (maintenanceCache w) (cache_key d g) = Some (v, t) \<longrightarrow>
     t \<le> now_ms w \<and> (now_ms w - t \<le> maintenance_ttl_ms \<longrightarrow> v = answer_at env w t d g))"

lemma cache_key_inj: "cache_key d g = cache_key d' g' \<Longrightarrow> d = d' \<and> g = g'"
proof -
  have sp: "split_on CHR '':'' (cache_key d g) = [''device'', show_nat d, case g of None \<Rightarrow> ''null'' | Some n \<Rightarrow> show_nat n]" for d g
  proof -
    have "split_on CHR '':'' (''device:'' @ show_nat d @ '':'' @ r) = [''device'', show_nat d, r]" if "CHR '':'' \<notin> set r" for r
      using that split_on_append [of "CHR '':''" "''device''" "show_nat d @ '':'' @ r"] by (simp add: split_on_append split_on_no_sep)
    then show ?thesis unfolding cache_key_def by (cases g) auto
  qed
  have null: "show_nat n \<noteq> ''null''" for n
    using show_nat_digits [of n] by (auto simp: is_digit_def)
  assume "cache_key d g = cache_key d' g'"
  then have "split_on CHR '':'' (cache_key d g) = split_on CHR '':'' (cache_key d' g')" by simp
  then show ?thesis using null null [symmetric] unfolding sp by (cases g; cases g') auto
qed

lemma cache_key_eq [simp]: "cache_key d g = cache_key d' g' \<longleftrightarrow> d = d' \<and> g = g'"
  using cache_key_inj by blast

text \<open>The parts of the tables a check reads.\<close>

definition mw_view :: "'a mw_db_scheme \<Rightarrow> window_row list \<times> disable_row list \<times> closure_row list" where
  "mw_view w = (maintenance_windows w, window_disables w, group_closure w)"

lemma answer_at_cong: "mw_view w' = mw_view w \<Longrightarrow> answer_at env w' t d g = answer_at env w t d g"
  by (simp add: mw_view_def answer_at_def maintained_def reaches_def switched_off_def own_ancestors_def getAncestorGroupIds_def)

lemma cache_inv_empty: "maintenanceCache w = [] \<Longrightarrow> cache_inv env w"
  by (simp add: cache_inv_def)

lemma cache_inv_sub:
  assumes "mw_view w' = mw_view w" and "now_ms w' = now_ms w" and "cache_inv env w"
    and "\<forall>k e. map_of (maintenanceCache w') k = Some e \<longrightarrow> map_of (maintenanceCache w) k = Some e"
  shows "cache_inv env w'"
  using assms(3,4) unfolding cache_inv_def answer_at_cong [OF assms(1)] assms(2) by blast

lemma map_of_filter_other: "map_of (filter (\<lambda>e. fst e \<noteq> k) m) k' = (if k' = k then None else map_of m k')"
  by (induction m) auto

lemma check_inv:
  assumes "cache_inv env w"
  shows "cache_inv env (fst (isInMaintenance env d g w)) \<and>
    (\<exists>t. now_ms w - maintenance_ttl_ms \<le> t \<and> t \<le> now_ms w \<and> snd (isInMaintenance env d g w) = answer_at env w t d g)"
proof (cases "getCached (cache_key d g) w")
  case (Pair w1 r)
  have w1: "mw_view w1 = mw_view w" "now_ms w1 = now_ms w"
    using Pair by (auto simp: getCached_def mw_view_def split: option.splits if_splits)
  have "\<forall>k e. map_of (maintenanceCache w1) k = Some e \<longrightarrow> map_of (maintenanceCache w) k = Some e"
    using Pair by (auto simp: getCached_def map_of_filter_other split: option.splits if_splits)
  with w1 assms have inv1: "cache_inv env w1" by (blast intro: cache_inv_sub)
  show ?thesis
  proof (cases r)
    case (Some v)
    then have "w1 = w" "\<exists>t. map_of (maintenanceCache w) (cache_key d g) = Some (v, t) \<and> now_ms w - t \<le> maintenance_ttl_ms"
      using Pair by (auto simp: getCached_def split: option.splits if_splits)
    then obtain t where "w1 = w" "t \<le> now_ms w" "now_ms w - t \<le> maintenance_ttl_ms" "v = answer_at env w t d g"
      using assms unfolding cache_inv_def by blast
    then show ?thesis using Pair Some assms by (auto simp: isInMaintenance_def intro!: exI [of _ t])
  next
    case None
    let ?v = "fresh_maintenance env w1 d g"
    have "?v = answer_at env w1 (now_ms w1) d g" by (simp add: fresh_maintained answer_at_def)
    then have v: "?v = answer_at env w (now_ms w) d g" unfolding answer_at_cong [OF w1(1)] w1(2) .
    have set: "mw_view (setCache k b w1) = mw_view w" "now_ms (setCache k b w1) = now_ms w" for k b
      using w1 by (simp_all add: setCache_def mw_view_def)
    have "cache_inv env (setCache (cache_key d g) ?v w1)"
      using inv1 unfolding cache_inv_def answer_at_cong [OF set(1)] answer_at_cong [OF w1(1)] set(2) w1(2) v
      by (auto simp: setCache_def map_of_filter_other w1(2))
    moreover have "isInMaintenance env d g w = (setCache (cache_key d g) ?v w1, ?v)"
      using Pair None by (simp add: isInMaintenance_def Let_def)
    ultimately show ?thesis using v by (auto simp: maintenance_ttl_ms_def intro!: exI [of _ "now_ms w"])
  qed
qed

text \<open>The ids of the table are a key, and the sequence is past them.\<close>

definition windows_ok :: "'a mw_db_scheme \<Rightarrow> bool" where
  "windows_ok w \<longleftrightarrow> keyed mw_id (maintenance_windows w) \<and> (\<forall>x \<in> set (maintenance_windows w). mw_id x < window_seq w)"

definition written :: "'a mw_db_scheme \<Rightarrow> 'a mw_db_scheme \<Rightarrow> bool" where
  "written w w' \<longleftrightarrow> w' = w \<or> maintenanceCache w' = [] \<and> windows_ok w'"

lemma windows_ok_delete: "windows_ok w \<Longrightarrow> windows_ok (deleteWindows P w)"
  by (auto simp: windows_ok_def deleteWindows_def Let_def keyed_tbl_delete tbl_simps)

lemma windows_ok_update:
  assumes "windows_ok w" and "\<And>r. mw_id (f r) = mw_id r"
  shows "windows_ok (w\<lparr>maintenance_windows := tbl_update P f (maintenance_windows w)\<rparr>)"
  using assms by (auto simp: windows_ok_def keyed_tbl_update tbl_simps)

lemma windows_ok_cong: "maintenance_windows w' = maintenance_windows w \<Longrightarrow> window_seq w' = window_seq w \<Longrightarrow> windows_ok w' = windows_ok w"
  by (simp add: windows_ok_def)

lemma clear_cache_fields [simp]:
  "maintenanceCache (clear_cache w) = []" "maintenance_windows (clear_cache w) = maintenance_windows w"
  "window_disables (clear_cache w) = window_disables w" "window_seq (clear_cache w) = window_seq w" "windows_ok (clear_cache w) = windows_ok w"
  by (simp_all add: clear_cache_def windows_ok_def)

lemma conflict_target_refused: "\<not> has_unique_key disables_unique_keys [''window_id'', ''scope_type'', ''scope_id'']"
  by (simp add: has_unique_key_def disables_unique_keys_def)

lemma disable_refused: "disableWindowForScope i sc sid w = (w, Some MwNoConflictTarget)"
  by (simp add: disableWindowForScope_def conflict_target_refused)

lemma transition_job_fails: "checkMaintenanceTransitions env w = (w, Some MwNoFunction)"
  by (simp add: checkMaintenanceTransitions_def is_array_type_def channels_column_type_def)

lemma create_window_cases:
  "fst (createWindow env x w) = w \<or> (\<exists>row. mw_tenant row = wn_tenant x \<and> mw_id row = window_seq w \<and>
     fst (createWindow env x w) = clear_cache (w\<lparr>maintenance_windows := maintenance_windows w @ [row], window_seq := window_seq w + 1\<rparr>))"
proof (cases "scope_of_text (wn_scope x) = None \<or> schedule_of_text (wn_schedule x) = None \<or> mt_date env (wn_starts x) = None \<or>
    mt_date env (wn_ends x) = None \<or> \<not> mt_stores env (case wn_channels x of None \<Rightarrow> [] | Some c \<Rightarrow> c)")
  case True
  then have "fst (createWindow env x w) = w"
    by (auto simp: createWindow_def Let_def simp del: scope_of_text.simps schedule_of_text.simps split: option.splits)
  then show ?thesis ..
next
  case False
  then obtain sc sch st en where "scope_of_text (wn_scope x) = Some sc" "schedule_of_text (wn_schedule x) = Some sch"
      "mt_date env (wn_starts x) = Some st" "mt_date env (wn_ends x) = Some en" "mt_stores env (case wn_channels x of None \<Rightarrow> [] | Some c \<Rightarrow> c)"
    by auto
  note eqs = this
  show ?thesis unfolding createWindow_def Let_def eqs
    using eqs(5) by (intro disjI2) (simp, intro exI conjI, rule_tac [3] refl, simp_all)
qed

lemma create_written: "windows_ok w \<Longrightarrow> written w (fst (createWindow env x w))"
  using create_window_cases [of env x w] unfolding written_def
  by (elim disjE exE conjE) (fastforce simp: windows_ok_def keyed_snoc less_Suc_eq)+

lemma update_written: "windows_ok w \<Longrightarrow> written w (fst (updateWindow env i p w))"
  by (auto simp: updateWindow_def written_def Let_def apply_patch_def intro!: windows_ok_update)

lemma update_handler_cases:
  "fst (updateHandler env rq n ub w) = w \<or>
   (\<exists>i. column_id n = Some i \<and> loadOwnedWindow i rq w \<noteq> None \<and> fst (updateHandler env rq n ub w) = fst (updateWindow env i (update_patch ub) w))"
proof (cases "column_id n")
  case (Some i)
  then show ?thesis
    by (cases "loadOwnedWindow i rq w"; cases "updateWindow env i (update_patch ub) w")
      (auto simp: updateHandler_def split: sum.split option.split)
qed (simp add: updateHandler_def)

lemma handlers_written:
  assumes "windows_ok w"
  shows "written w (fst (createHandler env rq b w))" "written w (fst (updateHandler env rq n ub w))"
    "written w (fst (deleteHandler rq n w))" "written w (fst (disableHandler rq n sc i w))" "written w (fst (enableHandler rq n sc i w))"
proof -
  show "written w (fst (createHandler env rq b w))"
    using create_written [OF assms, of env "created_data rq b"]
    by (auto simp: createHandler_def written_def split: option.split prod.split sum.split)
  show "written w (fst (updateHandler env rq n ub w))"
    using update_written [OF assms] update_handler_cases [of env rq n ub w] by (metis written_def)
  show "written w (fst (deleteHandler rq n w))"
    using windows_ok_delete [OF assms] by (auto simp: deleteHandler_def deleteWindow_def written_def split: option.split)
  show "written w (fst (disableHandler rq n sc i w))"
    by (auto simp: disableHandler_def disable_refused written_def split: sum.split prod.split)
  show "written w (fst (enableHandler rq n sc i w))"
    using assms by (auto simp: enableHandler_def enableWindowForScope_def written_def windows_ok_def split: sum.split prod.split)
qed

lemma written_inv: "written w w' \<Longrightarrow> windows_ok w \<and> cache_inv env w \<Longrightarrow> windows_ok w' \<and> cache_inv env w'"
  by (auto simp: written_def intro: cache_inv_empty)

lemmas handler_inv = handlers_written [THEN written_inv]

text \<open>The clean-up removes windows that were over long before any cached answer.\<close>

lemma cleanup_answer:
  fixes w :: "'a mw_db_scheme"
  assumes "windows_ok w" and "now_ms w - t \<le> maintenance_ttl_ms"
  shows "answer_at env (cleanup_tick w) t d g = answer_at env w t d g"
proof -
  define P :: "window_row \<Rightarrow> bool" where "P = (\<lambda>r. mw_schedule r = OneTime \<and> mw_ends r < now_ms w - 30 * 24 * 60 * 60 * 1000)"
  have w': "cleanup_tick w = deleteWindows P w" by (simp add: cleanup_tick_def cleanupExpiredOneTime_def P_def)
  let ?A = "set (own_ancestors w g)"
  have A: "own_ancestors (deleteWindows P w) g = own_ancestors w g"
    by (simp add: deleteWindows_def Let_def own_ancestors_def getAncestorGroupIds_def)
  have over: "\<not> isWindowActive env x t" if "P x" for x using that assms(2) by (auto simp: P_def isWindowActive_def maintenance_ttl_ms_def)
  have sw: "switched_off (deleteWindows P w) d ?A (mw_id x) = switched_off w d ?A (mw_id x)" if x: "x \<in> set (maintenance_windows w)" "\<not> P x" for x
  proof -
    have "mw_id x \<notin> mw_id ` set (filter P (maintenance_windows w))"
      using x assms(1) by (auto simp: windows_ok_def keyed_def dest: inj_onD [OF distinct_map [THEN iffD1, THEN conjunct2]])
    moreover have "set (window_disables (deleteWindows P w)) =
        {z \<in> set (window_disables w). wd_window z \<notin> mw_id ` set (filter P (maintenance_windows w))}"
      by (auto simp: deleteWindows_def Let_def tbl_simps)
    ultimately show ?thesis unfolding switched_off_def by (metis (no_types, lifting) mem_Collect_eq)
  qed
  have "x \<in> set (maintenance_windows (deleteWindows P w)) \<longleftrightarrow> x \<in> set (maintenance_windows w) \<and> \<not> P x" for x
    by (auto simp: deleteWindows_def Let_def tbl_simps)
  moreover have n: "switched_off (u\<lparr>now_ms := t\<rparr>) = switched_off u" for u :: "'a mw_db_scheme"
    by (simp add: switched_off_def fun_eq_iff)
  ultimately show ?thesis
    using over sw unfolding answer_at_def w' A maintained_def reaches_def n by (simp add: Bex_def) blast
qed

lemma cleanup_inv:
  assumes "windows_ok w" and "cache_inv env w"
  shows "windows_ok (cleanup_tick w) \<and> cache_inv env (cleanup_tick w)"
proof
  show "windows_ok (cleanup_tick w)" using windows_ok_delete [OF assms(1)] by (simp add: cleanup_tick_def cleanupExpiredOneTime_def)
  have f: "maintenanceCache (cleanup_tick w) = maintenanceCache w" "now_ms (cleanup_tick w) = now_ms w"
    by (simp_all add: cleanup_tick_def cleanupExpiredOneTime_def deleteWindows_def Let_def)
  show "cache_inv env (cleanup_tick w)" using assms(2) cleanup_answer [OF assms(1)] unfolding cache_inv_def f by blast
qed

lemma mw_step_inv:
  assumes "mw_step env w w'" and "windows_ok w \<and> cache_inv env w"
  shows "windows_ok w' \<and> cache_inv env w'"
  using assms
proof cases
  case (check d g)
  have "windows_ok (fst (isInMaintenance env d g w)) = windows_ok w"
    by (intro windows_ok_cong; auto simp: isInMaintenance_def getCached_def setCache_def Let_def split: option.split)
  then show ?thesis using check check_inv assms(2) by blast
next
  case transition
  then show ?thesis using assms(2) by (simp add: transition_tick_def transition_job_fails cache_inv_empty)
next
  case (tick ms)
  have "answer_at env w' t d g = answer_at env w t d g" for t d g unfolding tick(1) by (rule answer_at_cong) (simp add: mw_view_def)
  then show ?thesis using tick assms(2) by (fastforce simp: cache_inv_def windows_ok_def)
next
  case (create rq b)
  show ?thesis unfolding create using assms(2) handler_inv(1) by blast
next
  case (update rq n ub)
  show ?thesis unfolding update using assms(2) handler_inv(2) by blast
next
  case (delete rq n)
  show ?thesis unfolding delete using assms(2) handler_inv(3) by blast
next
  case (disable rq n sc i)
  show ?thesis unfolding disable using assms(2) handler_inv(4) by blast
next
  case (enable rq n sc i)
  show ?thesis unfolding enable using assms(2) handler_inv(5) by blast
next
  case cleanup
  show ?thesis unfolding cleanup using assms(2) cleanup_inv by blast
qed

interpretation maintenance_machine: guarded_machine "\<lambda>w. windows_ok w \<and> cache_inv env w" "mw_step env" for env
  by unfold_locales (rule mw_step_inv)


section \<open>Tenants\<close>

definition others :: "nat \<Rightarrow> 'a mw_db_scheme \<Rightarrow> window_row list" where
  "others t w = filter (\<lambda>x. mw_tenant x \<noteq> t) (maintenance_windows w)"

definition tenant_write :: "nat \<Rightarrow> 'a mw_db_scheme \<Rightarrow> 'a mw_db_scheme \<Rightarrow> bool" where
  "tenant_write t w w' \<longleftrightarrow> others t w' = others t w \<and> set (window_disables w') \<subseteq> set (window_disables w) \<and>
     (\<forall>z \<in> set (window_disables w) - set (window_disables w'). \<exists>x \<in> set (maintenance_windows w). mw_id x = wd_window z \<and> mw_tenant x = t)"

lemma tenant_write_refl: "tenant_write t w w"
  by (simp add: tenant_write_def)

lemma owned_window:
  assumes "windows_ok w" and "loadOwnedWindow i rq w \<noteq> None" and "rq_tenant rq \<noteq> 1"
  shows "\<exists>x \<in> set (maintenance_windows w). mw_id x = i \<and> mw_tenant x = rq_tenant rq"
    and "x \<in> set (maintenance_windows w) \<Longrightarrow> mw_id x = i \<Longrightarrow> mw_tenant x = rq_tenant rq"
proof -
  obtain y where y: "find (\<lambda>r. mw_id r = i) (maintenance_windows w) = Some y" "mw_tenant y = rq_tenant rq"
    using assms(2,3) by (auto simp: loadOwnedWindow_def windowById_def isMasterTenant_def split: option.splits if_splits)
  then show "\<exists>x \<in> set (maintenance_windows w). mw_id x = i \<and> mw_tenant x = rq_tenant rq"
    using find_SomeD [OF y(1)] by blast
  show "mw_tenant x = rq_tenant rq" if "x \<in> set (maintenance_windows w)" "mw_id x = i"
    using that y find_keyed [of mw_id "maintenance_windows w" x] assms(1) by (simp add: windows_ok_def)
qed

lemma filter_update_other:
  "(\<And>r. r \<in> set rows \<Longrightarrow> Q r \<Longrightarrow> \<not> P r \<and> \<not> P (f r)) \<Longrightarrow> filter P (tbl_update Q f rows) = filter P rows"
  by (induction rows) (auto simp: tbl_update_def)

lemma create_in_tenant: "tenant_write (rq_tenant rq) w (fst (createHandler env rq b w))"
proof -
  have "tenant_write (wn_tenant x) w (fst (createWindow env x w))" for x
    using create_window_cases [of env x w] by (auto simp: tenant_write_def others_def)
  from this [of "created_data rq b"] show ?thesis
    by (auto simp: createHandler_def created_data_def tenant_write_refl split: option.split prod.split sum.split)
qed

lemma update_in_tenant:
  assumes "windows_ok w" and "rq_tenant rq \<noteq> 1"
  shows "tenant_write (rq_tenant rq) w (fst (updateHandler env rq n ub w))"
proof -
  have "tenant_write (rq_tenant rq) w (fst (updateWindow env i p w))" if "loadOwnedWindow i rq w \<noteq> None" for i p
  proof -
    have "filter (\<lambda>x. mw_tenant x \<noteq> rq_tenant rq) (tbl_update (\<lambda>r. mw_id r = i) (apply_patch env p) (maintenance_windows w)) = others (rq_tenant rq) w"
      unfolding others_def using owned_window(2) [OF assms(1) that assms(2)]
      by (intro filter_update_other) (simp add: apply_patch_def)
    then show ?thesis by (simp add: updateWindow_def tenant_write_def others_def Let_def)
  qed
  then show ?thesis using update_handler_cases [of env rq n ub w] tenant_write_refl by metis
qed

lemma delete_in_tenant:
  assumes "windows_ok w" and "rq_tenant rq \<noteq> 1"
  shows "tenant_write (rq_tenant rq) w (fst (deleteHandler rq n w))"
proof -
  have "tenant_write (rq_tenant rq) w (deleteWindow i w)" if "loadOwnedWindow i rq w \<noteq> None" for i
  proof -
    have "others (rq_tenant rq) (deleteWindow i w) = others (rq_tenant rq) w"
      using owned_window(2) [OF assms(1) that assms(2)]
      by (auto simp: others_def deleteWindow_def deleteWindows_def tbl_delete_def Let_def filter_filter intro!: filter_cong)
    moreover have "set (window_disables (deleteWindow i w)) = {z \<in> set (window_disables w). wd_window z \<notin> mw_id ` set (filter (\<lambda>r. mw_id r = i) (maintenance_windows w))}"
      by (auto simp: deleteWindow_def deleteWindows_def Let_def tbl_simps)
    ultimately show ?thesis using owned_window [OF assms(1) that assms(2)] by (auto simp: tenant_write_def)
  qed
  then show ?thesis by (auto simp: deleteHandler_def tenant_write_refl split: option.split)
qed

lemma toggle_owned: "toggle_check rq n sc i w = Inr (j, s, k) \<Longrightarrow> loadOwnedWindow j rq w \<noteq> None"
  by (auto simp: toggle_check_def Let_def split: if_splits option.splits)

lemma enable_in_tenant:
  assumes "windows_ok w" and "rq_tenant rq \<noteq> 1"
  shows "tenant_write (rq_tenant rq) w (fst (enableHandler rq n sc i w))"
proof (cases "toggle_check rq n sc i w")
  case (Inr r)
  obtain j s k where r: "r = (j, s, k)" by (cases r)
  have "loadOwnedWindow j rq w \<noteq> None" using toggle_owned Inr r by blast
  from owned_window(1) [OF assms(1) this assms(2)] show ?thesis
    using Inr r by (auto simp: enableHandler_def enableWindowForScope_def tenant_write_def others_def tbl_simps)
qed (simp add: enableHandler_def tenant_write_refl)

text \<open>
  C33. The maintenance handlers of a tenant other than the master tenant never change or remove a window of another
  tenant, and lift only disables of the tenant's own windows. A disable is never stored at all: the statement names a
  conflict target the table has no unique key for, so the handler answers 500 and leaves the tables as they were.
\<close>

theorem maintenance_writes_stay_in_tenant:
  assumes "windows_ok w" and "rq_tenant rq \<noteq> 1"
  shows "tenant_write (rq_tenant rq) w (fst (createHandler env rq b w)) \<and>
    tenant_write (rq_tenant rq) w (fst (updateHandler env rq n ub w)) \<and>
    tenant_write (rq_tenant rq) w (fst (deleteHandler rq n w)) \<and>
    tenant_write (rq_tenant rq) w (fst (enableHandler rq n sc i w)) \<and>
    fst (disableHandler rq n sc i w) = w \<and> snd (disableHandler rq n sc i w) \<noteq> OkResponse"
proof -
  have "toggle_check rq n sc i w \<noteq> Inl OkResponse"
    by (auto simp: toggle_check_def bad_id_def Let_def server_error_def split: if_splits option.splits jsnum.splits)
  then have "fst (disableHandler rq n sc i w) = w \<and> snd (disableHandler rq n sc i w) \<noteq> OkResponse"
    by (auto simp: disableHandler_def disable_refused server_error_def split: sum.split prod.split)
  then show ?thesis
    using create_in_tenant update_in_tenant [OF assms] delete_in_tenant [OF assms] enable_in_tenant [OF assms] by blast
qed

section \<open>Examples\<close>

definition ex_env :: mt_env where
  "ex_env = \<lparr>mt_time = (\<lambda>tz now. Some (Some (show_nat 0), Some (show_nat 30))), mt_weekday = (\<lambda>tz now. Some (Some ''Mon'')),
     mt_number = (\<lambda>r. []), mt_iso = (\<lambda>t. ''1970''), mt_date = (\<lambda>s. Some 0), mt_stores = (\<lambda>c. True), mt_plugin = (\<lambda>t. True)\<rparr>"

text \<open>A weekly window of two hours, Mondays at 23:00.\<close>

definition ex_window :: window_row where
  "ex_window = \<lparr>mw_id = 1, mw_tenant = 2, mw_name = ''night'', mw_scope = WDevice, mw_scope_id = Some 9, mw_schedule = Recurring, mw_starts = 0,
     mw_ends = 0, mw_rule = Some \<lparr>rule_frequency = Some ''weekly'', rule_days = Some [0], rule_time = Some (clock_text 1380), rule_duration = Val (of_nat 120)\<rparr>,
     mw_timezone = ''UTC'', mw_channels = Some [], mw_dedup = None, mw_created_by = None, mw_created = 0\<rparr>"

definition ex_mw :: mw_db where
  "ex_mw = nt_db.extend ex_nt \<lparr>maintenance_windows = [ex_window], window_seq = 2, window_disables = [], maintenanceCache = [], maintenance_sent = []\<rparr>"

lemma ex_window_rule:
  "rule_time (window_rule ex_window) = Some (clock_text 1380)" "rule_duration (window_rule ex_window) = Val (of_nat 120)"
  "mw_schedule ex_window = Recurring"
  by (simp_all add: ex_window_def window_rule_def)

lemma ex_window_recurs: "recurs ex_env ex_window now"
  by (simp add: recurs_def ex_window_def window_rule_def getNowDayOfWeekInTz_def ex_env_def weekday_numbers_def)


lemma ex_mw_tables:
  "maintenance_windows ex_mw = [ex_window]" "window_disables ex_mw = []" "maintenanceCache ex_mw = []" "windows_ok ex_mw" "now_ms ex_mw = now_ms ex_nt"
  by (simp_all add: ex_mw_def nt_db.defs windows_ok_def keyed_def ex_window_def)

lemma ex_mw_closure: "closure_ok ex_mw"
proof -
  have "device_groups ex_mw = []" "group_closure ex_mw = []" "group_seq ex_mw = 1"
    by (simp_all add: ex_mw_def nt_db.defs ex_nt_def cq_db.defs ex_cq_def)
  then show ?thesis by (simp add: closure_ok_def groups_ok_def group_ids_def keyed_def par_of_def forest_def anc_spec_def)
qed

lemma ex_window_active: "isWindowActive ex_env ex_window now"
proof -
  have "getNowTimeInTz ex_env (mw_timezone ex_window) now = clock_text 30" by (simp add: getNowTimeInTz_def clock_text_def ex_env_def)
  then show ?thesis
    using ex_window_recurs [of now] in_range_lapse [of 1380 30 120]
    by (auto simp: isWindowActive_def Let_def ex_window_rule rule_start_clock rule_range_clock [of 1380 _ 120, simplified] recurs_def lapse_def split: option.splits)
qed

theorem maintenance_answers_agree_witness: "9 \<in> set (getInMaintenanceDeviceIds ex_env [(9, None), (10, None)] ex_mw)"
proof -
  have r: "reaches ex_mw 9 (tree_ancestors ex_mw None) ex_window" by (simp add: reaches_def ex_window_def)
  with ex_window_active have "maintained ex_env ex_mw 9 (tree_ancestors ex_mw None)" by (auto simp: maintained_def ex_mw_tables)
  then show ?thesis using maintenance_answers_agree [OF ex_mw_closure, of None 9 "[(9, None), (10, None)]" ex_env] by simp
qed


theorem maintenance_writes_stay_in_tenant_witness:
  "others 3 (fst (deleteHandler \<lparr>rq_tenant = 3, rq_user = None\<rparr> (Fin 1) ex_mw)) = [ex_window] \<and>
   snd (disableHandler \<lparr>rq_tenant = 2, rq_user = None\<rparr> (Fin 1) (Some ''device'') (Some (Fin 9)) ex_mw) \<noteq> OkResponse"
proof -
  have "others 3 ex_mw = [ex_window]" by (simp add: others_def ex_mw_tables) (simp add: ex_window_def)
  then show ?thesis
    using maintenance_writes_stay_in_tenant [OF ex_mw_tables(4), of "\<lparr>rq_tenant = 3, rq_user = None\<rparr>" _ _ "Fin 1"]
      maintenance_writes_stay_in_tenant [OF ex_mw_tables(4), of "\<lparr>rq_tenant = 2, rq_user = None\<rparr>" _ _ "Fin 1" _ "Some ''device''" "Some (Fin 9)"]
    by (simp add: tenant_write_def)
qed

end
