(* ===== verification/Schedule.thy ===== *)
theory Schedule
  imports Command_Queue Permission
begin

text \<open>
  Scheduled scripts (\<^verbatim>\<open>server/src/services/schedule.service.ts\<close>): the target devices of a schedule, the tick that runs due
  schedules, the dispatch of an execution with its command, manual execution, the sweeper of stale executions, the
  acknowledgement that ends an execution (\<^verbatim>\<open>command.service.ts\<close>) and the gate on who may schedule what
  (\<^verbatim>\<open>routes/schedule.routes.ts\<close>). The arguments of \<open>sd_env\<close> are the cron library (is an expression accepted, the next
  instant) and the columns of a device that a run condition may name. \<open>None\<close> and \<open>False\<close> results stand for an
  exception, which ends the run of the schedule and leaves what was written before it. Target ids are numbers, as the client sends them.
\<close>

section \<open>Tables\<close>

record script_source =
  sx_id :: nat
  sx_tenant :: "nat option"
  sx_shared :: "nat list option"
  sx_name :: string
  sx_platform :: string
  sx_runtime :: string
  sx_content :: string
  sx_timeout :: "int option"
  sx_expected :: "int option"
  sx_run_as :: "string option"

record run_condition =
  rc_field :: string
  rc_operator :: string
  rc_value :: json

record schedule_def =
  sd_id :: nat
  sd_tenant :: nat
  sd_script :: nat
  sd_target_type :: "string option"
  sd_target_ids :: "jsnum list option"
  sd_cron :: "string option"
  sd_timezone :: "string option"
  sd_fire_once :: "int option"
  sd_next_run :: "int option"
  sd_last_run :: "int option"
  sd_timeout :: "int option"
  sd_parameters :: "json_obj option"
  sd_conditions :: "run_condition list option"
  sd_skip :: "bool option"
  sd_bypass :: bool
  sd_catchup :: bool
  sd_catchup_max :: nat
  sd_enabled :: bool

record execution_row =
  xn_id :: string
  xn_tenant :: nat
  xn_script :: nat
  xn_device :: nat
  xn_schedule :: "nat option"
  xn_snapshot :: json_obj
  xn_parameters :: json_obj
  xn_batch :: "string option"
  xn_status :: string
  xn_triggered_by :: string
  xn_user :: "nat option"
  xn_triggered :: int
  xn_catchup :: bool
  xn_catchup_for :: "int option"
  xn_command :: "string option"
  xn_started :: "int option"
  xn_finished :: "int option"
  xn_exit :: json
  xn_stdout :: json
  xn_stderr :: json

record sd_db = cq_db +
  all_scripts :: "script_source list"
  schedules :: "schedule_def list"
  executions :: "execution_row list"
  approved_devices :: "nat list"

record sd_env =
  se_cron_ok :: "string \<Rightarrow> bool"
  se_next :: "string \<Rightarrow> string option \<Rightarrow> int \<Rightarrow> int option"
  se_column :: "nat \<Rightarrow> string \<Rightarrow> json option"

definition master_tenant :: nat where "master_tenant = 1"

definition scriptVisibleToTenant :: "nat \<Rightarrow> nat \<Rightarrow> 'a sd_db_scheme \<Rightarrow> script_source option" where
  "scriptVisibleToTenant i t w =
     find (\<lambda>s. sx_id s = i \<and> (t = master_tenant \<or> sx_tenant s = Some t \<or> sx_tenant s = None \<or>
        (case sx_shared s of None \<Rightarrow> False | Some ts \<Rightarrow> t \<in> set ts))) (all_scripts w)"

definition in_flight :: "string list" where
  "in_flight = [''pending'', ''sent'', ''running'']"

section \<open>Targets\<close>

definition alive_statuses :: "string list" where
  "alive_statuses = [''online'', ''warning'', ''critical'']"

definition approved_of :: "nat \<Rightarrow> 'a sd_db_scheme \<Rightarrow> device_row list" where
  "approved_of t w = filter (\<lambda>d. dev_tenant d = t \<and> dev_id d \<in> set (approved_devices w)) (devices w)"

text \<open>An id of a \<open>WHERE IN\<close> over an integer column; the database refuses any other number.\<close>

definition column_int :: "jsnum \<Rightarrow> int option" where
  "column_int n = (case n of Fin r \<Rightarrow> if r = of_int \<lfloor>r\<rfloor> \<and> \<bar>r\<bar> \<le> 2147483647 then Some \<lfloor>r\<rfloor> else None | NonFin \<Rightarrow> None)"

fun column_ints :: "jsnum list \<Rightarrow> int list option" where
  "column_ints [] = Some []"
| "column_ints (n # ns) = (case column_int n of None \<Rightarrow> None | Some i \<Rightarrow> map_option (\<lambda>is. i # is) (column_ints ns))"

definition with_descendants :: "int list \<Rightarrow> 'a sd_db_scheme \<Rightarrow> int list" where
  "with_descendants ids w =
     uniq (ids @ map (\<lambda>r. int (cl_desc r)) (filter (\<lambda>r. int (cl_anc r) \<in> set ids) (group_closure w)))"

definition in_groups :: "int list \<Rightarrow> device_row \<Rightarrow> bool" where
  "in_groups gs d \<longleftrightarrow> (case dev_group d of None \<Rightarrow> False | Some g \<Rightarrow> int g \<in> set gs)"

definition resolveTargetDevices :: "schedule_def \<Rightarrow> 'a sd_db_scheme \<Rightarrow> device_row list option" where
  "resolveTargetDevices s w =
     (let raw = (case sd_target_ids s of None \<Rightarrow> [] | Some x \<Rightarrow> x);
          q = filter (\<lambda>d. dev_status d \<in> set alive_statuses) (approved_of (sd_tenant s) w)
      in if sd_target_type s = Some ''device'' \<and> raw \<noteq> []
         then map_option (\<lambda>ids. filter (\<lambda>d. int (dev_id d) \<in> set ids) q) (column_ints raw)
         else if sd_target_type s = Some ''group'' \<and> raw \<noteq> []
         then map_option (\<lambda>ids. filter (in_groups (with_descendants ids w)) q) (column_ints raw)
         else Some q)"

definition resolveTargetDeviceIdsForAuthz :: "nat \<Rightarrow> string option \<Rightarrow> jsnum list option \<Rightarrow> 'a sd_db_scheme \<Rightarrow> nat list" where
  "resolveTargetDeviceIdsForAuthz t targetType rawTargetIds w =
     (let ids = map int (List.map_filter int_id (case rawTargetIds of None \<Rightarrow> [] | Some x \<Rightarrow> x));
          q = approved_of t w
      in map dev_id
           (if targetType = Some ''device'' \<and> ids \<noteq> [] then filter (\<lambda>d. int (dev_id d) \<in> set ids) q
            else if targetType = Some ''group'' \<and> ids \<noteq> [] then filter (in_groups (with_descendants ids w)) q
            else q))"

datatype schedule_refusal = ScriptIdRequired | ScriptNotFound | ExecuteNotPermitted nat

text \<open>\<open>getScriptById\<close> has the scope of \<open>scriptVisibleToTenant\<close>.\<close>

definition assertMayScheduleScript ::
  "nat \<Rightarrow> bool \<Rightarrow> nat \<Rightarrow> jsnum \<Rightarrow> string option \<Rightarrow> jsnum list option \<Rightarrow> 'a sd_db_scheme \<Rightarrow> schedule_refusal option" where
  "assertMayScheduleScript user isAdmin t scriptId targetType targetIds w =
     (case int_id scriptId of
        None \<Rightarrow> Some ScriptIdRequired
      | Some i \<Rightarrow>
          if scriptVisibleToTenant i t w = None then Some ScriptNotFound
          else if isAdmin then None
          else (case devicesLackingCapability w user (map (\<lambda>d. Fin (of_nat d)) (resolveTargetDeviceIdsForAuthz t targetType targetIds w)) ''execute'' of
                  [] \<Rightarrow> None
                | d # _ \<Rightarrow> Some (ExecuteNotPermitted d)))"

section \<open>Running\<close>

text \<open>Strict equality of a column with a JSON value: objects and arrays are never identical to another value.\<close>

fun strict_eq :: "json option \<Rightarrow> json \<Rightarrow> bool" where
  "strict_eq (Some (JObj _)) _ = False"
| "strict_eq (Some (JArr _)) _ = False"
| "strict_eq (Some v) x = (v = x)"
| "strict_eq None x = False"

text \<open>\<open>value.includes\<close> exists on arrays and strings; on anything else the call throws.\<close>

definition includes_value :: "json \<Rightarrow> json option \<Rightarrow> bool option" where
  "includes_value c v =
     (case c of
        JArr xs \<Rightarrow> Some (list_ex (strict_eq v) xs)
      | JStr s \<Rightarrow> (case v of Some (JStr p) \<Rightarrow> Some (includes_str s p) | _ \<Rightarrow> None)
      | _ \<Rightarrow> None)"

fun checkConditions :: "(string \<Rightarrow> json option) \<Rightarrow> run_condition list \<Rightarrow> bool option" where
  "checkConditions col [] = Some True"
| "checkConditions col (c # cs) =
     (let v = col (rc_field c)
      in if rc_operator c = ''eq'' then (if strict_eq v (rc_value c) then checkConditions col cs else Some False)
         else if rc_operator c = ''neq'' then (if strict_eq v (rc_value c) then Some False else checkConditions col cs)
         else if rc_operator c = ''in''
         then (case includes_value (rc_value c) v of None \<Rightarrow> None | Some True \<Rightarrow> checkConditions col cs | Some False \<Rightarrow> Some False)
         else checkConditions col cs)"

definition infinite_timeout :: int where "infinite_timeout = 86400"

definition effective_timeout :: "int option \<Rightarrow> int option \<Rightarrow> int" where
  "effective_timeout schedule script =
     (if schedule = Some 0 then infinite_timeout
      else case schedule of
        Some n \<Rightarrow> if n > 0 then n
                  else if script = Some 0 then infinite_timeout else (case script of Some m \<Rightarrow> if m > 0 then m else 300 | None \<Rightarrow> 300)
      | None \<Rightarrow> if script = Some 0 then infinite_timeout else (case script of Some m \<Rightarrow> if m > 0 then m else 300 | None \<Rightarrow> 300))"

definition script_snapshot :: "script_source \<Rightarrow> int option \<Rightarrow> json_obj" where
  "script_snapshot s timeout =
     [(''id'', js_nat (Some (sx_id s))), (''name'', JStr (sx_name s)), (''platform'', JStr (sx_platform s)), (''runtime'', JStr (sx_runtime s)),
      (''content'', JStr (sx_content s)), (''timeoutSeconds'', js_int timeout), (''runAs'', js_str (sx_run_as s))]"

definition run_payload :: "script_source \<Rightarrow> string \<Rightarrow> json_obj \<Rightarrow> int option \<Rightarrow> bool \<Rightarrow> json_obj" where
  "run_payload s execId params timeout bypass =
     [(''executionId'', JStr execId), (''runtime'', JStr (sx_runtime s)), (''content'', JStr (sx_content s)), (''parameters'', JObj params),
      (''timeoutSeconds'', js_int timeout), (''expectedExitCode'', js_int (Some (case sx_expected s of None \<Rightarrow> 0 | Some e \<Rightarrow> e))),
      (''runAs'', js_str (sx_run_as s))] @ (if bypass then [(''bypassPrivacy'', JBool True)] else [])"

definition new_uuid :: "'a sd_db_scheme \<Rightarrow> 'a sd_db_scheme \<times> string" where
  "new_uuid w = (w\<lparr>next_uuid := next_uuid w + 1\<rparr>, uuid_pool w (next_uuid w))"

text \<open>Insert the execution, enqueue its command and link the two; \<open>False\<close> when the queue refuses the command.\<close>

definition launch_execution :: "execution_row \<Rightarrow> enqueue_args \<Rightarrow> 'a sd_db_scheme \<Rightarrow> 'a sd_db_scheme \<times> bool" where
  "launch_execution e args w =
     (case enqueue args (w\<lparr>executions := executions w @ [e]\<rparr>) of
        (w1, None) \<Rightarrow> (w1, False)
      | (w1, Some cmd) \<Rightarrow>
          (w1\<lparr>executions := tbl_update (\<lambda>r. xn_id r = xn_id e)
                (\<lambda>r. r\<lparr>xn_command := (case map_of cmd ''id'' of Some (JStr i) \<Rightarrow> Some i | _ \<Rightarrow> None)\<rparr>) (executions w1)\<rparr>, True))"

definition dispatchExecution ::
  "schedule_def \<Rightarrow> nat \<Rightarrow> bool \<Rightarrow> int option \<Rightarrow> string option \<Rightarrow> 'a sd_db_scheme \<Rightarrow> 'a sd_db_scheme \<times> bool" where
  "dispatchExecution s d isCatchup catchupFor batch w =
     (case scriptVisibleToTenant (sd_script s) (sd_tenant s) w of
        None \<Rightarrow> (w, True)
      | Some script \<Rightarrow>
          (let timeout = effective_timeout (sd_timeout s) (sx_timeout script);
               params = (case sd_parameters s of None \<Rightarrow> [] | Some p \<Rightarrow> p);
               (w1, i) = new_uuid w;
               e = \<lparr>xn_id = i, xn_tenant = sd_tenant s, xn_script = sd_script s, xn_device = d, xn_schedule = Some (sd_id s),
                    xn_snapshot = script_snapshot script (Some timeout), xn_parameters = params,
                    xn_batch = (if batch = Some [] then None else batch), xn_status = ''pending'',
                    xn_triggered_by = (if isCatchup then ''catchup'' else ''schedule''), xn_user = None, xn_triggered = now_ms w,
                    xn_catchup = isCatchup, xn_catchup_for = catchupFor, xn_command = None, xn_started = None, xn_finished = None,
                    xn_exit = JNull, xn_stdout = JNull, xn_stderr = JNull\<rparr>;
               args = \<lparr>ea_device = d, ea_tenant = sd_tenant s, ea_type = ''run_script'',
                       ea_payload = run_payload script i params (Some timeout) (sd_bypass s), ea_priority = Some ''normal'',
                       ea_max_retries = 0, ea_expires_in = Some (timeout + 300), ea_source_type = Some ''script_execution'',
                       ea_source_id = Some i, ea_created_by = None\<rparr>
           in launch_execution e args w1))"

definition in_flight_devices :: "schedule_def \<Rightarrow> device_row list \<Rightarrow> 'a sd_db_scheme \<Rightarrow> nat list" where
  "in_flight_devices s ds w =
     (if sd_skip s \<noteq> Some False \<and> ds \<noteq> []
      then map xn_device (filter (\<lambda>e. xn_schedule e = Some (sd_id s) \<and> xn_device e \<in> dev_id ` set ds \<and> xn_status e \<in> set in_flight) (executions w))
      else [])"

fun run_devices ::
  "sd_env \<Rightarrow> schedule_def \<Rightarrow> nat list \<Rightarrow> string \<Rightarrow> device_row list \<Rightarrow> 'a sd_db_scheme \<Rightarrow> 'a sd_db_scheme \<times> bool" where
  "run_devices env s flying batch [] w = (w, True)"
| "run_devices env s flying batch (d # ds) w =
     (if dev_id d \<in> set flying then run_devices env s flying batch ds w
      else if dev_privacy d \<and> \<not> sd_bypass s then run_devices env s flying batch ds w
      else case checkConditions (se_column env (dev_id d)) (case sd_conditions s of None \<Rightarrow> [] | Some cs \<Rightarrow> cs) of
        None \<Rightarrow> (w, False)
      | Some False \<Rightarrow> run_devices env s flying batch ds w
      | Some True \<Rightarrow>
          (case dispatchExecution s (dev_id d) False None (Some batch) w of
             (w1, False) \<Rightarrow> (w1, False)
           | (w1, True) \<Rightarrow> run_devices env s flying batch ds w1))"

text \<open>The loop breaks after it has parsed the expression: no instant is ever collected. \<open>None\<close> is the parser's exception.\<close>

definition getMissedExecutionTimes :: "sd_env \<Rightarrow> string \<Rightarrow> int \<Rightarrow> int \<Rightarrow> nat \<Rightarrow> int list option" where
  "getMissedExecutionTimes env cron fr to mx =
     (if fr + 60000 < to \<and> 0 < mx then (if se_cron_ok env cron then Some [] else None) else Some [])"

fun catchup_devices ::
  "schedule_def \<Rightarrow> int \<Rightarrow> string \<Rightarrow> device_row list \<Rightarrow> 'a sd_db_scheme \<Rightarrow> 'a sd_db_scheme \<times> bool" where
  "catchup_devices s missed batch [] w = (w, True)"
| "catchup_devices s missed batch (d # ds) w =
     (if dev_privacy d \<and> \<not> sd_bypass s then catchup_devices s missed batch ds w
      else case dispatchExecution s (dev_id d) True (Some missed) (Some batch) w of
             (w1, False) \<Rightarrow> (w1, False)
           | (w1, True) \<Rightarrow> catchup_devices s missed batch ds w1)"

fun catchup_times :: "schedule_def \<Rightarrow> device_row list \<Rightarrow> int list \<Rightarrow> 'a sd_db_scheme \<Rightarrow> 'a sd_db_scheme \<times> bool" where
  "catchup_times s ds [] w = (w, True)"
| "catchup_times s ds (t # ts) w =
     (let (w0, batch) = new_uuid w
      in case catchup_devices s t batch ds w0 of
           (w1, False) \<Rightarrow> (w1, False)
         | (w1, True) \<Rightarrow> catchup_times s ds ts w1)"

definition processCatchup :: "sd_env \<Rightarrow> schedule_def \<Rightarrow> device_row list \<Rightarrow> 'a sd_db_scheme \<Rightarrow> 'a sd_db_scheme \<times> bool" where
  "processCatchup env s ds w =
     (case (sd_cron s, sd_last_run s) of
        (Some cron, Some lastRun) \<Rightarrow>
          if cron = [] then (w, True)
          else (case getMissedExecutionTimes env cron lastRun (now_ms w) (if sd_catchup_max s = 0 then 3 else sd_catchup_max s) of
                  None \<Rightarrow> (w, False)
                | Some ts \<Rightarrow> catchup_times s ds ts w)
      | _ \<Rightarrow> (w, True))"

definition computeNextRun :: "sd_env \<Rightarrow> schedule_def \<Rightarrow> int \<Rightarrow> int option" where
  "computeNextRun env s fr =
     (if sd_fire_once s \<noteq> None then None
      else case sd_cron s of
        None \<Rightarrow> None
      | Some c \<Rightarrow>
          if c = [] then None
          else (case se_next env c (if sd_timezone s = Some [] then None else sd_timezone s) fr of None \<Rightarrow> Some (fr + 60000) | Some t \<Rightarrow> Some t))"

definition finish_run :: "sd_env \<Rightarrow> schedule_def \<Rightarrow> 'a sd_db_scheme \<Rightarrow> 'a sd_db_scheme" where
  "finish_run env s w =
     w\<lparr>schedules := tbl_update (\<lambda>r. sd_id r = sd_id s)
         (\<lambda>r. r\<lparr>sd_last_run := Some (now_ms w), sd_next_run := computeNextRun env s (now_ms w),
                sd_enabled := (if sd_fire_once s \<noteq> None then False else sd_enabled r)\<rparr>) (schedules w)\<rparr>"

definition runSchedule :: "sd_env \<Rightarrow> 'a sd_db_scheme \<Rightarrow> schedule_def \<Rightarrow> 'a sd_db_scheme" where
  "runSchedule env w s =
     (case resolveTargetDevices s w of
        None \<Rightarrow> w
      | Some ds \<Rightarrow>
          (let (w0, batch) = new_uuid w
           in case run_devices env s (in_flight_devices s ds w0) batch ds w0 of
                (w1, False) \<Rightarrow> w1
              | (w1, True) \<Rightarrow>
                  (case (if sd_catchup s \<and> sd_last_run s \<noteq> None then processCatchup env s ds w1 else (w1, True)) of
                     (w2, False) \<Rightarrow> w2
                   | (w2, True) \<Rightarrow> finish_run env s w2)))"

definition due :: "int \<Rightarrow> schedule_def \<Rightarrow> bool" where
  "due now s \<longleftrightarrow> sd_enabled s \<and>
     ((case sd_next_run s of None \<Rightarrow> False | Some t \<Rightarrow> t \<le> now) \<or> (case sd_fire_once s of None \<Rightarrow> False | Some t \<Rightarrow> t \<le> now))"

definition schedule_tick :: "sd_env \<Rightarrow> 'a sd_db_scheme \<Rightarrow> 'a sd_db_scheme" where
  "schedule_tick env w = foldl (runSchedule env) w (filter (due (now_ms w)) (schedules w))"

text \<open>Manual execution. \<open>None\<close> is an exception: an unknown script, or a command the queue refuses.\<close>

definition manual_row :: "script_source \<Rightarrow> nat \<Rightarrow> nat \<Rightarrow> json_obj option \<Rightarrow> nat \<Rightarrow> string \<Rightarrow> nat \<Rightarrow> string \<Rightarrow> int \<Rightarrow> execution_row" where
  "manual_row script scriptId t params user batch d i now =
     \<lparr>xn_id = i, xn_tenant = t, xn_script = scriptId, xn_device = d, xn_schedule = None,
      xn_snapshot = script_snapshot script (sx_timeout script), xn_parameters = (case params of None \<Rightarrow> [] | Some p \<Rightarrow> p),
      xn_batch = Some batch, xn_status = ''pending'', xn_triggered_by = ''manual'', xn_user = Some user,
      xn_triggered = now, xn_catchup = False, xn_catchup_for = None, xn_command = None, xn_started = None,
      xn_finished = None, xn_exit = JNull, xn_stdout = JNull, xn_stderr = JNull\<rparr>"

definition manual_command :: "script_source \<Rightarrow> nat \<Rightarrow> json_obj option \<Rightarrow> nat \<Rightarrow> nat \<Rightarrow> string \<Rightarrow> enqueue_args" where
  "manual_command script t params user d i =
     \<lparr>ea_device = d, ea_tenant = t, ea_type = ''run_script'',
      ea_payload = filter (\<lambda>p. fst p \<noteq> ''parameters'' \<or> params \<noteq> None)
        (run_payload script i (case params of None \<Rightarrow> [] | Some p \<Rightarrow> p) (sx_timeout script) False),
      ea_priority = Some ''high'', ea_max_retries = 0,
      ea_expires_in = Some ((case sx_timeout script of None \<Rightarrow> 0 | Some n \<Rightarrow> n) + 300),
      ea_source_type = Some ''script_execution'', ea_source_id = Some i, ea_created_by = Some user\<rparr>"

fun execute_devices ::
  "script_source \<Rightarrow> nat \<Rightarrow> nat \<Rightarrow> json_obj option \<Rightarrow> nat \<Rightarrow> string \<Rightarrow> nat list \<Rightarrow> 'a sd_db_scheme \<Rightarrow> 'a sd_db_scheme \<times> execution_row list option"
where
  "execute_devices script scriptId t params user batch [] w = (w, Some [])"
| "execute_devices script scriptId t params user batch (d # ds) w =
     (if find (\<lambda>r. dev_id r = d \<and> dev_tenant r = t) (devices w) = None then execute_devices script scriptId t params user batch ds w
      else case new_uuid w of
        (w1, i) \<Rightarrow>
          (case launch_execution (manual_row script scriptId t params user batch d i (now_ms w)) (manual_command script t params user d i) w1 of
             (w2, False) \<Rightarrow> (w2, None)
           | (w2, True) \<Rightarrow>
               (case execute_devices script scriptId t params user batch ds w2 of
                  (w3, res) \<Rightarrow> (w3, map_option (\<lambda>es. manual_row script scriptId t params user batch d i (now_ms w) # es) res))))"

definition executeNow ::
  "nat \<Rightarrow> nat list \<Rightarrow> nat \<Rightarrow> json_obj option \<Rightarrow> nat \<Rightarrow> 'a sd_db_scheme \<Rightarrow> 'a sd_db_scheme \<times> execution_row list option" where
  "executeNow scriptId deviceIds t params user w =
     (case scriptVisibleToTenant scriptId t w of
        None \<Rightarrow> (w, None)
      | Some script \<Rightarrow> (let (w0, batch) = new_uuid w in execute_devices script scriptId t params user batch deviceIds w0))"

section \<open>The end of an execution\<close>

text \<open>
  The timeout recorded in the snapshot, an integer column of the script or the schedule. The sweep reads the rows
  in flight once, then ends the stale ones; all its instants are the same.
\<close>

definition snapshot_timeout :: "json_obj \<Rightarrow> rat" where
  "snapshot_timeout s = (case map_of s ''timeoutSeconds'' of Some (JNum r) \<Rightarrow> if r > 0 then r else 300 | _ \<Rightarrow> 300)"

definition stale :: "int \<Rightarrow> execution_row \<Rightarrow> bool" where
  "stale now e \<longleftrightarrow> of_int (now - xn_triggered e) > (snapshot_timeout (xn_snapshot e) + 60) * 1000"

definition execution_event :: "execution_row \<Rightarrow> string \<Rightarrow> json_obj" where
  "execution_event e status =
     [(''id'', JStr (xn_id e)), (''batchId'', js_str (xn_batch e)), (''scheduleId'', js_nat (xn_schedule e)),
      (''deviceId'', js_nat (Some (xn_device e))), (''status'', JStr status)]"

definition sweep_one :: "'a sd_db_scheme \<Rightarrow> execution_row \<Rightarrow> 'a sd_db_scheme" where
  "sweep_one w row =
     (if stale (now_ms w) row
      then emit (RTenant (xn_tenant row)) ''EXECUTION_UPDATED'' (execution_event row ''timeout'')
        (w\<lparr>executions := tbl_update (\<lambda>e. xn_id e = xn_id row)
              (\<lambda>e. e\<lparr>xn_status := ''timeout'', xn_finished := Some (now_ms w),
                     xn_stderr := JStr (''Execution exceeded '' @ show_nat (nat \<lfloor>snapshot_timeout (xn_snapshot row)\<rfloor>) @
                                        ''s timeout (no agent response)'')\<rparr>) (executions w),
           command_queue := tbl_update
              (\<lambda>c. cq_source_type c = Some ''script_execution'' \<and> cq_source_id c = Some (xn_id row) \<and> cq_status c \<in> set [''pending'', ''sent''])
              (\<lambda>c. c\<lparr>cq_status := ''timeout'', cq_finished := Some (now_ms w)\<rparr>) (command_queue w)\<rparr>)
      else w)"

definition sweepStaleExecutions :: "'a sd_db_scheme \<Rightarrow> 'a sd_db_scheme" where
  "sweepStaleExecutions w = foldl sweep_one w (filter (\<lambda>e. xn_status e \<in> set in_flight) (executions w))"

text \<open>
  The columns a terminal acknowledgement writes. \<open>exit_code\<close> is a 32-bit integer column and \<open>started_at\<close> a date:
  the database refuses the whole update (\<open>None\<close>) when the number does not fit. Exit codes and durations are numbers
  in every result an agent sends; any other JSON value is taken as refused.
\<close>

definition exit_column :: "json_obj \<Rightarrow> json option" where
  "exit_column r =
     (case map_of r ''exitCode'' of
        None \<Rightarrow> Some JNull
      | Some JNull \<Rightarrow> Some JNull
      | Some (JNum q) \<Rightarrow> if column_int (Fin q) \<noteq> None \<or> q = -2147483648 then Some (JNum q) else None
      | Some _ \<Rightarrow> None)"

definition started_column :: "int \<Rightarrow> json_obj \<Rightarrow> int option" where
  "started_column now r =
     (case map_of r ''duration'' of
        None \<Rightarrow> Some now
      | Some JNull \<Rightarrow> Some now
      | Some (JNum q) \<Rightarrow> if \<bar>of_int now - q\<bar> \<le> 8640000000000000 then Some \<lfloor>of_int now - q\<rfloor> else None
      | Some _ \<Rightarrow> None)"

definition result_field :: "json_obj \<Rightarrow> string \<Rightarrow> json" where
  "result_field r k = (case map_of r k of None \<Rightarrow> JNull | Some v \<Rightarrow> v)"

definition ack_execution :: "nat \<Rightarrow> command_ack \<Rightarrow> command_row option \<Rightarrow> 'a sd_db_scheme \<Rightarrow> 'a sd_db_scheme" where
  "ack_execution t a row w =
     (case row of
        None \<Rightarrow> w
      | Some c \<Rightarrow>
          if is_terminal a \<and> cq_source_type c = Some ''script_execution'' \<and> cq_source_id c \<noteq> None \<and> cq_source_id c \<noteq> Some []
          then (case (exit_column (ack_result_obj a), started_column (now_ms w) (ack_result_obj a)) of
                  (Some code, Some started) \<Rightarrow>
                    (let hit = (\<lambda>e. Some (xn_id e) = cq_source_id c);
                         status = (if ack_status a \<in> set [''success'', ''timeout''] then ack_status a else ''failure'');
                         w1 = w\<lparr>executions := tbl_update hit
                                (\<lambda>e. e\<lparr>xn_status := status, xn_exit := code, xn_stdout := result_field (ack_result_obj a) ''stdout'',
                                       xn_stderr := result_field (ack_result_obj a) ''stderr'', xn_started := Some started,
                                       xn_finished := Some (now_ms w)\<rparr>) (executions w)\<rparr>
                     in case find hit (executions w1) of
                          None \<Rightarrow> w1
                        | Some e \<Rightarrow> emit (RTenant t) ''EXECUTION_UPDATED''
                            (execution_event e status @
                             [(''scriptId'', js_nat (Some (xn_script e))), (''exitCode'', result_field (ack_result_obj a) ''exitCode''),
                              (''startedAt'', js_date (xn_started e)), (''finishedAt'', js_date (xn_finished e))]) w1)
                | _ \<Rightarrow> w)
          else w)"

definition ack_script :: "nat \<Rightarrow> nat \<Rightarrow> command_ack \<Rightarrow> 'a sd_db_scheme \<Rightarrow> 'a sd_db_scheme" where
  "ack_script d t a w = (case processAck d t a w of (w1, row) \<Rightarrow> ack_execution t a row w1)"

text \<open>The columns of the table, and an update the database refuses when it names another one.\<close>

definition execution_columns :: "string list" where
  "execution_columns =
     [''id'', ''tenant_id'', ''script_id'', ''device_id'', ''schedule_id'', ''command_queue_id'', ''script_snapshot'', ''parameter_values'',
      ''status'', ''triggered_by'', ''triggered_by_user_id'', ''triggered_at'', ''sent_at'', ''started_at'', ''finished_at'', ''exit_code'',
      ''stdout'', ''stderr'', ''is_catchup'', ''catchup_for_at'', ''created_at'', ''batch_id'']"

definition update_executions ::
  "string list \<Rightarrow> (execution_row \<Rightarrow> bool) \<Rightarrow> (execution_row \<Rightarrow> execution_row) \<Rightarrow> 'a sd_db_scheme \<Rightarrow> 'a sd_db_scheme option" where
  "update_executions cols hit f w =
     (if list_all (\<lambda>c. c \<in> set execution_columns) cols then Some (w\<lparr>executions := tbl_update hit f (executions w)\<rparr>) else None)"

datatype execution_reply = ExDone | ExNotFound | ExForbidden | ExNoCommand | ExDatabaseError

definition cancelExecution :: "string \<Rightarrow> nat \<Rightarrow> nat \<Rightarrow> bool \<Rightarrow> 'a sd_db_scheme \<Rightarrow> 'a sd_db_scheme \<times> execution_reply" where
  "cancelExecution i t user isAdmin w =
     (case find (\<lambda>e. xn_id e = i \<and> xn_tenant e = t) (executions w) of
        None \<Rightarrow> (w, ExNotFound)
      | Some e \<Rightarrow>
          if \<not> isAdmin \<and> \<not> canWriteDevice w user (xn_device e) False then (w, ExForbidden)
          else (case update_executions [''status'', ''updated_at''] (\<lambda>r. xn_id r = i \<and> xn_tenant r = t \<and> xn_status r = ''pending'')
                       (\<lambda>r. r\<lparr>xn_status := ''cancelled''\<rparr>) w of
                  None \<Rightarrow> (w, ExDatabaseError)
                | Some w1 \<Rightarrow> (w1, ExDone)))"

definition stopExecution :: "string \<Rightarrow> nat \<Rightarrow> nat \<Rightarrow> bool \<Rightarrow> 'a sd_db_scheme \<Rightarrow> 'a sd_db_scheme \<times> execution_reply" where
  "stopExecution i t user isAdmin w =
     (case find (\<lambda>e. xn_id e = i \<and> xn_tenant e = t \<and> xn_status e \<in> set [''running'', ''sent'']) (executions w) of
        None \<Rightarrow> (w, ExNotFound)
      | Some e \<Rightarrow>
          if \<not> isAdmin \<and> \<not> canWriteDevice w user (xn_device e) False then (w, ExForbidden)
          else (case xn_command e of
                  None \<Rightarrow> (w, ExNoCommand)
                | Some c \<Rightarrow>
                    (case enqueue \<lparr>ea_device = xn_device e, ea_tenant = t, ea_type = ''cancel_script'',
                                   ea_payload = [(''commandQueueId'', JStr c)], ea_priority = Some ''urgent'', ea_max_retries = 0,
                                   ea_expires_in = None, ea_source_type = None, ea_source_id = None, ea_created_by = Some user\<rparr> w of
                       (w1, None) \<Rightarrow> (w1, ExDatabaseError)
                     | (w1, Some _) \<Rightarrow>
                         (case update_executions [''status'', ''finished_at''] (\<lambda>r. xn_id r = i)
                                (\<lambda>r. r\<lparr>xn_status := ''cancelled'', xn_finished := Some (now_ms w1)\<rparr>) w1 of
                            None \<Rightarrow> (w1, ExDatabaseError)
                          | Some w2 \<Rightarrow> (w2, ExDone)))))"

datatype sd_event =
    SdTick
  | SdSweep
  | SdAck nat nat command_ack
  | SdExecute nat "nat list" nat "json_obj option" nat
  | SdCancel string nat nat bool
  | SdStop string nat nat bool
  | SdQueue cq_event

fun sd_apply :: "sd_env \<Rightarrow> 'a sd_db_scheme \<Rightarrow> sd_event \<Rightarrow> 'a sd_db_scheme" where
  "sd_apply env w SdTick = schedule_tick env w"
| "sd_apply env w SdSweep = sweepStaleExecutions w"
| "sd_apply env w (SdAck d t a) = ack_script d t a w"
| "sd_apply env w (SdExecute i ds t ps u) = fst (executeNow i ds t ps u w)"
| "sd_apply env w (SdCancel i t u adm) = fst (cancelExecution i t u adm w)"
| "sd_apply env w (SdStop i t u adm) = fst (stopExecution i t u adm w)"
| "sd_apply env w (SdQueue ev) = cq_apply ev w"

section \<open>What a run adds\<close>

text \<open>What a run of a schedule leaves alone, and the executions up to their link to a command.\<close>

definition same_site :: "'a sd_db_scheme \<Rightarrow> 'a sd_db_scheme \<Rightarrow> bool" where
  "same_site w w' \<longleftrightarrow> devices w' = devices w \<and> approved_devices w' = approved_devices w \<and> group_closure w' = group_closure w \<and>
     all_scripts w' = all_scripts w \<and> now_ms w' = now_ms w"

definition unlinked :: "'a sd_db_scheme \<Rightarrow> execution_row list" where
  "unlinked w = map (\<lambda>e. e\<lparr>xn_command := None\<rparr>) (executions w)"

lemma same_site_refl [simp]: "same_site w w"
  by (simp add: same_site_def)

lemma same_site_trans: "same_site w w' \<Longrightarrow> same_site w' w'' \<Longrightarrow> same_site w w''"
  by (simp add: same_site_def)

lemma same_site_visible: "same_site w w' \<Longrightarrow> scriptVisibleToTenant i t w' = scriptVisibleToTenant i t w"
  by (simp add: same_site_def scriptVisibleToTenant_def)

lemma enqueue_frame [simp]:
  fixes w :: "'a sd_db_scheme"
  shows "executions (fst (enqueue a w)) = executions w" "schedules (fst (enqueue a w)) = schedules w" "same_site w (fst (enqueue a w))"
  by (auto simp: enqueue_def same_site_def cq_defs split: prod.splits)

lemma unlinked_link:
  "map (\<lambda>e. e\<lparr>xn_command := None\<rparr>) (tbl_update P (\<lambda>e. e\<lparr>xn_command := c\<rparr>) es) = map (\<lambda>e. e\<lparr>xn_command := None\<rparr>) es"
  by (simp add: map_tbl_update)

lemma launch_execution_frame:
  fixes w :: "'a sd_db_scheme"
  assumes "launch_execution e args w = (w', ok)"
  shows "same_site w w' \<and> schedules w' = schedules w \<and> unlinked w' = unlinked w @ [e\<lparr>xn_command := None\<rparr>]"
proof -
  let ?w = "w\<lparr>executions := executions w @ [e]\<rparr>"
  obtain w1 res where q: "enqueue args ?w = (w1, res)" by fastforce
  have "executions w1 = executions ?w" "schedules w1 = schedules ?w" "same_site ?w w1"
    using enqueue_frame [where a = args and w = ?w] by (simp_all add: q)
  then show ?thesis
    using assms by (auto simp: launch_execution_def q same_site_def unlinked_def unlinked_link split: option.splits)
qed

definition dispatched :: "schedule_def \<Rightarrow> nat \<Rightarrow> 'a sd_db_scheme \<Rightarrow> execution_row \<Rightarrow> bool" where
  "dispatched s d w e \<longleftrightarrow> xn_schedule e = Some (sd_id s) \<and> xn_tenant e = sd_tenant s \<and> xn_device e = d \<and> xn_status e = ''pending'' \<and>
     xn_triggered e = now_ms w \<and>
     (case scriptVisibleToTenant (sd_script s) (sd_tenant s) w of
        None \<Rightarrow> False
      | Some x \<Rightarrow> xn_snapshot e = script_snapshot x (Some (effective_timeout (sd_timeout s) (sx_timeout x))))"

lemma new_uuid_frame [simp]:
  "executions (fst (new_uuid w)) = executions w" "schedules (fst (new_uuid w)) = schedules w" "same_site w (fst (new_uuid w))"
  "unlinked (fst (new_uuid w)) = unlinked w" "now_ms (fst (new_uuid w)) = now_ms w" "devices (fst (new_uuid w)) = devices w"
  by (simp_all add: new_uuid_def same_site_def unlinked_def)

lemma dispatch_frame:
  fixes w :: "'a sd_db_scheme"
  assumes "dispatchExecution s d c f b w = (w', ok)"
  shows "same_site w w' \<and> schedules w' = schedules w \<and>
    (\<exists>new. unlinked w' = unlinked w @ new \<and> (new = [] \<or> (\<exists>e. new = [e] \<and> dispatched s d w e)))"
proof (cases "scriptVisibleToTenant (sd_script s) (sd_tenant s) w")
  case None
  then show ?thesis using assms by (simp add: dispatchExecution_def)
next
  case (Some x)
  obtain w1 i where u: "new_uuid w = (w1, i)" by fastforce
  with assms Some obtain e args where l: "launch_execution e args w1 = (w', ok)" and e: "dispatched s d w e"
    by (simp add: dispatchExecution_def Let_def dispatched_def)
  have "same_site w w1" "schedules w1 = schedules w" "unlinked w1 = unlinked w" using new_uuid_frame [of w] by (simp_all add: u)
  moreover have "dispatched s d w (e\<lparr>xn_command := None\<rparr>)" using e by (simp add: dispatched_def split: option.splits)
  ultimately show ?thesis using launch_execution_frame [OF l] same_site_trans by auto
qed

lemma dispatched_cong: "same_site w w' \<Longrightarrow> dispatched s d w' e = dispatched s d w e"
  by (simp add: dispatched_def same_site_visible) (simp add: same_site_def)

definition may_run :: "schedule_def \<Rightarrow> device_row \<Rightarrow> bool" where
  "may_run s d \<longleftrightarrow> \<not> dev_privacy d \<or> sd_bypass s"

lemma run_devices_frame:
  fixes w :: "'a sd_db_scheme"
  assumes "run_devices env s flying batch ds w = (w', ok)" and "distinct (map dev_id ds)"
  shows "same_site w w' \<and> schedules w' = schedules w \<and>
    (\<exists>new. unlinked w' = unlinked w @ new \<and> distinct (map xn_device new) \<and>
       (\<forall>e \<in> set new. xn_device e \<notin> set flying \<and> (\<exists>d \<in> set ds. may_run s d \<and> dispatched s (dev_id d) w e)))"
  using assms
proof (induction ds arbitrary: w)
  case (Cons d ds)
  let ?go = "dev_id d \<notin> set flying \<and> \<not> (dev_privacy d \<and> \<not> sd_bypass s) \<and>
      checkConditions (se_column env (dev_id d)) (case sd_conditions s of None \<Rightarrow> [] | Some cs \<Rightarrow> cs) = Some True"
  consider "w' = w" | "\<not> ?go" "run_devices env s flying batch ds w = (w', ok)"
    | w1 where ?go "dispatchExecution s (dev_id d) False None (Some batch) w = (w1, False)" "w' = w1"
    | w1 where ?go "dispatchExecution s (dev_id d) False None (Some batch) w = (w1, True)"
        "run_devices env s flying batch ds w1 = (w', ok)"
    using Cons.prems(1) by (auto split: if_splits option.splits bool.splits prod.splits)
  then show ?case
  proof cases
    case 1
    then show ?thesis by (intro conjI exI [of _ "[]"]) simp_all
  next
    case 2
    then show ?thesis using Cons.IH [OF 2(2)] Cons.prems(2) by fastforce
  next
    case (3 w1)
    then show ?thesis using dispatch_frame [OF 3(2)] by (auto simp: may_run_def dispatched_def)
  next
    case (4 w1)
    obtain n1 where n1: "same_site w w1" "schedules w1 = schedules w" "unlinked w1 = unlinked w @ n1"
      "n1 = [] \<or> (\<exists>e. n1 = [e] \<and> dispatched s (dev_id d) w e)" using dispatch_frame [OF 4(2)] by blast
    obtain n2 where n2: "same_site w1 w'" "schedules w' = schedules w1" "unlinked w' = unlinked w1 @ n2" "distinct (map xn_device n2)"
      "\<forall>e \<in> set n2. xn_device e \<notin> set flying \<and> (\<exists>d \<in> set ds. may_run s d \<and> dispatched s (dev_id d) w1 e)"
      using Cons.IH [OF 4(3)] Cons.prems(2) by auto
    have n2': "\<forall>e \<in> set n2. xn_device e \<notin> set flying \<and> (\<exists>d \<in> set ds. may_run s d \<and> dispatched s (dev_id d) w e)"
      using n2(5) by (simp add: dispatched_cong [OF n1(1)])
    have "dev_id d \<notin> xn_device ` set n2" using n2' Cons.prems(2) by (auto simp: dispatched_def)
    then have "distinct (map xn_device (n1 @ n2))" using n1(4) n2(4) by (auto simp: dispatched_def)
    moreover have "\<forall>e \<in> set (n1 @ n2). xn_device e \<notin> set flying \<and> (\<exists>d' \<in> set (d # ds). may_run s d' \<and> dispatched s (dev_id d') w e)"
      using n1(4) n2' 4(1) by (auto simp: dispatched_def may_run_def)
    ultimately show ?thesis
      using same_site_trans [OF n1(1) n2(1)] n1(2,3) n2(2,3) by (intro conjI exI [of _ "n1 @ n2"]) simp_all
  qed
qed simp

lemma no_catchup: "fst (processCatchup env s ds w) = w"
  by (auto simp: processCatchup_def getMissedExecutionTimes_def split: option.splits)

lemma target_device:
  assumes "resolveTargetDevices s w = Some ds"
  shows "d \<in> set ds \<Longrightarrow> d \<in> set (devices w) \<and> dev_tenant d = sd_tenant s \<and> dev_id d \<in> set (approved_devices w) \<and>
      dev_status d \<in> set alive_statuses"
    and "keyed dev_id (devices w) \<Longrightarrow> distinct (map dev_id ds)"
proof -
  obtain P where ds: "ds = filter P (filter (\<lambda>d. dev_status d \<in> set alive_statuses) (approved_of (sd_tenant s) w))"
  proof (cases "sd_target_type s = Some ''device'' \<and> (case sd_target_ids s of None \<Rightarrow> [] | Some x \<Rightarrow> x) \<noteq> [] \<or>
      sd_target_type s = Some ''group'' \<and> (case sd_target_ids s of None \<Rightarrow> [] | Some x \<Rightarrow> x) \<noteq> []")
    case True
    then show thesis using assms that by (auto simp: resolveTargetDevices_def Let_def)
  next
    case False
    then have "ds = filter (\<lambda>_. True) (filter (\<lambda>d. dev_status d \<in> set alive_statuses) (approved_of (sd_tenant s) w))"
      using assms by (auto simp: resolveTargetDevices_def Let_def)
    then show thesis by (rule that)
  qed
  show "d \<in> set ds \<Longrightarrow> d \<in> set (devices w) \<and> dev_tenant d = sd_tenant s \<and> dev_id d \<in> set (approved_devices w) \<and>
      dev_status d \<in> set alive_statuses"
    by (simp add: ds approved_of_def)
  show "keyed dev_id (devices w) \<Longrightarrow> distinct (map dev_id ds)"
    by (simp add: ds approved_of_def keyed_def distinct_map_filter)
qed

lemma resolve_cong: "same_site w w' \<Longrightarrow> resolveTargetDevices s w' = resolveTargetDevices s w"
proof -
  assume h: "same_site w w'"
  have "with_descendants ids w' = with_descendants ids w" for ids using h by (simp add: same_site_def with_descendants_def)
  moreover have "approved_of t w' = approved_of t w" for t using h by (simp add: same_site_def approved_of_def)
  ultimately show ?thesis by (simp add: resolveTargetDevices_def Let_def)
qed

text \<open>What a run of schedule \<open>s\<close> may add to the executions of \<open>w\<close>.\<close>

definition run_of :: "schedule_def \<Rightarrow> 'a sd_db_scheme \<Rightarrow> execution_row \<Rightarrow> bool" where
  "run_of s w e \<longleftrightarrow> (case resolveTargetDevices s w of
     None \<Rightarrow> False
   | Some ds \<Rightarrow> xn_device e \<notin> set (in_flight_devices s ds w) \<and> (\<exists>d \<in> set ds. may_run s d \<and> dispatched s (dev_id d) w e))"

abbreviation schedule_keys :: "'a sd_db_scheme \<Rightarrow> (nat \<times> bool option) list" where
  "schedule_keys w \<equiv> map (\<lambda>s. (sd_id s, sd_skip s)) (schedules w)"

lemma finish_run_frame: "same_site w (finish_run env s w)" "unlinked (finish_run env s w) = unlinked w"
  "schedule_keys (finish_run env s w) = schedule_keys w"
  by (simp_all add: finish_run_def same_site_def unlinked_def map_tbl_update)

lemma runSchedule_frame:
  fixes w :: "'a sd_db_scheme"
  assumes "keyed dev_id (devices w)"
  shows "same_site w (runSchedule env w s) \<and> schedule_keys (runSchedule env w s) = schedule_keys w \<and>
    (\<exists>new. unlinked (runSchedule env w s) = unlinked w @ new \<and> distinct (map xn_device new) \<and> (\<forall>e \<in> set new. run_of s w e))"
proof (cases "resolveTargetDevices s w")
  case None
  then show ?thesis by (simp add: runSchedule_def)
next
  case (Some ds)
  obtain w0 batch where u: "new_uuid w = (w0, batch)" by fastforce
  then have w0: "same_site w w0" "schedules w0 = schedules w" "unlinked w0 = unlinked w" "executions w0 = executions w"
    using new_uuid_frame [of w] by simp_all
  obtain w1 ok where r: "run_devices env s (in_flight_devices s ds w0) batch ds w0 = (w1, ok)" by fastforce
  obtain new where new: "same_site w0 w1" "schedules w1 = schedules w0" "unlinked w1 = unlinked w0 @ new" "distinct (map xn_device new)"
    "\<forall>e \<in> set new. xn_device e \<notin> set (in_flight_devices s ds w0) \<and> (\<exists>d \<in> set ds. may_run s d \<and> dispatched s (dev_id d) w0 e)"
    using run_devices_frame [OF r target_device(2) [OF Some assms]] by blast
  have fl: "in_flight_devices s ds w0 = in_flight_devices s ds w" by (simp add: in_flight_devices_def w0(4))
  have "\<forall>e \<in> set new. run_of s w e"
    using new(5) by (simp add: run_of_def Some fl dispatched_cong [OF w0(1)])
  moreover have "runSchedule env w s = w1 \<or> runSchedule env w s = finish_run env s w1"
    using no_catchup [of env s ds w1] by (auto simp: runSchedule_def Some u r split: prod.splits bool.splits)
  moreover have "same_site w w1" using w0(1) new(1) by (rule same_site_trans)
  ultimately show ?thesis
    using w0 new(2-4) finish_run_frame [where w = w1 and env = env and s = s] same_site_trans [of w w1] by auto
qed

lemma run_of_cong:
  assumes "same_site w w'" and "unlinked w' = unlinked w @ new" and "run_of s w' e"
  shows "run_of s w e"
proof -
  obtain ds where ds: "resolveTargetDevices s w = Some ds" "xn_device e \<notin> set (in_flight_devices s ds w')"
    "\<exists>d \<in> set ds. may_run s d \<and> dispatched s (dev_id d) w e"
    using assms(3) by (auto simp: run_of_def resolve_cong [OF assms(1)] dispatched_cong [OF assms(1)] split: option.splits)
  let ?P = "\<lambda>x. xn_schedule x = Some (sd_id s) \<and> xn_device x \<in> dev_id ` set ds \<and> xn_status x \<in> set in_flight"
  have core: "map xn_device (filter ?P (executions v)) = map xn_device (filter ?P (unlinked v))" for v :: "'a sd_db_scheme"
    by (simp add: unlinked_def filter_map o_def)
  have "set (in_flight_devices s ds w) \<subseteq> set (in_flight_devices s ds w')"
    unfolding in_flight_devices_def core by (auto simp: assms(2))
  then show ?thesis using ds by (auto simp: run_of_def)
qed

lemma tick_frame:
  fixes w :: "'a sd_db_scheme"
  assumes "keyed dev_id (devices w)"
  shows "same_site w (foldl (runSchedule env) w L) \<and> schedule_keys (foldl (runSchedule env) w L) = schedule_keys w \<and>
    (\<exists>new. unlinked (foldl (runSchedule env) w L) = unlinked w @ new \<and> (\<forall>e \<in> set new. \<exists>s \<in> set L. run_of s w e))"
  using assms
proof (induction L arbitrary: w)
  case (Cons s L)
  let ?w = "runSchedule env w s"
  obtain n1 where n1: "same_site w ?w" "schedule_keys ?w = schedule_keys w" "unlinked ?w = unlinked w @ n1" "\<forall>e \<in> set n1. run_of s w e"
    using runSchedule_frame [OF Cons.prems] by blast
  have k: "keyed dev_id (devices ?w)" using n1(1) Cons.prems by (simp add: same_site_def)
  obtain n2 where n2: "same_site ?w (foldl (runSchedule env) ?w L)" "schedule_keys (foldl (runSchedule env) ?w L) = schedule_keys ?w"
    "unlinked (foldl (runSchedule env) ?w L) = unlinked ?w @ n2" "\<forall>e \<in> set n2. \<exists>s \<in> set L. run_of s ?w e"
    using Cons.IH [OF k] by blast
  have "\<forall>e \<in> set (n1 @ n2). \<exists>s' \<in> set (s # L). run_of s' w e"
    using n1(4) n2(4) run_of_cong [OF n1(1) n1(3)] unfolding set_append list.set by blast
  then show ?case
    using same_site_trans [OF n1(1) n2(1)] n1(2,3) n2(2,3) by (intro conjI exI [of _ "n1 @ n2"]) simp_all
qed simp

section \<open>A tick runs only what the tenant may run, where it may run\<close>

lemma drop_unlinked:
  assumes "unlinked w' = unlinked w @ new"
  shows "map (\<lambda>e. e\<lparr>xn_command := None\<rparr>) (drop (length (executions w)) (executions w')) = new"
    and "map (\<lambda>e. e\<lparr>xn_command := None\<rparr>) (take (length (executions w)) (executions w')) = unlinked w"
  using arg_cong [OF assms, of "drop (length (executions w))"] arg_cong [OF assms, of "take (length (executions w))"]
  by (simp_all add: unlinked_def drop_map take_map)

lemma run_of_facts:
  assumes "run_of s w e"
  shows "xn_schedule e = Some (sd_id s) \<and> xn_tenant e = sd_tenant s \<and> xn_status e = ''pending'' \<and>
    (\<exists>d \<in> set (devices w). dev_id d = xn_device e \<and> dev_tenant d = sd_tenant s \<and> dev_id d \<in> set (approved_devices w) \<and>
       dev_status d \<in> set alive_statuses \<and> (\<not> dev_privacy d \<or> sd_bypass s)) \<and>
    (\<exists>x \<in> set (all_scripts w). sx_id x = sd_script s \<and>
       (sd_tenant s = master_tenant \<or> sx_tenant x = Some (sd_tenant s) \<or> sx_tenant x = None \<or>
        (\<exists>ts. sx_shared x = Some ts \<and> sd_tenant s \<in> set ts)) \<and>
       map_of (xn_snapshot e) ''content'' = Some (JStr (sx_content x)))"
proof -
  obtain ds d where ds: "resolveTargetDevices s w = Some ds" "d \<in> set ds" "may_run s d" "dispatched s (dev_id d) w e"
    using assms by (auto simp: run_of_def split: option.splits)
  then obtain x where x: "scriptVisibleToTenant (sd_script s) (sd_tenant s) w = Some x"
    "xn_snapshot e = script_snapshot x (Some (effective_timeout (sd_timeout s) (sx_timeout x)))"
    by (auto simp: dispatched_def split: option.splits)
  then have "x \<in> set (all_scripts w) \<and> sx_id x = sd_script s \<and>
       (sd_tenant s = master_tenant \<or> sx_tenant x = Some (sd_tenant s) \<or> sx_tenant x = None \<or>
        (\<exists>ts. sx_shared x = Some ts \<and> sd_tenant s \<in> set ts))"
    by (auto simp: scriptVisibleToTenant_def dest!: find_SomeD split: option.splits)
  then show ?thesis
    using target_device(1) [OF ds(1,2)] ds(3,4) x(2) by (auto simp: may_run_def dispatched_def script_snapshot_def)
qed

text \<open>
  C25. A tick of the scheduler leaves every earlier execution as it was but for its link to a command, and each one it adds
  belongs to a due schedule, is recorded for the tenant of that schedule, runs on an approved device of that tenant that is
  alive and is not in privacy mode unless the schedule bypasses it, and copies the content of the script the schedule names,
  which the tenant owns, is a system script, was shared with the tenant, or belongs to anyone when the tenant is the master.
\<close>

theorem tick_runs_where_allowed:
  assumes "keyed dev_id (devices w)" and "e \<in> set (drop (length (executions w)) (executions (schedule_tick env w)))"
  shows "map (\<lambda>r. r\<lparr>xn_command := None\<rparr>) (take (length (executions w)) (executions (schedule_tick env w))) =
      map (\<lambda>r. r\<lparr>xn_command := None\<rparr>) (executions w) \<and>
    (\<exists>s \<in> set (schedules w). due (now_ms w) s \<and> xn_schedule e = Some (sd_id s) \<and> xn_tenant e = sd_tenant s \<and>
      (\<exists>d \<in> set (devices w). dev_id d = xn_device e \<and> dev_tenant d = sd_tenant s \<and> dev_id d \<in> set (approved_devices w) \<and>
         dev_status d \<in> set [''online'', ''warning'', ''critical''] \<and> (\<not> dev_privacy d \<or> sd_bypass s)) \<and>
      (\<exists>x \<in> set (all_scripts w). sx_id x = sd_script s \<and>
         (sd_tenant s = 1 \<or> sx_tenant x = Some (sd_tenant s) \<or> sx_tenant x = None \<or>
          (\<exists>ts. sx_shared x = Some ts \<and> sd_tenant s \<in> set ts)) \<and>
         map_of (xn_snapshot e) ''content'' = Some (JStr (sx_content x))))"
proof -
  obtain new where new: "unlinked (schedule_tick env w) = unlinked w @ new"
    "\<forall>e \<in> set new. \<exists>s \<in> set (filter (due (now_ms w)) (schedules w)). run_of s w e"
    using tick_frame [OF assms(1)] unfolding schedule_tick_def by blast
  let ?e = "e\<lparr>xn_command := None\<rparr>"
  have "?e \<in> set new" using assms(2) unfolding drop_unlinked(1) [OF new(1), symmetric] by simp
  then obtain s where s: "s \<in> set (schedules w)" "due (now_ms w) s" "run_of s w ?e" using new(2) by auto
  show ?thesis
    using run_of_facts [OF s(3)] s(1,2) drop_unlinked(2) [OF new(1)]
    by (auto simp: unlinked_def alive_statuses_def master_tenant_def)
qed

section \<open>The check on who may schedule\<close>

lemma column_ints_ids:
  assumes "column_ints raw = Some ids" and "i \<in> set ids" and "0 < i"
  shows "i \<in> set (map int (List.map_filter int_id raw))"
  using assms
proof (induction raw arbitrary: ids)
  case (Cons n raw)
  obtain j js where j: "column_int n = Some j" "column_ints raw = Some js" "ids = j # js"
    using Cons.prems(1) by (auto split: option.splits)
  show ?case
  proof (cases "i = j")
    case True
    then obtain r where "n = Fin r" "r = of_int i" using j(1) by (auto simp: column_int_def split: jsnum.splits if_splits)
    then have "int_id n = Some (nat i)" using Cons.prems(3) by (simp add: int_id_def)
    then show ?thesis using Cons.prems(3) by (simp add: List.map_filter_simps)
  next
    case False
    then show ?thesis using Cons.IH [OF j(2)] Cons.prems(2,3) j(3) by (auto simp: List.map_filter_simps split: option.split)
  qed
qed simp

definition site_ids_ok :: "'a org_scheme \<Rightarrow> bool" where
  "site_ids_ok w \<longleftrightarrow> org_ids_ok w \<and> list_all (\<lambda>d. dev_id d \<noteq> 0) (devices w) \<and> list_all (\<lambda>r. cl_anc r \<noteq> 0) (group_closure w)"

lemma targets_checked:
  assumes "site_ids_ok w" and "resolveTargetDevices s w = Some ds" and "d \<in> set ds"
  shows "dev_id d \<in> set (resolveTargetDeviceIdsForAuthz (sd_tenant s) (sd_target_type s) (sd_target_ids s) w)"
proof -
  let ?raw = "case sd_target_ids s of None \<Rightarrow> [] | Some x \<Rightarrow> x"
  let ?ids = "map int (List.map_filter int_id ?raw)"
  have d: "d \<in> set (approved_of (sd_tenant s) w)" "d \<in> set (devices w)"
    using target_device(1) [OF assms(2,3)] by (simp_all add: approved_of_def)
  consider "sd_target_type s = Some ''device''" "?raw \<noteq> []" | "sd_target_type s = Some ''group''" "?raw \<noteq> []"
    | "sd_target_type s \<noteq> Some ''device'' \<and> sd_target_type s \<noteq> Some ''group'' \<or> ?raw = []" by blast
  then show ?thesis
  proof cases
    case 1
    then obtain ids where ids: "column_ints ?raw = Some ids" "int (dev_id d) \<in> set ids"
      using assms(2,3) by (auto simp: resolveTargetDevices_def Let_def)
    have "0 < int (dev_id d)" using assms(1) d(2) by (auto simp: site_ids_ok_def list_all_iff)
    then have "int (dev_id d) \<in> set ?ids" by (rule column_ints_ids [OF ids])
    then show ?thesis using 1 d(1) by (auto simp: resolveTargetDeviceIdsForAuthz_def Let_def)
  next
    case 2
    then obtain ids where ids: "column_ints ?raw = Some ids" "in_groups (with_descendants ids w) d"
      using assms(2,3) by (auto simp: resolveTargetDevices_def Let_def)
    then obtain g where g: "dev_group d = Some g" "int g \<in> set (with_descendants ids w)"
      by (auto simp: in_groups_def split: option.splits)
    have pos: "0 < int g" using assms(1) d(2) g(1) by (auto simp: site_ids_ok_def org_ids_ok_def list_all_iff)
    have "int g \<in> set (with_descendants ?ids w)"
    proof (cases "int g \<in> set ids")
      case True
      then show ?thesis using column_ints_ids [OF ids(1) True pos] by (auto simp: with_descendants_def)
    next
      case False
      then obtain r where r: "r \<in> set (group_closure w)" "int (cl_anc r) \<in> set ids" "cl_desc r = g"
        using g(2) by (auto simp: with_descendants_def)
      have "0 < int (cl_anc r)" using assms(1) r(1) by (auto simp: site_ids_ok_def list_all_iff)
      then have "int (cl_anc r) \<in> set ?ids" by (rule column_ints_ids [OF ids(1) r(2)])
      then show ?thesis using r(1,3) by (force simp: with_descendants_def)
    qed
    then show ?thesis using 2 d(1) g(1) by (auto simp: resolveTargetDeviceIdsForAuthz_def Let_def in_groups_def)
  next
    case 3
    then show ?thesis using d(1) by (auto simp: resolveTargetDeviceIdsForAuthz_def Let_def List.map_filter_simps)
  qed
qed

lemma int_id_of_ids:
  assumes "list_all (\<lambda>i. i \<noteq> 0) ids"
  shows "List.map_filter int_id (map (\<lambda>i. Fin (of_nat i)) ids) = ids"
  using assms by (induction ids) (auto simp: List.map_filter_simps int_id_def)

lemma may_schedule_lacking:
  assumes "site_ids_ok w" and "assertMayScheduleScript user False t scriptId tt ids w = None"
    and "i \<in> set (resolveTargetDeviceIdsForAuthz t tt ids w)"
  shows "canUseCapability w user i False ''execute''"
proof -
  let ?targets = "resolveTargetDeviceIdsForAuthz t tt ids w"
  have "list_all (\<lambda>i. i \<noteq> 0) ?targets"
    using assms(1) by (auto simp: list_all_iff resolveTargetDeviceIdsForAuthz_def Let_def approved_of_def site_ids_ok_def)
  then have "devicesLackingCapability w user (map (\<lambda>d. Fin (of_nat d)) ?targets) ''execute'' =
      filter (\<lambda>d. \<not> canUseCapability w user d False ''execute'') (uniq ?targets)"
    using assms(1) devicesLackingCapability_filter [of w] by (simp add: int_id_of_ids site_ids_ok_def)
  moreover have "devicesLackingCapability w user (map (\<lambda>d. Fin (of_nat d)) ?targets) ''execute'' = []"
    using assms(2) by (auto simp: assertMayScheduleScript_def split: option.splits if_splits list.splits)
  ultimately have "filter (\<lambda>d. \<not> canUseCapability w user d False ''execute'') (uniq ?targets) = []" by simp
  then show ?thesis using assms(3) by (simp add: filter_empty_conv)
qed

text \<open>
  A user who is not an administrator and passes the check of a schedule could run the script by hand: the script is
  visible to the tenant, and on every device the scheduler would choose for this schedule, directly or through a group and
  its descendants or because the list is empty, the user holds the capability to execute.
\<close>

theorem schedule_check_covers_targets:
  assumes "site_ids_ok w" and "int_id scriptId = Some (sd_script s)"
    and "assertMayScheduleScript user False (sd_tenant s) scriptId (sd_target_type s) (sd_target_ids s) w = None"
    and "resolveTargetDevices s w = Some ds"
  shows "scriptVisibleToTenant (sd_script s) (sd_tenant s) w \<noteq> None \<and>
    list_all (\<lambda>d. canUseCapability w user (dev_id d) False ''execute'') ds"
proof
  show "scriptVisibleToTenant (sd_script s) (sd_tenant s) w \<noteq> None"
    using assms(2,3) by (auto simp: assertMayScheduleScript_def split: if_splits)
  show "list_all (\<lambda>d. canUseCapability w user (dev_id d) False ''execute'') ds"
    using may_schedule_lacking [OF assms(1,3)] targets_checked [OF assms(1,4)] by (simp add: list_all_iff)
qed

section \<open>One execution in flight per schedule and device\<close>

definition flights_of :: "'a sd_db_scheme \<Rightarrow> nat \<Rightarrow> nat list" where
  "flights_of w i = map xn_device (filter (\<lambda>e. xn_schedule e = Some i \<and> xn_status e \<in> set in_flight) (executions w))"

definition single_flight :: "'a sd_db_scheme \<Rightarrow> bool" where
  "single_flight w \<longleftrightarrow> list_all (\<lambda>s. sd_skip s = Some False \<or> distinct (flights_of w (sd_id s))) (schedules w)"

text \<open>The statuses the server writes to an execution.\<close>

definition written_statuses :: "string list" where
  "written_statuses = [''pending'', ''success'', ''failure'', ''timeout'', ''cancelled'']"

definition statuses_ok :: "'a sd_db_scheme \<Rightarrow> bool" where
  "statuses_ok w \<longleftrightarrow> list_all (\<lambda>e. xn_status e \<in> set written_statuses) (executions w)"

text \<open>A step that starts nothing for a schedule, and may end executions.\<close>

definition settled :: "'a sd_db_scheme \<Rightarrow> 'a sd_db_scheme \<Rightarrow> bool" where
  "settled w w' \<longleftrightarrow> devices w' = devices w \<and> schedules w' = schedules w \<and>
     (\<forall>i. distinct (flights_of w i) \<longrightarrow> distinct (flights_of w' i)) \<and> (statuses_ok w \<longrightarrow> statuses_ok w')"

lemma settled_trans: "settled w w' \<Longrightarrow> settled w' w'' \<Longrightarrow> settled w w''"
  by (simp add: settled_def)

lemma settled_same:
  "executions w' = executions w \<Longrightarrow> devices w' = devices w \<Longrightarrow> schedules w' = schedules w \<Longrightarrow> settled w w'"
  by (simp add: settled_def flights_of_def statuses_ok_def)

lemma settled_refl [simp]: "settled w w"
  by (simp add: settled_same)

lemma settled_ended:
  assumes "executions w' = tbl_update hit f (executions w)" and "devices w' = devices w" and "schedules w' = schedules w"
    and "\<And>e. xn_status (f e) \<in> set [''success'', ''failure'', ''timeout'', ''cancelled'']"
  shows "settled w w'"
proof -
  have over: "xn_status (f e) \<notin> set in_flight" "xn_status (f e) \<in> set written_statuses" for e
    using assms(4) [of e] by (auto simp: in_flight_def written_statuses_def)
  let ?Q = "\<lambda>i e. xn_schedule e = Some i \<and> xn_status e \<in> set in_flight"
  have "filter (?Q i) (tbl_update hit f es) = filter (\<lambda>e. \<not> hit e) (filter (?Q i) es)" for i es
    by (induction es) (auto simp: tbl_update_def over)
  then have "distinct (flights_of w i) \<Longrightarrow> distinct (flights_of w' i)" for i
    by (simp add: flights_of_def assms(1) distinct_map_filter del: filter_filter)
  moreover have "statuses_ok w \<Longrightarrow> statuses_ok w'"
    by (auto simp: statuses_ok_def assms(1) list_all_iff set_tbl_update over)
  ultimately show ?thesis by (simp add: settled_def assms(2,3))
qed

lemma flights_of_unlinked:
  "flights_of w i = map xn_device (filter (\<lambda>e. xn_schedule e = Some i \<and> xn_status e \<in> set in_flight) (unlinked w))"
  by (simp add: flights_of_def unlinked_def filter_map o_def)

lemma statuses_ok_unlinked: "statuses_ok w \<longleftrightarrow> list_all (\<lambda>e. xn_status e \<in> set written_statuses) (unlinked w)"
  by (simp add: statuses_ok_def unlinked_def list_all_iff)

lemma settled_manual:
  assumes "same_site w w'" and "schedules w' = schedules w" and "unlinked w' = unlinked w @ new"
    and "\<forall>e \<in> set new. xn_schedule e = None \<and> xn_status e = ''pending''"
  shows "settled w w'"
proof -
  have "filter (\<lambda>e. xn_schedule e = Some i \<and> xn_status e \<in> set in_flight) new = []" for i
    using assms(4) by (auto simp: filter_empty_conv)
  then have "flights_of w' i = flights_of w i" for i by (simp add: flights_of_unlinked assms(3))
  moreover have "statuses_ok w \<Longrightarrow> statuses_ok w'"
    using assms(4) by (auto simp: statuses_ok_unlinked assms(3) list_all_iff written_statuses_def)
  ultimately show ?thesis using assms(1,2) by (simp add: settled_def same_site_def)
qed

lemma settled_execute_devices:
  fixes w :: "'a sd_db_scheme"
  shows "settled w (fst (execute_devices script i t params user batch ds w))"
proof (induction ds arbitrary: w)
  case (Cons d ds)
  show ?case
  proof (cases "find (\<lambda>r. dev_id r = d \<and> dev_tenant r = t) (devices w) = None")
    case True
    then show ?thesis using Cons.IH [of w] by simp
  next
    case False
    obtain w1 u where u: "new_uuid w = (w1, u)" by fastforce
    have w1: "same_site w w1" "schedules w1 = schedules w" "unlinked w1 = unlinked w" using new_uuid_frame [of w] by (simp_all add: u)
    let ?e = "manual_row script i t params user batch d u (now_ms w)"
    obtain w2 ok where l: "launch_execution ?e (manual_command script t params user d u) w1 = (w2, ok)" by fastforce
    have res: "fst (execute_devices script i t params user batch (d # ds) w) = w2 \<or>
         fst (execute_devices script i t params user batch (d # ds) w) = fst (execute_devices script i t params user batch ds w2)"
      using False by (cases ok) (auto simp: u l split: prod.split)
    have "settled w w2"
      using launch_execution_frame [OF l] w1 same_site_trans [of w w1]
      by (intro settled_manual [where new = "[?e\<lparr>xn_command := None\<rparr>]"]) (simp_all add: manual_row_def)
    then show ?thesis using res Cons.IH [of w2] settled_trans by metis
  qed
qed simp

lemma settled_executeNow: "settled w (fst (executeNow i ds t params user w))"
proof -
  have "settled w (fst (new_uuid w))" by (rule settled_same) simp_all
  then show ?thesis
    using settled_execute_devices [of "fst (new_uuid w)"] settled_trans
    by (fastforce simp: executeNow_def split: option.split prod.split)
qed

lemma settled_sweep: "settled w (sweepStaleExecutions w)"
proof -
  have one: "settled v (sweep_one v row)" for v :: "'a sd_db_scheme" and row
  proof (cases "stale (now_ms v) row")
    case True
    then show ?thesis
      by (intro settled_ended [where hit = "\<lambda>e. xn_id e = xn_id row" and f = "\<lambda>e. e\<lparr>xn_status := ''timeout'', xn_finished := Some (now_ms v),
                     xn_stderr := JStr (''Execution exceeded '' @ show_nat (nat \<lfloor>snapshot_timeout (xn_snapshot row)\<rfloor>) @
                                        ''s timeout (no agent response)'')\<rparr>"]) (simp_all add: sweep_one_def emit_def)
  qed (simp add: sweep_one_def)
  have "settled v (foldl sweep_one v rows)" for v :: "'a sd_db_scheme" and rows
    by (induction rows arbitrary: v) (auto intro: settled_trans one)
  then show ?thesis by (simp add: sweepStaleExecutions_def)
qed

lemma processAck_frame:
  fixes w :: "'a sd_db_scheme"
  shows "executions (fst (processAck d t a w)) = executions w \<and> devices (fst (processAck d t a w)) = devices w \<and>
    schedules (fst (processAck d t a w)) = schedules w \<and> now_ms (fst (processAck d t a w)) = now_ms w"
proof -
  let ?same = "\<lambda>v v' :: 'a sd_db_scheme. executions v' = executions v \<and> devices v' = devices v \<and> schedules v' = schedules v \<and> now_ms v' = now_ms v"
  have 1: "?same v (fst (ack_update d a v))" for v by (simp add: ack_update_def Let_def)
  have 2: "?same v (ack_insert d t a v)" for v by (auto simp: ack_insert_def insert_command_def split: option.splits)
  have 3: "?same v (ack_emit t a row v)" for v row by (auto simp: ack_emit_def emit_def Let_def split: option.splits)
  have 4: "?same v (ack_tunnel_failed a row v)" for v row
    by (auto simp: ack_tunnel_failed_def emit_def Let_def split: option.splits json.splits)
  have 5: "?same v (ack_updates d a row v)" for v row by (auto simp: ack_updates_def emit_def Let_def split: option.splits)
  have 6: "?same v (ack_probe_done a row v)" for v row by (auto simp: ack_probe_done_def split: option.splits)
  show ?thesis
    using 1 [of w] by (auto simp: processAck_def Let_def 2 3 4 5 6 split: prod.split)
qed

lemma settled_ack_execution: "settled w (ack_execution t a row w)"
proof (cases "ack_execution t a row w = w")
  case False
  then obtain c code started where c: "row = Some c" "is_terminal a" "exit_column (ack_result_obj a) = Some code"
    "started_column (now_ms w) (ack_result_obj a) = Some started" "cq_source_type c = Some ''script_execution''"
    "cq_source_id c \<noteq> None" "cq_source_id c \<noteq> Some []"
    by (auto simp: ack_execution_def split: option.splits if_splits)
  let ?status = "if ack_status a \<in> set [''success'', ''timeout''] then ack_status a else ''failure''"
  show ?thesis
    by (intro settled_ended [where hit = "\<lambda>e. Some (xn_id e) = cq_source_id c" and
          f = "\<lambda>e. e\<lparr>xn_status := ?status, xn_exit := code, xn_stdout := result_field (ack_result_obj a) ''stdout'',
                 xn_stderr := result_field (ack_result_obj a) ''stderr'', xn_started := Some started, xn_finished := Some (now_ms w)\<rparr>"])
      (auto simp: ack_execution_def c emit_def Let_def split: option.split)
qed simp

lemma settled_ack: "settled w (ack_script d t a w)"
proof -
  have "settled w (fst (processAck d t a w))" using processAck_frame [where w = w and d = d and t = t and a = a] by (intro settled_same) auto
  then show ?thesis using settled_ack_execution settled_trans by (fastforce simp: ack_script_def split: prod.split)
qed

lemma settled_cancel: "settled w (fst (cancelExecution i t u adm w))"
  by (auto simp: cancelExecution_def update_executions_def execution_columns_def split: option.split)

lemma settled_stop: "settled w (fst (stopExecution i t u adm w))"
proof -
  have q: "settled w v" if "enqueue b w = (v, res)" for b v res
    using enqueue_frame [where w = w and a = b] by (intro settled_same) (simp_all add: that same_site_def)
  have c: "settled v v'" if "update_executions cols hit (\<lambda>r. r\<lparr>xn_status := ''cancelled'', xn_finished := Some n\<rparr>) v = Some v'" for cols hit n and v v' :: "'a sd_db_scheme"
    using that by (intro settled_ended [where hit = hit and f = "\<lambda>r. r\<lparr>xn_status := ''cancelled'', xn_finished := Some n\<rparr>"])
      (auto simp: update_executions_def split: if_splits)
  show ?thesis
    by (auto simp: stopExecution_def split: option.split prod.split dest: q c intro: settled_trans)
qed

lemma settled_queue: "settled w (cq_apply ev w)"
proof (cases ev)
  case (CEnqueue b)
  then show ?thesis using enqueue_frame [where w = w and a = b] by (intro settled_same) (simp_all add: same_site_def)
next
  case (CAck d t a)
  then show ?thesis using processAck_frame [where w = w and d = d and t = t and a = a] by (intro settled_same) auto
qed (auto intro!: settled_same simp: cancelCommand_def expireCommands_def Let_def)

lemma settled_event: "ev \<noteq> SdTick \<Longrightarrow> settled w (sd_apply env w ev)"
  by (cases ev) (simp_all add: settled_sweep settled_ack settled_executeNow settled_cancel settled_stop settled_queue)

text \<open>The state the invariants speak about: the primary keys, and at most one flight per device of a skipping schedule.\<close>

definition flight_inv :: "'a sd_db_scheme \<Rightarrow> bool" where
  "flight_inv w \<longleftrightarrow> keyed dev_id (devices w) \<and> keyed sd_id (schedules w) \<and> single_flight w"

lemma single_flight_keys:
  "single_flight w \<longleftrightarrow> (\<forall>(i, k) \<in> set (schedule_keys w). k = Some False \<or> distinct (flights_of w i))"
  by (auto simp: single_flight_def list_all_iff)

lemma keyed_by_keys: "keyed sd_id (schedules w) \<longleftrightarrow> distinct (map fst (schedule_keys w))"
  by (simp add: keyed_def o_def)

lemma run_adds_no_flight:
  assumes "unlinked w' = unlinked w @ new" and "distinct (map xn_device new)" and "\<forall>e \<in> set new. run_of s w e"
    and "distinct (flights_of w i)" and "i = sd_id s \<Longrightarrow> sd_skip s \<noteq> Some False"
  shows "distinct (flights_of w' i)"
proof -
  let ?Q = "\<lambda>e. xn_schedule e = Some i \<and> xn_status e \<in> set in_flight"
  have add: "flights_of w' i = flights_of w i @ map xn_device (filter ?Q new)" by (simp add: flights_of_unlinked assms(1))
  have "xn_device e \<notin> set (flights_of w i)" if e: "e \<in> set new" "?Q e" for e
  proof -
    obtain ds d where ds: "xn_device e \<notin> set (in_flight_devices s ds w)" "d \<in> set ds" "dispatched s (dev_id d) w e"
      using assms(3) e(1) by (auto simp: run_of_def split: option.splits)
    then have "i = sd_id s" "xn_device e = dev_id d" using e(2) by (auto simp: dispatched_def)
    moreover have "ds \<noteq> []" using ds(2) by auto
    ultimately show ?thesis using ds(1,2) assms(5) by (clarsimp simp: in_flight_devices_def flights_of_def image_iff) metis
  qed
  moreover have "distinct (map xn_device (filter ?Q new))" using assms(2) by (rule distinct_map_filter)
  ultimately show ?thesis using assms(4) by (auto simp: add)
qed

lemma run_keeps_flight_inv:
  assumes "flight_inv w" and "(sd_id s, sd_skip s) \<in> set (schedule_keys w)"
  shows "flight_inv (runSchedule env w s) \<and> schedule_keys (runSchedule env w s) = schedule_keys w"
proof -
  let ?w = "runSchedule env w s"
  have dev: "keyed dev_id (devices w)" and key: "distinct (map fst (schedule_keys w))" and one: "single_flight w"
    using assms(1) by (simp_all add: flight_inv_def keyed_by_keys)
  obtain new where new: "same_site w ?w" "schedule_keys ?w = schedule_keys w" "unlinked ?w = unlinked w @ new"
    "distinct (map xn_device new)" "\<forall>e \<in> set new. run_of s w e"
    using runSchedule_frame [OF dev] by blast
  have "k = Some False \<or> distinct (flights_of ?w i)" if ik: "(i, k) \<in> set (schedule_keys w)" for i k
  proof -
    have "i = sd_id s \<Longrightarrow> k = sd_skip s" using ik assms(2) eq_key_imp_eq_value [OF key] by blast
    moreover have "k = Some False \<or> distinct (flights_of w i)" using one ik unfolding single_flight_keys by blast
    ultimately show ?thesis using run_adds_no_flight [OF new(3-5), of i] by blast
  qed
  then have "single_flight ?w" unfolding single_flight_keys new(2) by blast
  then show ?thesis using new(1,2) dev key by (simp add: flight_inv_def keyed_by_keys same_site_def del: map_map)
qed

lemma tick_keeps_flight_inv:
  assumes "flight_inv w" and "set (map (\<lambda>s. (sd_id s, sd_skip s)) L) \<subseteq> set (schedule_keys w)"
  shows "flight_inv (foldl (runSchedule env) w L)"
  using assms
proof (induction L arbitrary: w)
  case (Cons s L)
  have "flight_inv (runSchedule env w s) \<and> schedule_keys (runSchedule env w s) = schedule_keys w"
    using Cons.prems by (intro run_keeps_flight_inv) simp_all
  then show ?case using Cons.IH [of "runSchedule env w s"] Cons.prems(2) by simp
qed simp

lemma event_keeps_flight_inv:
  assumes "flight_inv w"
  shows "flight_inv (sd_apply env w ev)"
proof (cases "ev = SdTick")
  case True
  have "set (map (\<lambda>s. (sd_id s, sd_skip s)) (filter (due (now_ms w)) (schedules w))) \<subseteq> set (schedule_keys w)" by auto
  from tick_keeps_flight_inv [OF assms this] show ?thesis by (simp add: True schedule_tick_def)
next
  case False
  from settled_event [OF this, of w env] show ?thesis using assms by (auto simp: settled_def flight_inv_def single_flight_def list_all_iff)
qed

lemma event_keeps_statuses:
  assumes "keyed dev_id (devices w)" and "statuses_ok w"
  shows "keyed dev_id (devices (sd_apply env w ev)) \<and> statuses_ok (sd_apply env w ev)"
proof (cases "ev = SdTick")
  case True
  obtain new where new: "same_site w (schedule_tick env w)" "unlinked (schedule_tick env w) = unlinked w @ new"
    "\<forall>e \<in> set new. \<exists>s \<in> set (filter (due (now_ms w)) (schedules w)). run_of s w e"
    using tick_frame [OF assms(1)] unfolding schedule_tick_def by blast
  have "\<forall>e \<in> set new. xn_status e = ''pending''" using new(3) run_of_facts by blast
  then show ?thesis
    using assms new(1) by (auto simp: True statuses_ok_unlinked new(2) same_site_def list_all_iff written_statuses_def)
next
  case False
  from settled_event [OF this, of w env] show ?thesis using assms by (simp add: settled_def)
qed

interpretation flights: guarded_machine "flight_inv :: 'a sd_db_scheme \<Rightarrow> bool" "\<lambda>w w'. \<exists>ev. w' = sd_apply env w ev"
  by unfold_locales (auto intro: event_keeps_flight_inv)

interpretation statuses: guarded_machine "\<lambda>w :: 'a sd_db_scheme. keyed dev_id (devices w) \<and> statuses_ok w" "\<lambda>w w'. \<exists>ev. w' = sd_apply env w ev"
  by unfold_locales (auto dest: event_keeps_statuses)

lemma events_reach: "(\<lambda>w w'. \<exists>ev. w' = sd_apply env w ev)\<^sup>*\<^sup>* w (foldl (sd_apply env) w evs)"
  by (induction evs arbitrary: w) (auto intro: converse_rtranclp_into_rtranclp)


text \<open>
  C28. Nothing ever records that an execution was sent or runs, so the route that stops a running execution finds none, and
  the one that cancels a pending execution names a column the table does not have: after any sequence of events neither
  succeeds and neither changes the state.
\<close>

theorem stop_and_cancel_never_succeed:
  assumes "keyed dev_id (devices w)" and "statuses_ok w" and "w' = foldl (sd_apply env) w evs"
  shows "stopExecution i t user adm w' = (w', ExNotFound) \<and> fst (cancelExecution i t user adm w') = w' \<and>
    snd (cancelExecution i t user adm w') \<noteq> ExDone"
proof -
  have "statuses_ok w'" using statuses.reach_inv [OF events_reach [of env w evs]] assms by simp
  then have "find (\<lambda>e. xn_id e = i \<and> xn_tenant e = t \<and> xn_status e \<in> set [''running'', ''sent'']) (executions w') = None"
    by (auto simp: find_None_iff statuses_ok_def list_all_iff written_statuses_def)
  then show ?thesis
    by (simp add: stopExecution_def cancelExecution_def update_executions_def execution_columns_def split: option.split)
qed

section \<open>The sweep and the end of an execution\<close>

abbreviation timed_out :: "int \<Rightarrow> execution_row \<Rightarrow> execution_row" where
  "timed_out now e \<equiv> e\<lparr>xn_status := ''timeout'', xn_finished := Some now,
     xn_stderr := JStr (''Execution exceeded '' @ show_nat (nat \<lfloor>snapshot_timeout (xn_snapshot e)\<rfloor>) @ ''s timeout (no agent response)'')\<rparr>"

abbreviation command_of :: "string \<Rightarrow> command_row \<Rightarrow> bool" where
  "command_of i c \<equiv> cq_source_type c = Some ''script_execution'' \<and> cq_source_id c = Some i \<and> cq_status c \<in> set [''pending'', ''sent'']"

lemma sweep_one_tables:
  "executions (sweep_one v row) = (if stale (now_ms v) row
     then map (\<lambda>e. if xn_id e = xn_id row
       then e\<lparr>xn_status := ''timeout'', xn_finished := Some (now_ms v), xn_stderr := xn_stderr (timed_out (now_ms v) row)\<rparr> else e) (executions v)
     else executions v)"
  "command_queue (sweep_one v row) = (if stale (now_ms v) row
     then map (\<lambda>c. if command_of (xn_id row) c then c\<lparr>cq_status := ''timeout'', cq_finished := Some (now_ms v)\<rparr> else c) (command_queue v)
     else command_queue v)"
  "now_ms (sweep_one v row) = now_ms v"
  by (simp_all add: sweep_one_def emit_def tbl_update_def)

text \<open>The loop over the rows in flight is one pass over each table.\<close>

lemma sweep_loop:
  assumes "keyed xn_id rows"
  shows "executions (foldl sweep_one v rows) = map (\<lambda>e. case find (\<lambda>r. xn_id r = xn_id e \<and> stale (now_ms v) r) rows of
      None \<Rightarrow> e
    | Some r \<Rightarrow> e\<lparr>xn_status := ''timeout'', xn_finished := Some (now_ms v), xn_stderr := xn_stderr (timed_out (now_ms v) r)\<rparr>) (executions v)"
  using assms
proof (induction rows arbitrary: v)
  case (Cons r rows)
  have k: "keyed xn_id rows" and out: "xn_id r \<notin> xn_id ` set rows" using Cons.prems by (auto simp: keyed_def)
  have gone: "find (\<lambda>x. xn_id x = xn_id r \<and> stale n x) rows = None" for n
    using out by (auto simp: find_None_iff image_iff)
  show ?case
    by (auto simp: Cons.IH [OF k] sweep_one_tables gone split: option.split)
qed simp

lemma sweep_loop_queue:
  "command_queue (foldl sweep_one v rows) = map (\<lambda>c. if list_ex (\<lambda>r. stale (now_ms v) r \<and> command_of (xn_id r) c) rows
      then c\<lparr>cq_status := ''timeout'', cq_finished := Some (now_ms v)\<rparr> else c) (command_queue v)"
proof (induction rows arbitrary: v)
  case (Cons r rows)
  show ?case by (auto simp: Cons.IH sweep_one_tables)
qed simp

text \<open>
  C26. The sweep ends exactly the executions in flight that are older than the timeout of their snapshot (five minutes when it
  has none) plus a minute, each with a message that names its timeout; the commands it ends are exactly those of such an
  execution that the agent has not acknowledged. Every other execution and command is as it was.
\<close>

theorem sweep_ends_exactly_the_stale:
  assumes "keyed xn_id (executions w)"
  shows "executions (sweepStaleExecutions w) =
      map (\<lambda>e. if xn_status e \<in> set [''pending'', ''sent'', ''running''] \<and>
                 of_int (now_ms w) > of_int (xn_triggered e) + (snapshot_timeout (xn_snapshot e) + 60) * 1000
             then timed_out (now_ms w) e else e) (executions w) \<and>
    command_queue (sweepStaleExecutions w) =
      map (\<lambda>c. if cq_source_type c = Some ''script_execution'' \<and> cq_status c \<in> set [''pending'', ''sent''] \<and>
                 list_ex (\<lambda>e. cq_source_id c = Some (xn_id e) \<and> xn_status e \<in> set [''pending'', ''sent'', ''running''] \<and>
                    of_int (now_ms w) > of_int (xn_triggered e) + (snapshot_timeout (xn_snapshot e) + 60) * 1000) (executions w)
             then c\<lparr>cq_status := ''timeout'', cq_finished := Some (now_ms w)\<rparr> else c) (command_queue w)"
proof -
  let ?late = "\<lambda>e. of_int (now_ms w) > of_int (xn_triggered e) + (snapshot_timeout (xn_snapshot e) + 60) * 1000"
  let ?rows = "filter (\<lambda>e. xn_status e \<in> set in_flight) (executions w)"
  have late: "stale (now_ms w) e = ?late e" for e by (simp add: stale_def algebra_simps)
  have k: "keyed xn_id ?rows" using assms by (simp add: keyed_def distinct_map_filter)
  have pick: "find (\<lambda>r. xn_id r = xn_id e \<and> stale (now_ms w) r) ?rows =
      (if xn_status e \<in> set in_flight \<and> stale (now_ms w) e then Some e else None)" if "e \<in> set (executions w)" for e
  proof -
    have same: "r = e" if "r \<in> set (executions w)" "xn_id r = xn_id e" for r
      using assms that \<open>e \<in> set (executions w)\<close> by (auto simp: keyed_def distinct_map dest: inj_onD)
    show ?thesis
    proof (cases "find (\<lambda>r. xn_id r = xn_id e \<and> stale (now_ms w) r) ?rows")
      case None
      then show ?thesis using that by (auto simp: find_None_iff)
    next
      case (Some r)
      have r: "r \<in> set (executions w) \<and> xn_status r \<in> set in_flight \<and> xn_id r = xn_id e \<and> stale (now_ms w) r"
        using find_SomeD [OF Some] by simp
      then have "r = e" using same by blast
      then show ?thesis using Some r by simp
    qed
  qed
  have "executions (sweepStaleExecutions w) = map (\<lambda>e. if xn_status e \<in> set in_flight \<and> stale (now_ms w) e then timed_out (now_ms w) e else e) (executions w)"
    unfolding sweepStaleExecutions_def sweep_loop [OF k] by (rule map_cong [OF refl]) (simp add: pick)
  moreover have "list_ex (\<lambda>r. stale (now_ms w) r \<and> command_of (xn_id r) c) ?rows \<longleftrightarrow>
      cq_source_type c = Some ''script_execution'' \<and> cq_status c \<in> set [''pending'', ''sent''] \<and>
      list_ex (\<lambda>e. cq_source_id c = Some (xn_id e) \<and> xn_status e \<in> set in_flight \<and> ?late e) (executions w)" for c
    unfolding late list_ex_iff set_filter by blast
  then have "command_queue (sweepStaleExecutions w) = map (\<lambda>c. if cq_source_type c = Some ''script_execution'' \<and>
        cq_status c \<in> set [''pending'', ''sent''] \<and>
        list_ex (\<lambda>e. cq_source_id c = Some (xn_id e) \<and> xn_status e \<in> set in_flight \<and> ?late e) (executions w)
      then c\<lparr>cq_status := ''timeout'', cq_finished := Some (now_ms w)\<rparr> else c) (command_queue w)"
    unfolding sweepStaleExecutions_def sweep_loop_queue by (simp only:)
  ultimately show ?thesis unfolding late in_flight_def by (rule conjI)
qed

lemma ack_executions_cases:
  assumes "cq_source_type c = Some ''script_execution''" and "cq_source_id c = Some i" and "i \<noteq> []" and "is_terminal a"
  shows "executions (ack_execution t a (Some c) w) =
    (case (exit_column (ack_result_obj a), started_column (now_ms w) (ack_result_obj a)) of
       (Some code, Some started) \<Rightarrow> map (\<lambda>e. if xn_id e = i
          then e\<lparr>xn_status := (if ack_status a \<in> set [''success'', ''timeout''] then ack_status a else ''failure''), xn_exit := code,
                 xn_stdout := result_field (ack_result_obj a) ''stdout'', xn_stderr := result_field (ack_result_obj a) ''stderr'',
                 xn_started := Some started, xn_finished := Some (now_ms w)\<rparr> else e) (executions w)
     | _ \<Rightarrow> executions w)"
  using assms by (simp add: ack_execution_def emit_def Let_def tbl_update_def split: option.split)

text \<open>
  C27. A final acknowledgement records the result of the execution its command belongs to, but only while the exit code fits
  a signed 32-bit column: otherwise the execution stays as it was, in flight, although its command has ended.
\<close>

theorem ack_records_fitting_exit_codes:
  assumes "snd (processAck d t a w) = Some c" and "cq_source_type c = Some ''script_execution''" and "cq_source_id c = Some i" and "i \<noteq> []"
    and "is_terminal a" and "ack_result a = Some r" and "map_of r ''exitCode'' = Some (JNum (of_int n))"
    and "map_of r ''duration'' = Some (JNum (of_int ms))" and "\<bar>now_ms w - ms\<bar> \<le> 8640000000000000"
  shows "executions (ack_script d t a w) =
    (if - (2 ^ 31) \<le> n \<and> n < 2 ^ 31
     then map (\<lambda>e. if xn_id e = i
            then e\<lparr>xn_status := (if ack_status a = ''success'' \<or> ack_status a = ''timeout'' then ack_status a else ''failure''),
                   xn_exit := JNum (of_int n), xn_stdout := result_field r ''stdout'', xn_stderr := result_field r ''stderr'',
                   xn_started := Some (now_ms w - ms), xn_finished := Some (now_ms w)\<rparr> else e) (executions w)
     else executions w)"
proof -
  obtain w1 where w1: "processAck d t a w = (w1, Some c)" using assms(1) by (cases "processAck d t a w") auto
  have f: "executions w1 = executions w" "now_ms w1 = now_ms w"
    using processAck_frame [where w = w and d = d and t = t and a = a] by (simp_all add: w1)
  have robj: "ack_result_obj a = r" by (simp add: ack_result_obj_def assms(6))
  have code: "exit_column r = (if - (2 ^ 31) \<le> n \<and> n < 2 ^ 31 then Some (JNum (of_int n)) else None)"
  proof -
    have "(column_int (Fin (of_int n)) \<noteq> None \<or> (of_int n :: rat) = - 2147483648) \<longleftrightarrow> - (2 ^ 31) \<le> n \<and> n < 2 ^ 31"
    proof -
      have "(of_int n :: rat) = - 2147483648 \<longleftrightarrow> n = - 2147483648" by linarith
      moreover have "\<bar>of_int n :: rat\<bar> \<le> 2147483647 \<longleftrightarrow> \<bar>n\<bar> \<le> 2147483647" by linarith
      ultimately show ?thesis by (auto simp: column_int_def)
    qed
    then show ?thesis by (simp add: exit_column_def assms(7))
  qed
  have started: "started_column (now_ms w) r = Some (now_ms w - ms)"
  proof -
    have "(of_int (now_ms w) - of_int ms :: rat) = of_int (now_ms w - ms)" by simp
    moreover have "\<bar>of_int (now_ms w - ms) :: rat\<bar> \<le> 8640000000000000" using assms(9) by linarith
    ultimately show ?thesis by (simp only: started_column_def assms(8) option.case json.case floor_of_int if_True)
  qed
  show ?thesis
    unfolding ack_script_def w1 prod.case
    by (cases "- (2 ^ 31) \<le> n \<and> n < 2 ^ 31")
      (simp_all only: ack_executions_cases [OF assms(2-5)] robj code started f if_True if_False option.case prod.case
        insert_iff list.set empty_iff simp_thms)
qed

section \<open>A site with one schedule\<close>

text \<open>Device 4 is in privacy mode, device 5 is in group 3, on which user 7 may execute.\<close>

definition ex_script :: script_source where
  "ex_script = \<lparr>sx_id = 8, sx_tenant = Some 2, sx_shared = None, sx_name = ''s'', sx_platform = ''linux'', sx_runtime = ''bash'',
     sx_content = ''date'', sx_timeout = None, sx_expected = None, sx_run_as = None\<rparr>"

definition ex_schedule :: schedule_def where
  "ex_schedule = \<lparr>sd_id = 1, sd_tenant = 2, sd_script = 8, sd_target_type = Some ''group'', sd_target_ids = Some [Fin 3],
     sd_cron = Some ''* * * * *'', sd_timezone = None, sd_fire_once = None, sd_next_run = Some 500, sd_last_run = None, sd_timeout = None,
     sd_parameters = None, sd_conditions = None, sd_skip = Some True, sd_bypass = False, sd_catchup = True, sd_catchup_max = 3,
     sd_enabled = True\<rparr>"

definition ex_host :: "nat \<Rightarrow> bool \<Rightarrow> device_row" where
  "ex_host i p = \<lparr>dev_id = i, dev_tenant = 2, dev_group = Some 3, dev_api_key = None, dev_privacy = p, dev_status = ''online'',
     dev_os_type = ''linux'', dev_tags = [], dev_hostname = ''h'', dev_display_name = None\<rparr>"

definition ex_branch :: sd_db where
  "ex_branch = \<lparr>now_ms = 1000, devices = [ex_host 4 True, ex_host 5 False], device_groups = [], group_seq = 1,
     group_closure = [\<lparr>cl_anc = 3, cl_desc = 3, cl_depth = 0\<rparr>], users = [], user_tenants = [], permission_sets = [], user_teams = [],
     team_memberships = [\<lparr>tm_team = 1, tm_user = 7\<rparr>],
     team_permissions = [\<lparr>tp_team = 1, tp_scope = ScGroup, tp_scope_id = 3, tp_level = Ro, tp_caps = [''execute'']\<rparr>],
     agent_api_keys = [], settings = [], gate = [],
     uuid_pool = (\<lambda>n. ''00000000-0000-4000-8000-0000000000'' @ show_nat (10 + n)), next_uuid = 0,
     command_types = [''run_script'', ''cancel_script''], command_queue = [], remote_sessions = [], device_updates = [], emitted = [],
     all_scripts = [ex_script], schedules = [ex_schedule], executions = [], approved_devices = [4, 5]\<rparr>"

definition ex_sd_env :: sd_env where
  "ex_sd_env = \<lparr>se_cron_ok = (\<lambda>_. True), se_next = (\<lambda>_ _ t. Some (t + 60000)), se_column = (\<lambda>_ _. None)\<rparr>"

lemma ex_branch_ok: "keyed dev_id (devices ex_branch)" "keyed sd_id (schedules ex_branch)" "single_flight ex_branch" "statuses_ok ex_branch"
  "site_ids_ok ex_branch"
  by code_simp+

lemma ex_branch_tick: "map xn_device (executions (schedule_tick ex_sd_env ex_branch)) = [5]"
  by code_simp

theorem tick_runs_where_allowed_witness:
  "\<exists>e s d. e \<in> set (executions (schedule_tick ex_sd_env ex_branch)) \<and> s \<in> set (schedules ex_branch) \<and> due 1000 s \<and>
     xn_schedule e = Some (sd_id s) \<and> d \<in> set (devices ex_branch) \<and> dev_id d = xn_device e \<and> \<not> (dev_privacy d \<and> \<not> sd_bypass s)"
proof -
  obtain e where e: "e \<in> set (executions (schedule_tick ex_sd_env ex_branch))" using ex_branch_tick by (cases "executions (schedule_tick ex_sd_env ex_branch)") auto
  then have "e \<in> set (drop (length (executions ex_branch)) (executions (schedule_tick ex_sd_env ex_branch)))" by (simp add: ex_branch_def)
  from tick_runs_where_allowed [OF ex_branch_ok(1) this] have "\<exists>s \<in> set (schedules ex_branch). due (now_ms ex_branch) s \<and>
      xn_schedule e = Some (sd_id s) \<and> (\<exists>d \<in> set (devices ex_branch). dev_id d = xn_device e \<and> (\<not> dev_privacy d \<or> sd_bypass s))"
    by blast
  moreover have "now_ms ex_branch = 1000" by (simp add: ex_branch_def)
  ultimately show ?thesis using e by auto
qed

lemma ex_branch_check:
  "assertMayScheduleScript 7 False (sd_tenant ex_schedule) (Fin 8) (sd_target_type ex_schedule) (sd_target_ids ex_schedule) ex_branch = None"
  "resolveTargetDevices ex_schedule ex_branch = Some [ex_host 4 True, ex_host 5 False]"
  "int_id (Fin 8) = Some (sd_script ex_schedule)"
  by code_simp+

theorem schedule_check_covers_targets_witness:
  "scriptVisibleToTenant 8 2 ex_branch \<noteq> None \<and> canUseCapability ex_branch 7 4 False ''execute'' \<and> canUseCapability ex_branch 7 5 False ''execute''"
  using schedule_check_covers_targets [OF ex_branch_ok(5) ex_branch_check(3) ex_branch_check(1) ex_branch_check(2)]
  by (simp add: ex_schedule_def ex_host_def)

definition ex_day :: "sd_event list" where
  "ex_day = [SdTick, SdQueue (CTick 60000), SdTick]"

lemma ex_day_flights: "flights_of (foldl (sd_apply ex_sd_env) ex_branch ex_day) 1 = [5]"
  by code_simp


definition ex_started :: sd_db where
  "ex_started = foldl (sd_apply ex_sd_env) ex_branch [SdTick]"

abbreviation ex_execution :: string where
  "ex_execution \<equiv> ''00000000-0000-4000-8000-000000000011''"

lemma ex_started_pending: "map (\<lambda>e. (xn_id e, xn_status e)) (executions ex_started) = [(ex_execution, ''pending'')]"
  by code_simp

theorem stop_and_cancel_never_succeed_witness:
  "map (\<lambda>e. (xn_id e, xn_status e)) (executions ex_started) = [(ex_execution, ''pending'')] \<and>
   stopExecution ex_execution 2 7 True ex_started = (ex_started, ExNotFound) \<and>
   snd (cancelExecution ex_execution 2 7 True ex_started) \<noteq> ExDone"
  using stop_and_cancel_never_succeed [OF ex_branch_ok(1,4) ex_started_def] ex_started_pending by simp

definition ex_late :: sd_db where
  "ex_late = ex_branch\<lparr>now_ms := 361001, executions := [manual_row ex_script 8 2 None 7 ''b'' 5 ex_execution 1000]\<rparr>"

lemma ex_late_facts: "keyed xn_id (executions ex_late)"
  "map (\<lambda>e. xn_status e \<in> set [''pending'', ''sent'', ''running''] \<and>
     of_int (now_ms ex_late) > of_int (xn_triggered e) + (snapshot_timeout (xn_snapshot e) + 60) * 1000) (executions ex_late) = [True]"
  by code_simp+

theorem sweep_ends_exactly_the_stale_witness:
  "map xn_status (executions (sweepStaleExecutions ex_late)) = [''timeout'']"
proof -
  obtain e where e: "executions ex_late = [e]" "xn_status e \<in> set [''pending'', ''sent'', ''running'']"
    "of_int (now_ms ex_late) > of_int (xn_triggered e) + (snapshot_timeout (xn_snapshot e) + 60) * 1000"
    using ex_late_facts(2) by (auto simp: map_eq_Cons_conv)
  then show ?thesis using sweep_ends_exactly_the_stale [OF ex_late_facts(1)] by simp
qed

text \<open>The script ends with \<open>exit -1\<close> on Windows, which the agent reports as \<open>2 ^ 32 - 1\<close>.\<close>

definition ex_running :: sd_db where
  "ex_running = ex_branch\<lparr>executions := [manual_row ex_script 8 2 None 7 ''b'' 5 ex_execution 900],
     command_queue := [\<lparr>cq_id = ex_id, cq_device = 5, cq_tenant = 2, cq_type = ''run_script'', cq_payload = [],
       cq_status = ''sent'', cq_priority = ''high'', cq_sent = None, cq_acked = None, cq_finished = None, cq_expires = None, cq_result = [],
       cq_retry_count = 0, cq_max_retries = 0, cq_source_type = Some ''script_execution'', cq_source_id = Some ex_execution,
       cq_created_by = None, cq_created = 900, cq_updated = 900\<rparr>]\<rparr>"

definition ex_exit :: command_ack where
  "ex_exit = \<lparr>ack_command = ex_id, ack_status = ''failure'',
     ack_result = Some [(''exitCode'', JNum (of_int 4294967295)), (''duration'', JNum (of_int 5))], ack_type = None\<rparr>"

lemma ex_exit_row:
  "map_option (\<lambda>c. (cq_source_type c, cq_source_id c, cq_status c)) (snd (processAck 5 2 ex_exit ex_running)) =
     Some (Some ''script_execution'', Some ex_execution, ''failure'')"
  by (simp add: processAck_row ex_exit_def ex_id_uuid acked_queue_def ack_update_def Let_def ex_running_def tbl_update_def)

lemma ex_running_facts:
  "map (\<lambda>e. (xn_id e, xn_status e)) (executions ex_running) = [(ex_execution, ''pending'')]"
  "is_terminal ex_exit" "now_ms ex_running = 1000"
  by code_simp+

theorem ack_records_fitting_exit_codes_witness:
  "map (\<lambda>e. (xn_id e, xn_status e)) (executions (ack_script 5 2 ex_exit ex_running)) = [(ex_execution, ''pending'')]"
proof -
  obtain c where c: "snd (processAck 5 2 ex_exit ex_running) = Some c" "cq_source_type c = Some ''script_execution''"
    "cq_source_id c = Some ex_execution"
    using ex_exit_row by auto
  show ?thesis
    using ack_records_fitting_exit_codes [OF c _ ex_running_facts(2), where r = "[(''exitCode'', JNum (of_int 4294967295)), (''duration'', JNum (of_int 5))]"
        and n = 4294967295 and ms = 5] ex_running_facts(1,3)
    by (simp add: ex_exit_def)
qed

end
