(* ===== verification/Schedule_Routes.thy ===== *)
theory Schedule_Routes
  imports Schedule
begin

text \<open>
  The routes that store and list schedules (\<^verbatim>\<open>server/src/routes/schedule.routes.ts\<close>), around the check
  \<open>assertMayScheduleScript\<close>: create, edit, delete, the number of devices shown for a schedule and the schedules shown for a
  device. A field the request does not give is \<open>None\<close> or \<open>Absent\<close>; names, notes and channels are left out. A request that
  raises the privacy bypass is handed to the restriction gate (\<open>Restriction\<close>), which is the reply \<open>ScGate\<close>, before anything
  is stored. \<open>schedule_seq\<close> is the sequence of the table.
\<close>

section \<open>Requests\<close>

record sr_db = sd_db +
  schedule_seq :: nat

record sr_request =
  rt_user :: nat
  rt_admin :: bool
  rt_tenant :: nat

record schedule_body =
  sb_script :: "jsnum option"
  sb_target_type :: "string option"
  sb_target_ids :: "jsnum list option"
  sb_cron :: "string jsprop"
  sb_fire_once :: "int jsprop"
  sb_timezone :: "string option"
  sb_enabled :: "bool option"
  sb_bypass :: "bool option"
  sb_catchup :: "bool option"
  sb_catchup_max :: "nat option"
  sb_timeout :: "int jsprop"
  sb_scenario :: "nat jsprop"
  sb_skip :: "bool option"
  sb_parameters :: "json_obj option"
  sb_conditions :: "run_condition list option"

datatype schedule_reply = ScDone | ScForbidden | ScNotFound | ScRefused schedule_refusal | ScGate

definition capability_refused :: "sr_request \<Rightarrow> string \<Rightarrow> 'a org_scheme \<Rightarrow> bool" where
  "capability_refused rq cap w \<longleftrightarrow> \<not> rt_admin rq \<and> (rt_tenant rq = 0 \<or> \<not> userHasTenantCapability w (rt_user rq) (rt_tenant rq) cap)"

section \<open>Create\<close>

definition or_default :: "string \<Rightarrow> string option \<Rightarrow> string" where
  "or_default d x = (case x of None \<Rightarrow> d | Some s \<Rightarrow> if s = [] then d else s)"

definition first_run :: "sd_env \<Rightarrow> schedule_body \<Rightarrow> int \<Rightarrow> int option" where
  "first_run env b now =
     (case sb_fire_once b of
        Val t \<Rightarrow> Some t
      | _ \<Rightarrow> (case sb_cron b of
          Val c \<Rightarrow> if c = [] then None
                   else (case se_next env c (if sb_timezone b = Some [] then None else sb_timezone b) now of None \<Rightarrow> Some now | Some t \<Rightarrow> Some t)
        | _ \<Rightarrow> None))"

definition new_schedule :: "sd_env \<Rightarrow> sr_request \<Rightarrow> nat \<Rightarrow> nat \<Rightarrow> schedule_body \<Rightarrow> int \<Rightarrow> schedule_def" where
  "new_schedule env rq i script b now =
     \<lparr>sd_id = i, sd_tenant = rt_tenant rq, sd_script = script, sd_target_type = Some (or_default ''device'' (sb_target_type b)),
      sd_target_ids = Some (case sb_target_ids b of None \<Rightarrow> [] | Some ids \<Rightarrow> ids), sd_cron = field_opt (sb_cron b),
      sd_timezone = Some (or_default ''UTC'' (sb_timezone b)), sd_fire_once = field_opt (sb_fire_once b), sd_next_run = first_run env b now,
      sd_last_run = None, sd_timeout = field_opt (sb_timeout b), sd_parameters = Some (case sb_parameters b of None \<Rightarrow> [] | Some p \<Rightarrow> p),
      sd_conditions = Some (case sb_conditions b of None \<Rightarrow> [] | Some cs \<Rightarrow> cs), sd_skip = Some (sb_skip b \<noteq> Some False), sd_bypass = False,
      sd_catchup = (sb_catchup b \<noteq> Some False), sd_catchup_max = (case sb_catchup_max b of None \<Rightarrow> 3 | Some n \<Rightarrow> if n = 0 then 3 else n),
      sd_enabled = (sb_enabled b \<noteq> Some False)\<rparr>"

definition createSchedule :: "sd_env \<Rightarrow> sr_request \<Rightarrow> schedule_body \<Rightarrow> 'a sr_db_scheme \<Rightarrow> 'a sr_db_scheme \<times> schedule_reply" where
  "createSchedule env rq b w =
     (if capability_refused rq ''scripts.manage'' w then (w, ScForbidden)
      else let script = (case sb_script b of None \<Rightarrow> NonFin | Some n \<Rightarrow> n);
               ids = (case sb_target_ids b of None \<Rightarrow> [] | Some x \<Rightarrow> x)
           in case assertMayScheduleScript (rt_user rq) (rt_admin rq) (rt_tenant rq) script
                     (Some (or_default ''device'' (sb_target_type b))) (Some ids) w of
                Some e \<Rightarrow> (w, ScRefused e)
              | None \<Rightarrow>
                  if sb_bypass b = Some True then (w, ScGate)
                  else (case int_id script of
                          None \<Rightarrow> (w, ScRefused ScriptIdRequired)
                        | Some i \<Rightarrow>
                            (w\<lparr>schedules := schedules w @ [new_schedule env rq (schedule_seq w) i b (now_ms w)],
                               schedule_seq := schedule_seq w + 1\<rparr>, ScDone)))"

section \<open>Edit and delete\<close>

definition touchesExecution :: "schedule_body \<Rightarrow> bool" where
  "touchesExecution b \<longleftrightarrow> sb_script b \<noteq> None \<or> sb_target_type b \<noteq> None \<or> sb_target_ids b \<noteq> None \<or> sb_enabled b \<noteq> None \<or>
     sb_cron b \<noteq> Absent \<or> sb_fire_once b \<noteq> Absent \<or> sb_timezone b \<noteq> None \<or> sb_bypass b \<noteq> None \<or> sb_catchup b \<noteq> None \<or>
     sb_timeout b \<noteq> Absent \<or> sb_scenario b \<noteq> Absent"

definition set_prop :: "'b jsprop \<Rightarrow> 'b option \<Rightarrow> 'b option" where
  "set_prop p old = (if p = Absent then old else field_opt p)"

text \<open>The next run after a patch: a one-time instant first, then a new expression, which wins when it parses.\<close>

definition patched_next :: "sd_env \<Rightarrow> schedule_body \<Rightarrow> schedule_def \<Rightarrow> int \<Rightarrow> int option \<Rightarrow> int option" where
  "patched_next env b current now old =
     (let once = (case sb_fire_once b of Val t \<Rightarrow> Some t | _ \<Rightarrow> old);
          zone = (case sb_timezone b of Some (c # cs) \<Rightarrow> Some (c # cs) | _ \<Rightarrow> if sd_timezone current = Some [] then None else sd_timezone current)
      in case sb_cron b of
           Val c \<Rightarrow> if c = [] then once else (case se_next env c zone now of None \<Rightarrow> once | Some t \<Rightarrow> Some t)
         | _ \<Rightarrow> once)"

definition apply_body :: "sd_env \<Rightarrow> schedule_body \<Rightarrow> schedule_def \<Rightarrow> int \<Rightarrow> schedule_def \<Rightarrow> schedule_def" where
  "apply_body env b current now r =
     r\<lparr>sd_script := (case sb_script b of None \<Rightarrow> sd_script r | Some n \<Rightarrow> (case int_id n of None \<Rightarrow> sd_script r | Some i \<Rightarrow> i)),
       sd_target_type := orElse (sb_target_type b) (sd_target_type r), sd_target_ids := orElse (sb_target_ids b) (sd_target_ids r),
       sd_cron := set_prop (sb_cron b) (sd_cron r), sd_timezone := orElse (sb_timezone b) (sd_timezone r),
       sd_fire_once := set_prop (sb_fire_once b) (sd_fire_once r), sd_next_run := patched_next env b current now (sd_next_run r),
       sd_timeout := set_prop (sb_timeout b) (sd_timeout r), sd_skip := orElse (sb_skip b) (sd_skip r),
       sd_bypass := (case sb_bypass b of None \<Rightarrow> sd_bypass r | Some x \<Rightarrow> x), sd_catchup := (case sb_catchup b of None \<Rightarrow> sd_catchup r | Some x \<Rightarrow> x),
       sd_enabled := (case sb_enabled b of None \<Rightarrow> sd_enabled r | Some x \<Rightarrow> x)\<rparr>"

definition patch_refusal :: "sr_request \<Rightarrow> schedule_body \<Rightarrow> schedule_def \<Rightarrow> 'a sr_db_scheme \<Rightarrow> schedule_refusal option" where
  "patch_refusal rq b current w =
     (let enabledAfter = (case sb_enabled b of Some x \<Rightarrow> x | None \<Rightarrow> sd_enabled current)
      in if sb_script b \<noteq> None \<or> touchesExecution b \<and> enabledAfter
         then assertMayScheduleScript (rt_user rq) (rt_admin rq) (rt_tenant rq)
                (case sb_script b of Some n \<Rightarrow> n | None \<Rightarrow> Fin (of_nat (sd_script current)))
                (orElse (sb_target_type b) (sd_target_type current)) (orElse (sb_target_ids b) (sd_target_ids current)) w
         else None)"

definition patchSchedule :: "sd_env \<Rightarrow> sr_request \<Rightarrow> nat \<Rightarrow> schedule_body \<Rightarrow> 'a sr_db_scheme \<Rightarrow> 'a sr_db_scheme \<times> schedule_reply" where
  "patchSchedule env rq i b w =
     (if capability_refused rq ''scripts.manage'' w then (w, ScForbidden)
      else case find (\<lambda>s. sd_id s = i \<and> sd_tenant s = rt_tenant rq) (schedules w) of
        None \<Rightarrow> (w, ScNotFound)
      | Some current \<Rightarrow>
          (case patch_refusal rq b current w of
             Some e \<Rightarrow> (w, ScRefused e)
           | None \<Rightarrow>
               if sb_bypass b = Some True \<and> \<not> sd_bypass current then (w, ScGate)
               else (w\<lparr>schedules := tbl_update (\<lambda>s. sd_id s = i \<and> sd_tenant s = rt_tenant rq) (apply_body env b current (now_ms w)) (schedules w)\<rparr>,
                     ScDone)))"

text \<open>The executions of a deleted schedule lose their reference to it.\<close>

definition deleteSchedule :: "sr_request \<Rightarrow> nat \<Rightarrow> 'a sr_db_scheme \<Rightarrow> 'a sr_db_scheme \<times> schedule_reply" where
  "deleteSchedule rq i w =
     (if capability_refused rq ''scripts.manage'' w then (w, ScForbidden)
      else (w\<lparr>schedules := tbl_delete (\<lambda>s. sd_id s = i \<and> sd_tenant s = rt_tenant rq) (schedules w),
              executions := (if list_ex (\<lambda>s. sd_id s = i \<and> sd_tenant s = rt_tenant rq) (schedules w)
                then tbl_update (\<lambda>e. xn_schedule e = Some i) (\<lambda>e. e\<lparr>xn_schedule := None\<rparr>) (executions w) else executions w)\<rparr>, ScDone))"

section \<open>Lists\<close>

text \<open>The number of devices shown for a schedule; \<open>None\<close> when the database refuses an id.\<close>

definition resolveCount :: "schedule_def \<Rightarrow> 'a sd_db_scheme \<Rightarrow> nat option" where
  "resolveCount s w =
     (let raw = (case sd_target_ids s of None \<Rightarrow> [] | Some x \<Rightarrow> x);
          q = filter (\<lambda>d. dev_status d \<in> set alive_statuses) (approved_of (sd_tenant s) w)
      in if sd_target_type s = Some ''all'' then Some (length q)
         else if sd_target_type s = Some ''device''
         then if raw = [] then Some 0
              else map_option (\<lambda>ids. length (filter (\<lambda>d. int (dev_id d) \<in> set ids) q)) (column_ints raw)
         else if sd_target_type s = Some ''group''
         then if raw = [] then Some 0
              else map_option (\<lambda>ids. length (filter (in_groups (with_descendants ids w)) q)) (column_ints raw)
         else Some 0)"

definition schedulesForDevice :: "nat \<Rightarrow> nat \<Rightarrow> 'a sd_db_scheme \<Rightarrow> schedule_def list option" where
  "schedulesForDevice t d w =
     (case find (\<lambda>r. dev_id r = d \<and> dev_tenant r = t) (devices w) of
        None \<Rightarrow> None
      | Some dev \<Rightarrow>
          (let above = (if truthy_id (dev_group dev)
                 then the (dev_group dev) # map cl_anc (filter (\<lambda>r. Some (cl_desc r) = dev_group dev) (group_closure w)) else [])
           in Some (filter (\<lambda>s.
                let ids = (case sd_target_ids s of None \<Rightarrow> [] | Some x \<Rightarrow> x)
                in if sd_target_type s = Some ''all'' then True
                   else if sd_target_type s = Some ''group'' then list_ex (\<lambda>n. n \<in> set (map (\<lambda>g. Fin (of_nat g)) above)) ids
                   else if sd_target_type s = Some ''device'' then Fin (of_nat d) \<in> set ids
                   else False) (filter (\<lambda>s. sd_tenant s = t) (schedules w)))))"

datatype sr_event = SrCreate schedule_body | SrPatch nat schedule_body | SrDelete nat

fun sr_apply :: "sd_env \<Rightarrow> sr_request \<Rightarrow> 'a sr_db_scheme \<Rightarrow> sr_event \<Rightarrow> 'a sr_db_scheme" where
  "sr_apply env rq w (SrCreate b) = fst (createSchedule env rq b w)"
| "sr_apply env rq w (SrPatch i b) = fst (patchSchedule env rq i b w)"
| "sr_apply env rq w (SrDelete i) = fst (deleteSchedule rq i w)"

section \<open>An editor never schedules beyond its own rights\<close>

definition run_fields :: "schedule_def \<Rightarrow> nat \<times> nat \<times> nat \<times> string option \<times> jsnum list option \<times> bool" where
  "run_fields s = (sd_id s, sd_tenant s, sd_script s, sd_target_type s, sd_target_ids s, sd_enabled s)"

definition covers :: "'a sd_db_scheme \<Rightarrow> nat \<Rightarrow> schedule_def \<Rightarrow> bool" where
  "covers w user s \<longleftrightarrow> scriptVisibleToTenant (sd_script s) (sd_tenant s) w \<noteq> None \<and>
     (case resolveTargetDevices s w of None \<Rightarrow> True | Some ds \<Rightarrow> list_all (\<lambda>d. canUseCapability w user (dev_id d) False ''execute'') ds)"

lemma checked_covers:
  assumes "site_ids_ok w" and "assertMayScheduleScript user False (sd_tenant s) n (sd_target_type s) (sd_target_ids s) w = None"
    and "int_id n = Some (sd_script s)"
  shows "covers w user s"
  using assms(2,3) may_schedule_lacking [OF assms(1,2)] targets_checked [OF assms(1)]
  by (auto simp: covers_def assertMayScheduleScript_def list_all_iff split: if_splits option.split)

lemma checked_id: "assertMayScheduleScript user adm t n tt ids w = None \<Longrightarrow> int_id n \<noteq> None"
  by (cases "int_id n") (simp_all add: assertMayScheduleScript_def)

lemma same_org_covers:
  fixes w w' :: "'a sd_db_scheme"
  assumes "same_site w w'" and "team_memberships w' = team_memberships w" and "team_permissions w' = team_permissions w"
  shows "covers w' user s = covers w user s"
proof -
  have "canUseCapability w' user d False c = canUseCapability w user d False c" for d c
  proof -
    have "user_grants w' user = user_grants w user" using assms(2,3) by (simp add: user_grants_def)
    moreover from this have "group_grants w' user g = group_grants w user g" for g using assms(1) by (simp add: group_grants_def same_site_def)
    moreover have "device_by_id w' d = device_by_id w d" using assms(1) by (simp add: device_by_id_def same_site_def)
    ultimately show ?thesis by (simp only: canUseCapability_def)
  qed
  then show ?thesis by (simp add: covers_def same_site_visible [OF assms(1)] resolve_cong [OF assms(1)] split: option.split)
qed

lemma event_site:
  "same_site w (sr_apply env rq w ev) \<and> team_memberships (sr_apply env rq w ev) = team_memberships w \<and>
   team_permissions (sr_apply env rq w ev) = team_permissions w \<and> agent_api_keys (sr_apply env rq w ev) = agent_api_keys w"
  by (cases ev) (auto simp: createSchedule_def patchSchedule_def deleteSchedule_def same_site_def Let_def split: option.split)

definition rows_numbered :: "'a sr_db_scheme \<Rightarrow> bool" where
  "rows_numbered w \<longleftrightarrow> keyed sd_id (schedules w) \<and> list_all (\<lambda>s. sd_id s < schedule_seq w) (schedules w)"

lemma event_numbered:
  assumes "rows_numbered w"
  shows "rows_numbered (sr_apply env rq w ev)"
proof (cases ev)
  case (SrCreate b)
  have "rows_numbered (w\<lparr>schedules := schedules w @ [new_schedule env rq (schedule_seq w) i b (now_ms w)], schedule_seq := schedule_seq w + 1\<rparr>)" for i
    using assms by (fastforce simp: rows_numbered_def keyed_snoc list_all_iff new_schedule_def)
  then show ?thesis using assms by (auto simp: SrCreate createSchedule_def Let_def split: option.split)
next
  case (SrPatch i b)
  have "rows_numbered (w\<lparr>schedules := tbl_update P (apply_body env b c n) (schedules w)\<rparr>)" for P c n
    using assms by (auto simp: rows_numbered_def keyed_tbl_update apply_body_def list_all_iff set_tbl_update)
  then show ?thesis using assms by (auto simp: SrPatch patchSchedule_def split: option.split)
next
  case (SrDelete i)
  then show ?thesis using assms by (auto simp: deleteSchedule_def rows_numbered_def keyed_tbl_delete list_all_iff set_tbl_delete)
qed

lemma create_rows:
  assumes "site_ids_ok w" and "\<not> rt_admin rq" and "r \<in> set (schedules (fst (createSchedule env rq b w)))"
  shows "r \<in> set (schedules w) \<or> covers w (rt_user rq) r"
proof (cases "r \<in> set (schedules w)")
  case False
  let ?n = "case sb_script b of None \<Rightarrow> NonFin | Some n \<Rightarrow> n"
  obtain i where i: "int_id ?n = Some i" "r = new_schedule env rq (schedule_seq w) i b (now_ms w)"
    "assertMayScheduleScript (rt_user rq) False (rt_tenant rq) ?n (Some (or_default ''device'' (sb_target_type b)))
       (Some (case sb_target_ids b of None \<Rightarrow> [] | Some x \<Rightarrow> x)) w = None"
    using assms(2,3) False unfolding createSchedule_def Let_def
    by (auto split: if_splits option.splits)
  have "covers w (rt_user rq) r"
    using i by (intro checked_covers [OF assms(1), where n = ?n]) (simp_all add: new_schedule_def)
  then show ?thesis ..
qed simp

lemma patch_rows:
  assumes "site_ids_ok w" and "\<not> rt_admin rq" and "rows_numbered w" and "r \<in> set (schedules (fst (patchSchedule env rq i b w)))" and "sd_enabled r"
  shows "(\<exists>r0 \<in> set (schedules w). run_fields r0 = run_fields r) \<or> covers w (rt_user rq) r"
proof (cases "r \<in> set (schedules w)")
  case False
  then obtain current s where c: "find (\<lambda>s. sd_id s = i \<and> sd_tenant s = rt_tenant rq) (schedules w) = Some current"
    "patch_refusal rq b current w = None" "r = apply_body env b current (now_ms w) s" "s \<in> set (schedules w)"
    "sd_id s = i" "sd_tenant s = rt_tenant rq"
    using assms(4) by (auto simp: patchSchedule_def set_tbl_update split: if_splits option.splits)
  have cur: "current \<in> set (schedules w)" "sd_id current = i" using find_SomeD [OF c(1)] by simp_all
  have s: "s = current" using assms(3) c(4,5) cur by (auto simp: rows_numbered_def keyed_def distinct_map dest: inj_onD)
  let ?n = "case sb_script b of Some n \<Rightarrow> n | None \<Rightarrow> Fin (of_nat (sd_script current))"
  have on: "(case sb_enabled b of Some x \<Rightarrow> x | None \<Rightarrow> sd_enabled current)"
    using assms(5) by (simp add: c(3) s apply_body_def split: option.splits)
  show ?thesis
  proof (cases "touchesExecution b")
    case True
    then have ok: "assertMayScheduleScript (rt_user rq) False (rt_tenant rq) ?n
        (orElse (sb_target_type b) (sd_target_type current)) (orElse (sb_target_ids b) (sd_target_ids current)) w = None"
      using c(2) on assms(2) by (simp add: patch_refusal_def)
    then have "int_id ?n \<noteq> None" by (rule checked_id)
    then have "int_id ?n = Some (sd_script r)"
      by (auto simp: c(3) s apply_body_def int_id_def split: option.splits jsnum.splits if_splits)
    moreover have "assertMayScheduleScript (rt_user rq) False (sd_tenant r) ?n (sd_target_type r) (sd_target_ids r) w = None"
      using ok c(6) by (simp add: c(3) s apply_body_def)
    ultimately show ?thesis using checked_covers [OF assms(1)] by blast
  next
    case False
    then have "run_fields r = run_fields current" by (auto simp: touchesExecution_def run_fields_def c(3) s apply_body_def)
    then show ?thesis using cur(1) by auto
  qed
qed auto

lemma event_rows:
  assumes "site_ids_ok w" and "\<not> rt_admin rq" and "rows_numbered w" and "r \<in> set (schedules (sr_apply env rq w ev))" and "sd_enabled r"
  shows "(\<exists>r0 \<in> set (schedules w). run_fields r0 = run_fields r) \<or> covers w (rt_user rq) r"
proof (cases ev)
  case (SrCreate b)
  then show ?thesis using create_rows [OF assms(1,2)] assms(4) by auto
next
  case (SrPatch i b)
  then show ?thesis using patch_rows [OF assms(1-3) _ assms(5)] assms(4) by simp
next
  case (SrDelete i)
  then show ?thesis using assms(4) by (auto simp: deleteSchedule_def set_tbl_delete split: if_splits)
qed

lemma covers_fields:
  assumes "run_fields r = run_fields r'"
  shows "covers w u r = covers w u r'"
proof -
  have "resolveTargetDevices r w = resolveTargetDevices r' w" using assms by (simp add: run_fields_def resolveTargetDevices_def Let_def)
  then show ?thesis using assms by (simp add: covers_def run_fields_def)
qed


section \<open>What the lists show\<close>

lemma column_ints_mem: "column_ints raw = Some ids \<Longrightarrow> int k \<in> set ids \<longleftrightarrow> Fin (of_nat k) \<in> set raw"
proof (induction raw arbitrary: ids)
  case (Cons n raw)
  obtain j js where j: "column_int n = Some j" "column_ints raw = Some js" "ids = j # js"
    using Cons.prems by (auto split: option.splits)
  have "n = Fin (of_int j)" using j(1) by (auto simp: column_int_def split: jsnum.splits if_splits)
  then have "int k = j \<longleftrightarrow> Fin (of_nat k) = n" by (metis jsnum.inject of_int_eq_iff of_int_of_nat_eq)
  then show ?case using Cons.IH [OF j(2)] j(3) by auto
qed simp

abbreviation unlisted_target :: "schedule_def \<Rightarrow> bool" where
  "unlisted_target s \<equiv> sd_target_type s \<noteq> Some ''all'' \<and>
     (sd_target_type s \<notin> {Some ''device'', Some ''group''} \<or> sd_target_ids s = None \<or> sd_target_ids s = Some [])"

lemma resolve_cases:
  assumes "resolveTargetDevices s w = Some ds"
  shows "if sd_target_type s = Some ''all'' \<or> unlisted_target s
    then ds = filter (\<lambda>d. dev_status d \<in> set alive_statuses) (approved_of (sd_tenant s) w)
    else \<exists>ids. column_ints (the (sd_target_ids s)) = Some ids \<and> the (sd_target_ids s) \<noteq> [] \<and> sd_target_ids s \<noteq> None \<and>
      (sd_target_type s = Some ''device'' \<and>
         ds = filter (\<lambda>d. int (dev_id d) \<in> set ids) (filter (\<lambda>d. dev_status d \<in> set alive_statuses) (approved_of (sd_tenant s) w)) \<or>
       sd_target_type s = Some ''group'' \<and>
         ds = filter (in_groups (with_descendants ids w)) (filter (\<lambda>d. dev_status d \<in> set alive_statuses) (approved_of (sd_tenant s) w)))"
proof (cases "sd_target_ids s")
  case None
  then show ?thesis using assms by (auto simp: resolveTargetDevices_def)
next
  case (Some raw)
  then show ?thesis using assms unfolding resolveTargetDevices_def Some Let_def option.case option.sel
    by (cases "raw = []"; cases "sd_target_type s = Some ''device''"; cases "sd_target_type s = Some ''group''") auto
qed

lemma in_groups_listed:
  assumes "column_ints raw = Some ids" and "dev_group d \<noteq> Some 0"
  shows "in_groups (with_descendants ids w) d \<longleftrightarrow>
    list_ex (\<lambda>n. n \<in> set (map (\<lambda>g. Fin (of_nat g)) (if truthy_id (dev_group d)
       then the (dev_group d) # map cl_anc (filter (\<lambda>r. Some (cl_desc r) = dev_group d) (group_closure w)) else []))) raw"
proof (cases "dev_group d")
  case (Some g)
  have "in_groups (with_descendants ids w) d \<longleftrightarrow> int g \<in> set ids \<or> (\<exists>r \<in> set (group_closure w). int (cl_anc r) \<in> set ids \<and> cl_desc r = g)"
    by (auto simp: in_groups_def Some with_descendants_def)
  also have "\<dots> \<longleftrightarrow> Fin (of_nat g) \<in> set raw \<or> (\<exists>r \<in> set (group_closure w). Fin (of_nat (cl_anc r)) \<in> set raw \<and> cl_desc r = g)"
    by (simp add: column_ints_mem [OF assms(1)])
  finally show ?thesis using assms(2) by (auto simp: Some list_ex_iff)
qed (simp add: in_groups_def list_ex_iff)

text \<open>
  C29. For an approved device that is alive, the schedules shown on its page and the schedules that would run on it are the
  same, and the number of devices shown for a schedule is the number it runs on, except for a schedule on devices or groups
  whose list of targets is empty (or whose target type is unknown): it runs on every such device of the tenant, but is shown
  on no page and with the number zero.
\<close>

theorem lists_agree_with_targets:
  assumes "org_ids_ok w" and "d \<in> set (devices w)" and "dev_id d \<in> set (approved_devices w)" and "dev_status d \<in> set alive_statuses"
    and "s \<in> set (schedules w)" and "dev_tenant d = sd_tenant s" and "resolveTargetDevices s w = Some ds"
    and "schedulesForDevice (sd_tenant s) (dev_id d) w = Some ss"
  shows "(d \<in> set ds \<longleftrightarrow> s \<in> set ss \<or> unlisted_target s) \<and> resolveCount s w = Some (if unlisted_target s then 0 else length ds)"
proof
  let ?q = "filter (\<lambda>d. dev_status d \<in> set alive_statuses) (approved_of (sd_tenant s) w)"
  have q: "d \<in> set ?q" using assms(2-4,6) by (simp add: approved_of_def)
  have "find (\<lambda>r. dev_id r = dev_id d \<and> dev_tenant r = sd_tenant s) (devices w) \<noteq> None" using assms(2,6) by (auto simp: find_None_iff)
  then obtain r where r: "find (\<lambda>r. dev_id r = dev_id d \<and> dev_tenant r = sd_tenant s) (devices w) = Some r" by auto
  have "r = d" using assms(1,2) find_SomeD [OF r] by (auto simp: org_ids_ok_def keyed_def distinct_map dest: inj_onD)
  with r have fd: "find (\<lambda>r. dev_id r = dev_id d \<and> dev_tenant r = sd_tenant s) (devices w) = Some d" by simp
  have g: "dev_group d \<noteq> Some 0" using assms(1,2) by (auto simp: org_ids_ok_def list_all_iff)
  let ?above = "if truthy_id (dev_group d) then the (dev_group d) # map cl_anc (filter (\<lambda>r. Some (cl_desc r) = dev_group d) (group_closure w)) else []"
  have ss: "s \<in> set ss \<longleftrightarrow> (let ids = (case sd_target_ids s of None \<Rightarrow> [] | Some x \<Rightarrow> x)
      in if sd_target_type s = Some ''all'' then True
         else if sd_target_type s = Some ''group'' then list_ex (\<lambda>n. n \<in> set (map (\<lambda>g. Fin (of_nat g)) ?above)) ids
         else if sd_target_type s = Some ''device'' then Fin (of_nat (dev_id d)) \<in> set ids else False)"
    using assms(5,8) unfolding schedulesForDevice_def fd option.case Let_def by auto
  show "d \<in> set ds \<longleftrightarrow> s \<in> set ss \<or> unlisted_target s"
  proof (cases "sd_target_type s = Some ''all'' \<or> unlisted_target s")
    case True
    then have "d \<in> set ds" using resolve_cases [OF assms(7)] q by simp
    then show ?thesis using True unfolding ss by auto
  next
    case False
    then obtain ids raw where ids: "sd_target_ids s = Some raw" "column_ints raw = Some ids"
      "sd_target_type s = Some ''device'' \<and> ds = filter (\<lambda>d. int (dev_id d) \<in> set ids) ?q \<or>
       sd_target_type s = Some ''group'' \<and> ds = filter (in_groups (with_descendants ids w)) ?q"
      using resolve_cases [OF assms(7)] by auto
    from ids(3) show ?thesis
    proof
      assume "sd_target_type s = Some ''device'' \<and> ds = filter (\<lambda>d. int (dev_id d) \<in> set ids) ?q"
      then show ?thesis using q False column_ints_mem [OF ids(2), of "dev_id d"] unfolding ss ids(1) by simp
    next
      assume h: "sd_target_type s = Some ''group'' \<and> ds = filter (in_groups (with_descendants ids w)) ?q"
      have "d \<in> set ds \<longleftrightarrow> in_groups (with_descendants ids w) d" using q h by simp
      moreover have "s \<in> set ss \<longleftrightarrow> list_ex (\<lambda>n. n \<in> set (map (\<lambda>g. Fin (of_nat g)) ?above)) raw" by (simp add: ss ids(1) h)
      ultimately show ?thesis using False in_groups_listed [OF ids(2) g] by blast
    qed
  qed
  show "resolveCount s w = Some (if unlisted_target s then 0 else length ds)"
    using resolve_cases [OF assms(7)] by (auto simp: resolveCount_def Let_def split: if_splits option.split)
qed

section \<open>The branch again, with a technician\<close>

definition ex_desk :: sr_db where
  "ex_desk = sd_db.extend (ex_branch\<lparr>user_tenants := [\<lparr>ut_user = 7, ut_tenant = 2, ut_role = ''tech''\<rparr>],
     permission_sets := [\<lparr>ps_slug = ''tech'', ps_caps = [''scripts.manage'']\<rparr>],
     schedules := [ex_schedule\<lparr>sd_enabled := False\<rparr>]\<rparr>) (sr_db.fields 2)"

definition ex_empty_body :: schedule_body where
  "ex_empty_body = \<lparr>sb_script = None, sb_target_type = None, sb_target_ids = None, sb_cron = Absent, sb_fire_once = Absent, sb_timezone = None,
     sb_enabled = None, sb_bypass = None, sb_catchup = None, sb_catchup_max = None, sb_timeout = Absent, sb_scenario = Absent, sb_skip = None,
     sb_parameters = None, sb_conditions = None\<rparr>"

definition ex_technician :: sr_request where
  "ex_technician = \<lparr>rt_user = 7, rt_admin = False, rt_tenant = 2\<rparr>"

text \<open>The technician points the disabled schedule at device 5 and switches it on.\<close>

definition ex_edits :: "sr_event list" where
  "ex_edits = [SrPatch 1 (ex_empty_body\<lparr>sb_target_type := Some ''device'', sb_target_ids := Some [Fin 5]\<rparr>),
     SrPatch 1 (ex_empty_body\<lparr>sb_enabled := Some True\<rparr>)]"

lemma ex_desk_ok: "site_ids_ok ex_desk" "rows_numbered ex_desk" "map (\<lambda>s. (sd_id s, sd_enabled s)) (schedules ex_desk) = [(1, False)]"
  by code_simp+

lemma ex_desk_edited:
  "map (\<lambda>s. (sd_enabled s, sd_target_ids s, resolveTargetDevices s ex_desk)) (schedules (foldl (sr_apply ex_sd_env ex_technician) ex_desk ex_edits)) =
     [(True, Some [Fin 5], Some [ex_host 5 False])]"
  by code_simp


lemma ex_lists: "resolveTargetDevices ex_schedule ex_branch = Some [ex_host 4 True, ex_host 5 False]"
  "map_option (map sd_id) (schedulesForDevice 2 5 ex_branch) = Some [1]" "org_ids_ok ex_branch" "devices ex_branch = [ex_host 4 True, ex_host 5 False]"
  "approved_devices ex_branch = [4, 5]" "schedules ex_branch = [ex_schedule]"
  by code_simp+

theorem lists_agree_with_targets_witness: "resolveCount ex_schedule ex_branch = Some 2"
proof -
  obtain ss where ss: "schedulesForDevice (sd_tenant ex_schedule) (dev_id (ex_host 5 False)) ex_branch = Some ss"
    using ex_lists(2) by (auto simp: ex_schedule_def ex_host_def)
  have "ex_host 5 False \<in> set (devices ex_branch)" "dev_id (ex_host 5 False) \<in> set (approved_devices ex_branch)"
    "dev_status (ex_host 5 False) \<in> set alive_statuses" "ex_schedule \<in> set (schedules ex_branch)"
    "dev_tenant (ex_host 5 False) = sd_tenant ex_schedule"
    by (simp_all add: ex_lists(4-6) ex_host_def alive_statuses_def ex_schedule_def)
  from lists_agree_with_targets [OF ex_lists(3) this ex_lists(1) ss] show ?thesis by (simp add: ex_schedule_def)
qed

end
