(* ===== verification/Spec2Isabelle.thy ===== *)
theory Spec2Isabelle
  imports Threshold_Service Group_Closure Settings Permission Grants Db_Id Client_Ip Ssrf_Guard Restriction Live_Alert Metric_Rebaseline Maintenance Schedule_Routes
begin

text \<open>
  Verification of the core of the Obliance server, a remote monitoring and management system in TypeScript
  (\<^verbatim>\<open>server/src\<close> and \<^verbatim>\<open>shared/src\<close>).

  \<^bold>\<open>The program.\<close> Agents push metrics and acknowledge commands; the server keeps devices in a tree of groups inside
  tenants, decides who may see and do what, evaluates thresholds, raises and closes alerts, runs scenarios (graphs of
  actions with waits, branches and fan-outs over devices) and guards the dangerous actions with restrictions, second
  factors and two-step approvals. The parts share one relational database. The model follows that: \<open>org\<close> of
  \<open>Obl_Schema\<close> holds the tables the organisation-level services share, and each later component extends the record
  with its own tables (\<open>cq_db\<close> the command queue, \<open>nt_db\<close> the notification channels, \<open>sc_db\<close> the scenarios,
  \<open>ap_db\<close> the approvals, \<open>la_db\<close> the live alerts, \<open>mr_db\<close> the metric rows, \<open>mw_db\<close> the maintenance windows, \<open>sd_db\<close> the schedules and
  executions), so that
  a caller passes its state to the services it calls unchanged. A table is the list of its rows; \<open>UPDATE\<close> and \<open>DELETE\<close>
  are \<open>tbl_update\<close> and \<open>tbl_delete\<close>; the clock is the column \<open>now_ms\<close>; a refused request is a value of a sum or option type.

  \<^bold>\<open>Theories and sources\<close> (under \<^verbatim>\<open>server/src/services\<close> unless said otherwise).

  \<^item> \<open>Obl_Prelude\<close>, \<open>Obl_Json\<close>, \<open>Obl_Schema\<close>, \<open>Forest\<close>: JavaScript values and strings, tables, JSON, the shared
    tables, trees given by parent pointers. The interfaces are locales: \<open>layered_override\<close> (a cascade whose innermost
    setter wins; interpreted by the threshold slots and the settings), \<open>guarded_machine\<close> (a machine whose steps keep an
    invariant; interpreted by groups, settings, queue, scenarios, approvals, alerts, codes, windows and schedules) and
    \<open>grant_store\<close> (grants that expire and can be revoked).
  \<^item> \<open>Threshold_Cascade\<close> (\<^verbatim>\<open>thresholdCascade.ts\<close>, the metric section of \<open>handlePush\<close> in \<^verbatim>\<open>device.service.ts\<close>),
    \<open>Threshold_Service\<close> (\<^verbatim>\<open>threshold.service.ts\<close>) and \<open>Metric_Rebaseline\<close> (\<^verbatim>\<open>metricAlertRebaseline.service.ts\<close>):
    evaluation of metrics, the transitions that notify, the layers by group, and the silent job after a switch changed.
    Shown: no recovery message without an alert, switches never alter the evaluation, the ancestor walk ends and is the
    parent chain, the job changes exactly the rows of its scope.
  \<^item> \<open>Group_Closure\<close> (\<^verbatim>\<open>group.service.ts\<close>): the closure table is the ancestor relation after any sequence of
    operations, and exactly which deletions break it.
  \<^item> \<open>Settings\<close>, \<open>Permission\<close>, \<open>User_Scope\<close> (\<^verbatim>\<open>settings.service.ts\<close>, \<^verbatim>\<open>permission.service.ts\<close>, \<^verbatim>\<open>userScope.service.ts\<close>):
    nearest scope wins and values stay in range; group permissions are inherited, the list and the single check agree;
    a manager of users never hands out or reaches more than it holds.
  \<^item> \<open>Grants\<close>, \<open>Client_Ip\<close>, \<open>Ssrf_Guard\<close>, \<open>Db_Id\<close> (\<^verbatim>\<open>privacyGate.service.ts\<close>, \<^verbatim>\<open>tfaTrust.service.ts\<close>, \<^verbatim>\<open>utils\<close>):
    where unlock tokens come from, the trust window, addresses a client cannot forge, addresses a webhook cannot reach.
  \<^item> \<open>Command_Queue\<close>, \<open>Remote_Security\<close>, \<open>Automation_Notification\<close> (\<^verbatim>\<open>command.service.ts\<close>,
    \<^verbatim>\<open>remoteSessionSecurity.ts\<close>, \<^verbatim>\<open>automationNotification.service.ts\<close>): the life of a command, who receives the
    relay token, which channels a message reaches.
  \<^item> \<open>Scenario_Schema\<close>, \<open>Scenario_Executors\<close>, \<open>Scenario_Engine\<close>, \<open>Scenario_Permission\<close>, \<open>Scenario_Resume\<close>,
    \<open>Scenario_Runs\<close>, \<open>Scenario_Lifecycle\<close> (\<^verbatim>\<open>scenarioGraph.service.ts\<close>, \<^verbatim>\<open>scenarioPermission.service.ts\<close>): the graph engine.
    Shown: a run is never stuck without something that will resume it, its trace is bounded, it starts only past the
    gates, sends commands in its tenant only, waits for the whole fan-out, and is final once it ended.
  \<^item> \<open>Approval\<close>, \<open>Approval_Race\<close> (\<^verbatim>\<open>approval.service.ts\<close>), \<open>Step_Up\<close> (\<^verbatim>\<open>deviceKey/stepUpProof.ts\<close>, the TOTP checks of
    \<^verbatim>\<open>twoFactor.service.ts\<close>) and \<open>Restriction\<close> (\<^verbatim>\<open>restriction.service.ts\<close>, which calls both): single execution under
    interleaved reviews, caps on wrong codes under interleaved attempts, no replay, exact enforcement.
  \<^item> \<open>Live_Alert\<close> (\<^verbatim>\<open>liveAlert.service.ts\<close>): at most one active row per incident, exact outcome of raise and recovery.
  \<^item> \<open>Maintenance\<close> (\<^verbatim>\<open>maintenance.service.ts\<close>, \<^verbatim>\<open>controllers/maintenance.controller.ts\<close>): when a window is active, the
    three ways to ask agree, cached answers are recent, and the handlers stay in their tenant.

  \<^item> \<open>Schedule\<close>, \<open>Schedule_Routes\<close> (\<^verbatim>\<open>schedule.service.ts\<close>, \<^verbatim>\<open>routes/schedule.routes.ts\<close>, cancel and stop of
    \<^verbatim>\<open>routes/execution.routes.ts\<close>, the end of an execution in \<^verbatim>\<open>command.service.ts\<close>): a tick starts only what and where
    the tenant may run, no editor schedules beyond its own rights, the lists shown agree with what runs, no device gets a second execution in flight
    of one schedule, the sweep ends exactly the stale ones, and which acknowledgements, cancellations and stops take effect.

  \<^bold>\<open>How components meet.\<close> \<open>ackCommand\<close> runs the acknowledgement of the queue and then resumes the graph engine;
  \<open>executeNode\<close> enqueues commands, dispatches notifications, moves and tags devices and schedules re-baselines;
  \<open>startRun\<close> asks the permission gate, which uses the permissions; \<open>enforce\<close> asks the step-up checks and files approval
  requests; the re-baseline job uses the threshold layers and resolves live alerts; a schedule
  dispatches through the queue, and \<open>ack_script\<close> ends its execution after the acknowledgement of the command.

  \<^bold>\<open>Loops and fuel.\<close> \<open>executeNode\<close> recurs on a measure: every step raises the visit count of a node of the run, which
  \<open>max_node_visits\<close> (100) bounds, or ends the run; the ancestor walk of the threshold layers stops at a group it
  already met, and after 64 levels at the latest; the search for a free slug ends because the table is finite. No
  definition stops early for lack of fuel.

  \<^bold>\<open>Concurrency.\<close> A handler is one step unless the code may interleave in a way that matters: the reviews of an approval
  and the code attempts of a second factor are split at their database statements, and their machines interleave them.

  \<^bold>\<open>Bounds of the model.\<close> Doubles are exact rationals, with one value for those that are not finite. Database errors
  that the code swallows in a \<open>catch\<close> branch are not raised, except where the schema makes a statement fail
  (\<open>insert_run\<close>, foreign keys of groups, the disables of maintenance windows, exit codes and columns of executions). Inherited properties of
  \<open>Object.prototype\<close> are not found by name lookups. Texts are lists of code units. Column lengths are not checked.
  Arguments stand for code that is not in the repository: the channel plugins, the URL parser and resolver, the trusted
  proxy list, otpauth, bcrypt and SHA-256, Obligate, the cron parser, \<open>Intl\<close> and \<open>Date\<close> parsing.

  \<^bold>\<open>Not modelled.\<close> The browser client, the mobile shell and the agent (user interface and operating-system code); the
  socket hubs, routes and most controllers (transport around the services above); the older linear scenario
  engine, notification plugins and channel administration, compliance, software, updates, vulnerabilities, reports,
  disk health, custom metrics, inventory, Hyper-V and Veeam, the SSH bastion, delegated authentication, licences and
  audit. Of the modelled services: the waiters of synchronous commands and the follow-ups of an acknowledgement for disk
  health, custom metrics, schedule alerts and batch notices, the sharing of one group query between requests of the threshold layers, and
  the parts of \<open>handlePush\<close> that are not about metrics.
\<close>

end
